(* ===== verification/Prelude.thy ===== *)
theory Prelude
  imports Main "HOL-Library.Word" "HOL-Library.Monad_Syntax"
begin

text \<open>
  What every component of the development shares: the names of the machine types, the error
  numbers of the C library the sources compare with, the fact collections the component
  proofs draw on, and the lemmas on 64-bit words that turn the code's \<open>size_t\<close> and pointer
  arithmetic into arithmetic on \<open>nat\<close>.

  Throughout the development a C function that changes state is a function
  \<open>state \<Rightarrow> ('a \<times> state) option\<close>, sequenced with the \<open>do\<close> notation of the option monad.
  \<open>None\<close> means that the C code does not return a value: it dereferences a pointer to no
  object (a crash or undefined behaviour), or it blocks or loops for ever.
\<close>

section \<open>Machine types\<close>

type_synonym addr = "64 word"
type_synonym size_t = "64 word"
type_synonym byte = "8 word"

section \<open>Fact collections\<close>

named_theorems vgc_frame \<open>which parts of the state an operation leaves alone\<close>
named_theorems vgc_ok \<open>what an external call does when the environment does not fail\<close>

section \<open>Error numbers\<close>

text \<open>The values of \<open>errno\<close> the sources name; every other value is \<open>EOTHER\<close>.\<close>

datatype errno =
    EPERM | ENOENT | ESRCH | EINTR | EIO | EBADF | EAGAIN | ENOMEM | EACCES | EFAULT | EBUSY
  | EEXIST | ENOTDIR | EISDIR | EINVAL | ENFILE | EMFILE | EFBIG | ENOSPC | EROFS | EPIPE
  | EDEADLK | ENAMETOOLONG | ELOOP | EPROTO | ENOTSOCK | EDESTADDRREQ | EPROTOTYPE
  | EPROTONOSUPPORT | EOPNOTSUPP | EAFNOSUPPORT | EADDRINUSE | EADDRNOTAVAIL | ENETUNREACH
  | ECONNABORTED | ENOBUFS | EISCONN | ETIMEDOUT | ECONNREFUSED | EALREADY | EINPROGRESS
  | EDQUOT | EOWNERDEAD | ENOTRECOVERABLE | EOTHER int

section \<open>Words as natural numbers\<close>

lemma unat_lt64 [simp]: "unat (x :: 64 word) < 18446744073709551616"
  using unsigned_less [of x] by simp

lemma unat_add_ok:
  "unat a + unat b < 18446744073709551616 \<Longrightarrow> unat (a + b) = unat a + unat (b :: 64 word)"
  by (simp add: unat_word_ariths)

lemma unat_sub_ok:
  "unat b \<le> unat a \<Longrightarrow> unat (a - b) = unat a - unat (b :: 64 word)"
  by (simp add: unat_sub word_le_nat_alt)

lemma unat_of_nat_ok: "n < 18446744073709551616 \<Longrightarrow> unat (of_nat n :: 64 word) = n"
  by (simp add: unat_of_nat)

lemma word_eq_unat: "(a :: 64 word) = b \<longleftrightarrow> unat a = unat b"
  by (rule word_unat_eq_iff)

lemma unat_mod_4096: "unat (x mod 4096 :: 64 word) = unat x mod 4096"
  by (simp add: unat_mod)

lemma unat_div_4096: "unat (x div 4096 :: 64 word) = unat x div 4096"
  by (simp add: unat_div)

text \<open>
  Storing a length in an \<open>int\<close> and reading it back as a \<open>size_t\<close> keeps the page offset: the
  truncation drops bits 32 and up, the sign extension fills them.
\<close>

lemma int_truncation_keeps_page_offset:
  "(scast (ucast (x :: 64 word) :: 32 word) :: 64 word) mod 4096 = x mod 4096"
proof -
  have "take_bit 12 (scast (ucast x :: 32 word) :: 64 word) = take_bit 12 x"
    by (rule bit_word_eqI) (auto simp: bit_simps)
  then show ?thesis
    by (simp add: take_bit_eq_mod)
qed

end
