(* ===== verification/Text.thy ===== *)
theory Text
  imports Prelude
begin

text \<open>
  The functions of the C library on strings that the sources use: \<^verbatim>\<open>snprintf\<close> into a buffer of
  a given size, \<^verbatim>\<open>strchr\<close>, \<^verbatim>\<open>strrchr\<close> and \<^verbatim>\<open>fgets\<close>. A \<^verbatim>\<open>char *\<close> into a string is an index, and
  the null pointer is \<open>None\<close>.
\<close>

section \<open>Numbers in decimal\<close>

fun dec_nat :: "nat \<Rightarrow> string" where
  "dec_nat n = (if n < 10 then [char_of (48 + n)] else dec_nat (n div 10) @ [char_of (48 + n mod 10)])"

declare dec_nat.simps [simp del]

definition dec :: "int \<Rightarrow> string" where
  "dec i = (if i < 0 then ''-'' @ dec_nat (nat (- i)) else dec_nat (nat i))"

section \<open>Buffers and searches\<close>

text \<open>What \<^verbatim>\<open>snprintf\<close> leaves in a buffer of \<open>n\<close> bytes (without the end mark), and its result.\<close>

definition snprintf :: "nat \<Rightarrow> string \<Rightarrow> string \<times> int" where
  "snprintf n txt = (take (n - 1) txt, int (length txt))"

text \<open>
  \<^verbatim>\<open>vsnprintf(&buf[pos], n, ...)\<close> into an array of \<open>cap\<close> characters that holds \<open>buf\<close>. At most \<open>n - 1\<close>
  characters and the end mark are written, nothing at all when \<open>n\<close> is 0; \<open>None\<close> when that is not inside the array.
\<close>

definition snprintf_at :: "nat \<Rightarrow> string \<Rightarrow> nat \<Rightarrow> size_t \<Rightarrow> string \<Rightarrow> string option" where
  "snprintf_at cap buf pos n txt =
     (let out = fst (snprintf (unat n) txt) in
      if n = 0 then Some buf
      else if cap < pos + length out + 1 then None
      else Some (take pos buf @ out))"

abbreviation newline_char :: char where
  "newline_char \<equiv> char_of (10 :: nat)"

definition strchr :: "char \<Rightarrow> nat \<Rightarrow> string \<Rightarrow> nat option" where
  "strchr c from t = (let n = length (takeWhile (\<lambda>x. x \<noteq> c) (drop from t))
                      in if from + n < length t then Some (from + n) else None)"

definition strrchr :: "char \<Rightarrow> string \<Rightarrow> nat option" where
  "strrchr c t = (let n = length (takeWhile (\<lambda>x. x \<noteq> c) (rev t))
                  in if n < length t then Some (length t - 1 - n) else None)"

text \<open>One line of at most \<open>n - 1\<close> characters of what is there to read.\<close>

definition fgets :: "nat \<Rightarrow> string \<Rightarrow> string" where
  "fgets n out = (let l = takeWhile (\<lambda>c. c \<noteq> newline_char) out
                  in take (n - 1) (if length l < length out then l @ [newline_char] else l))"

section \<open>Lemmas\<close>

lemma strchr_append: "c \<notin> set u \<Longrightarrow> strchr c 0 (u @ c # v) = Some (length u)"
proof -
  assume "c \<notin> set u"
  then have "takeWhile (\<lambda>x. x \<noteq> c) (u @ c # v) = u" by (induction u) auto
  then show ?thesis by (simp add: strchr_def)
qed

lemma strchr_absent: "c \<notin> set t \<Longrightarrow> strchr c n t = None"
proof -
  assume "c \<notin> set t"
  then have "takeWhile (\<lambda>x. x \<noteq> c) (drop n t) = drop n t" by (auto simp: takeWhile_eq_all_conv dest: in_set_dropD)
  then show ?thesis by (simp add: strchr_def Let_def del: takeWhile_eq_all_conv)
qed

lemma strchr_shift: "length u = n \<Longrightarrow> strchr c n (u @ v) = map_option ((+) n) (strchr c 0 v)"
  by (simp add: strchr_def Let_def)

lemma strchr_present:
  assumes "c \<in> set t"
  shows "strchr c 0 t \<noteq> None"
proof -
  obtain u v where "t = u @ c # v" "c \<notin> set u" using split_list_first [OF assms] by blast
  then show ?thesis by (simp add: strchr_append)
qed

lemma strrchr_present:
  assumes "c \<in> set t"
  shows "strrchr c t \<noteq> None"
proof -
  have "c \<in> set (rev t)" using assms by simp
  then obtain u v where uv: "rev t = u @ c # v" "c \<notin> set u" using split_list_first by metis
  then have "takeWhile (\<lambda>x. x \<noteq> c) (rev t) = u" by (auto simp: takeWhile_append)
  moreover have "length u < length t" using arg_cong [OF uv(1), of length] by simp
  ultimately show ?thesis by (simp add: strrchr_def)
qed

text \<open>A line that is not longer than the buffer keeps its end mark.\<close>

lemma fgets_newline:
  assumes "newline_char \<in> set (take (n - 1) out)"
  shows "newline_char \<in> set (fgets n out)"
proof -
  obtain u v where uv: "take (n - 1) out = u @ newline_char # v" "newline_char \<notin> set u"
    using split_list_first [OF assms] by blast
  have "out = (u @ newline_char # v) @ drop (n - 1) out" unfolding uv(1) [symmetric] by simp
  then have out: "out = u @ newline_char # v @ drop (n - 1) out" by simp
  have "takeWhile (\<lambda>c. c \<noteq> newline_char) (u @ newline_char # v @ drop (n - 1) out) = u"
    using uv(2) by (auto simp: takeWhile_append)
  then have "takeWhile (\<lambda>c. c \<noteq> newline_char) out = u" using out by simp
  moreover have "length u < n - 1" "length u < length out"
    using arg_cong [OF uv(1), of length] by (auto simp: min_def split: if_splits)
  ultimately show ?thesis by (simp add: fgets_def Let_def)
qed

end
