(* ===== verification/Trace.thy ===== *)
theory Trace
  imports Text
begin

text \<open>
  \<^verbatim>\<open>src/vgc_stacktrace.c\<close>: the text of a stack trace, from the strings \<^verbatim>\<open>backtrace_symbols\<close> makes
  of the return addresses to the lines that are printed. What the kernel says of the running
  program and what \<^verbatim>\<open>addr2line\<close> writes are arguments. Reading or writing through a null pointer
  is \<open>None\<close>.
\<close>

section \<open>The process' own path\<close>

text \<open>\<open>pp_base\<close> is the index of the file name in \<open>pp_path\<close>, \<open>None\<close> for the null pointer.\<close>

record ProcessPath =
  pp_path :: string
  pp_base :: "nat option"

text \<open>
  \<open>link\<close> is what \<^verbatim>\<open>readlink\<close> finds, \<open>None\<close> when it fails; the kernel's path is absolute, so that
  \<^verbatim>\<open>strrchr\<close> finds a slash.
\<close>

definition getProcessPath :: "string option \<Rightarrow> ProcessPath" where
  "getProcessPath link =
     (case link of
        None \<Rightarrow> \<lparr>pp_path = '''', pp_base = None\<rparr>
      | Some p \<Rightarrow> (let path = take 127 p
                   in \<lparr>pp_path = path, pp_base = map_option Suc (strrchr (CHR ''/'') path)\<rparr>))"

section \<open>The frames of a trace\<close>

text \<open>
  The four characters around the symbol and the address are overwritten with spaces and an end
  mark, \<^verbatim>\<open>path(symbol) [address]\<close> becomes \<^verbatim>\<open>path symbol   address\<close>.
\<close>

definition frame_text :: "string \<Rightarrow> string option" where
  "frame_text msg = do {
     space \<leftarrow> strchr CHR ''('' 0 msg;
     end1 \<leftarrow> strchr CHR '')'' space msg;
     let msg = (msg[space := CHR '' ''])[end1 := CHR '' ''];
     end2 \<leftarrow> strchr CHR ''['' end1 msg;
     let msg = msg[end2 := CHR '' ''];
     end3 \<leftarrow> strchr CHR '']'' end2 msg;
     Some (take end3 msg) }"

definition system_library :: "string \<Rightarrow> bool" where
  "system_library msg \<longleftrightarrow> take 5 msg = ''/lib/'' \<or> take 7 msg = ''/lib64/'' \<or> take 11 msg = ''/usr/lib64/''"

text \<open>The file name is cut off the path the first time a frame is found to begin with it.\<close>

definition frame_command :: "ProcessPath \<Rightarrow> string \<Rightarrow> (string \<times> ProcessPath) option" where
  "frame_command me msg = do {
     base \<leftarrow> pp_base me;
     let name = drop base (pp_path me);
     let (dir, me) = (if take (length name) msg = name
                        then (take base (pp_path me), me\<lparr>pp_path := take base (pp_path me)\<rparr>)
                        else ('''', me));
     Some (fst (snprintf 1024 (''addr2line -Cfipe '' @ dir @ msg)), me) }"

text \<open>
  The lines the trace prints. \<open>addr2line cmd\<close> is what the command writes, \<open>None\<close> when \<^verbatim>\<open>popen\<close>
  fails; \<^verbatim>\<open>fgets\<close> reads its first line.
\<close>

fun stacktrace :: "(string \<Rightarrow> string option) \<Rightarrow> ProcessPath \<Rightarrow> string list \<Rightarrow> string list option" where
  "stacktrace addr2line me [] = Some []"
| "stacktrace addr2line me (msg # ms) =
     (if system_library msg then stacktrace addr2line me ms
      else do {
        msg \<leftarrow> frame_text msg;
        (cmd, me) \<leftarrow> frame_command me msg;
        case addr2line cmd of
          None \<Rightarrow> stacktrace addr2line me ms
        | Some out \<Rightarrow> do {
            let result = fgets 1024 out;
            nl \<leftarrow> strchr newline_char 0 result;
            let result = take nl result;
            lines \<leftarrow> stacktrace addr2line me ms;
            Some (if take 1 result \<noteq> ''?'' then result # lines else lines) } })"

text \<open>The loop runs from the fourth frame to the last but one.\<close>

definition frames :: "'a list \<Rightarrow> 'a list" where
  "frames messages = drop 3 (take (length messages - 1) messages)"

section \<open>Lemmas\<close>

text \<open>A frame of the usual form is split at its parentheses and brackets.\<close>

lemma frame_text_usual:
  assumes "CHR ''('' \<notin> set file" and "CHR '')'' \<notin> set fn" and "CHR ''['' \<notin> set gap" and "CHR '']'' \<notin> set adr"
  shows "frame_text (file @ ''('' @ fn @ '')'' @ gap @ ''['' @ adr @ '']'' @ rest)
    = Some (file @ '' '' @ fn @ '' '' @ gap @ '' '' @ adr)"
proof -
  let ?n1 = "length file" and ?n2 = "length file + 1 + length fn"
  let ?n3 = "length file + 2 + length fn + length gap"
  let ?m0 = "file @ ''('' @ fn @ '')'' @ gap @ ''['' @ adr @ '']'' @ rest"
  let ?m1 = "file @ '' '' @ fn @ '' '' @ gap @ ''['' @ adr @ '']'' @ rest"
  let ?m2 = "file @ '' '' @ fn @ '' '' @ gap @ '' '' @ adr @ '']'' @ rest"
  let ?out = "file @ '' '' @ fn @ '' '' @ gap @ '' '' @ adr"
  have "strchr CHR ''('' 0 ?m0 = Some ?n1" using assms(1) strchr_append by fastforce
  moreover have "strchr CHR '')'' ?n1 ?m0 = Some ?n2"
    using strchr_shift [of "file" "?n1" "CHR '')''"] strchr_append [of "CHR '')''" "CHR ''('' # fn"] assms(2) by simp
  moreover have "(?m0[?n1 := CHR '' ''])[?n2 := CHR '' ''] = ?m1" by (simp add: list_update_append)
  moreover have "strchr CHR ''['' ?n2 ?m1 = Some ?n3"
    using strchr_shift [of "file @ '' '' @ fn"  "?n2" "CHR ''[''"] strchr_append [of "CHR ''[''" "CHR '' '' # gap"] assms(3)
    by simp
  moreover have "?m1[?n3 := CHR '' ''] = ?m2" by (simp add: list_update_append)
  moreover have "strchr CHR '']'' ?n3 ?m2 = Some (?n3 + 1 + length adr)"
    using strchr_shift [of "file @ '' '' @ fn @ '' '' @ gap"  "?n3" "CHR '']''"]
      strchr_append [of "CHR '']''" "CHR '' '' # adr"] assms(4)
    by simp
  moreover have "take (?n3 + 1 + length adr) ?m2 = ?out"
  proof -
    have "?m2 = ?out @ '']'' @ rest" and "?n3 + 1 + length adr = length ?out" by simp_all
    then show ?thesis by (metis append_eq_conv_conj)
  qed
  ultimately show ?thesis unfolding frame_text_def by (simp add: Let_def)
qed

text \<open>A frame without a symbol has no parenthesis: \<^verbatim>\<open>strchr\<close> gives the null pointer, which is used.\<close>

lemma stacktrace_no_symbol:
  assumes "m \<in> set ms" and "\<not> system_library m" and "CHR ''('' \<notin> set m"
  shows "stacktrace addr2line me ms = None"
  using assms(1)
proof (induction ms arbitrary: me)
  case (Cons x ms)
  show ?case
  proof (cases "x = m")
    case True
    then show ?thesis using assms(2,3) by (simp add: frame_text_def strchr_absent)
  next
    case False
    then have "stacktrace addr2line me' ms = None" for me' using Cons by simp
    then show ?thesis by (auto simp: Let_def bind_eq_None_conv split: option.splits prod.splits)
  qed
qed simp

text \<open>
  A program linked with its symbols has frames of the usual form; \<^verbatim>\<open>/proc/self/exe\<close> names it by an
  absolute path, and \<^verbatim>\<open>addr2line\<close> answers with a line.
\<close>

definition usual_frame :: "string \<Rightarrow> bool" where
  "usual_frame msg \<longleftrightarrow> (\<exists>file fn gap adr rest. CHR ''('' \<notin> set file \<and> CHR '')'' \<notin> set fn \<and>
     CHR ''['' \<notin> set gap \<and> CHR '']'' \<notin> set adr \<and>
     msg = file @ ''('' @ fn @ '')'' @ gap @ ''['' @ adr @ '']'' @ rest)"

definition traceable :: "(addr list \<Rightarrow> string list option) \<Rightarrow> string option \<Rightarrow> (string \<Rightarrow> string option) \<Rightarrow> bool" where
  "traceable symbols link addr2line \<longleftrightarrow>
     (\<forall>bt ms m. symbols bt = Some ms \<and> m \<in> set ms \<longrightarrow> system_library m \<or> usual_frame m) \<and>
     (\<exists>p. link = Some p \<and> CHR ''/'' \<in> set (take 127 p)) \<and>
     (\<forall>cmd out. addr2line cmd = Some out \<longrightarrow> newline_char \<in> set (take 1023 out))"

lemma frame_text_some: "usual_frame msg \<Longrightarrow> \<exists>t. frame_text msg = Some t"
  unfolding usual_frame_def by (metis frame_text_usual)

lemma frame_command_some:
  "pp_base me \<noteq> None \<Longrightarrow> \<exists>cmd me'. frame_command me msg = Some (cmd, me') \<and> pp_base me' \<noteq> None"
  by (auto simp: frame_command_def Let_def)

text \<open>Then the trace is printed: no pointer the code uses is null.\<close>

lemma stacktrace_some:
  assumes "pp_base me \<noteq> None" and "\<forall>m \<in> set ms. system_library m \<or> usual_frame m"
    and out: "\<And>cmd out. addr2line cmd = Some out \<Longrightarrow> newline_char \<in> set (take 1023 out)"
  shows "\<exists>ls. stacktrace addr2line me ms = Some ls"
  using assms(1,2)
proof (induction ms arbitrary: me)
  case (Cons m ms)
  show ?case
  proof (cases "system_library m")
    case False
    then obtain t where t: "frame_text m = Some t" using Cons.prems(2) frame_text_some by auto
    obtain cmd me' where c: "frame_command me t = Some (cmd, me')" "pp_base me' \<noteq> None"
      using frame_command_some [OF Cons.prems(1)] by blast
    obtain ls where ls: "stacktrace addr2line me' ms = Some ls"
      using Cons.IH [OF c(2)] Cons.prems(2) by auto
    have "strchr newline_char 0 (fgets 1024 l) \<noteq> None" if "addr2line cmd = Some l" for l
      using out [OF that] fgets_newline [of 1024 l] strchr_present by simp
    then show ?thesis using False t c(1) ls by (auto simp: Let_def split: option.splits)
  qed (use Cons in simp)
qed simp

lemma trace_some:
  assumes "traceable symbols link addr2line" and "symbols bt = Some ms"
  shows "\<exists>ls. stacktrace addr2line (getProcessPath link) (frames ms) = Some ls"
proof -
  obtain p where p: "link = Some p" "CHR ''/'' \<in> set (take 127 p)"
    using assms(1) by (auto simp: traceable_def)
  have "pp_base (getProcessPath link) \<noteq> None"
    using strrchr_present [OF p(2)] p(1) by (simp add: getProcessPath_def Let_def)
  moreover have "set (frames ms) \<subseteq> set ms"
    by (auto simp: frames_def dest: in_set_dropD in_set_takeD)
  ultimately show ?thesis
    using assms unfolding traceable_def by (intro stacktrace_some) blast+
qed

end
