(* ===== verification/VGC_State.thy ===== *)
theory VGC_State
  imports Trace
begin

text \<open>
  The data of \<^verbatim>\<open>src/vgc_malloc_private.h\<close>, the state the library works on and the outside
  world it calls.

  Memory is split by type: the mmap headers, the malloc headers and the mutexes are separate
  maps from addresses to objects, and the bytes handed to the user are a fourth. Within a
  header the layout is that of the build the Makefile makes (\<^verbatim>\<open>VGC_MALLOC_MPROTECT\<close> and
  \<^verbatim>\<open>VGC_MALLOC_STACKTRACE\<close>): an mmap header fills one page of 4096 bytes, a malloc header
  two pages, of which the first (the field \<open>protect\<close>) is the guard page.
\<close>

section \<open>Headers\<close>

datatype VGC_mallocStatus = VGC_MALLOC_FREE | VGC_MALLOC_BUSY

record VGC_mmapHeader =
  mm_checkStart :: byte
  mm_size :: size_t
  mm_maxSize :: size_t
  mm_free :: size_t
  mm_elements :: size_t
  mm_prev :: addr
  mm_next :: addr
  mm_checkEnd :: byte

record VGC_mallocHeader =
  mb_checkStart :: byte
  mb_size :: size_t
  mb_status :: VGC_mallocStatus
  mb_mmapBlock :: addr
  mb_prev :: addr
  mb_next :: addr
  mb_checkEnd :: byte
  mb_btArray :: "addr list"

record VGC_shared =
  sh_pid :: int
  sh_pageSize :: size_t
  sh_mmapBlockFirst :: addr
  sh_mmapBlockCount :: int
  sh_mmapBlockSize :: size_t
  sh_isMprotectEnabled :: bool

abbreviation sizeof_mmapHeader :: size_t where
  "sizeof_mmapHeader \<equiv> 4096"

abbreviation sizeof_mallocHeader :: size_t where
  "sizeof_mallocHeader \<equiv> 8192"

definition VGC_MALLOC_SYSTEM_PAGE_SIZE :: size_t where
  "VGC_MALLOC_SYSTEM_PAGE_SIZE = 4096"

definition VGC_MALLOC_MMAP_PAGES :: size_t where
  "VGC_MALLOC_MMAP_PAGES = 8000"

definition VGC_MALLOC_STACKTRACE_SIZE :: nat where
  "VGC_MALLOC_STACKTRACE_SIZE = 10"

abbreviation MAP_FAILED :: addr where
  "MAP_FAILED \<equiv> - 1"

text \<open>Fresh pages are filled with zeros; these are the headers such pages hold.\<close>

definition zero_mmapHeader :: VGC_mmapHeader where
  "zero_mmapHeader = \<lparr>mm_checkStart = 0, mm_size = 0, mm_maxSize = 0, mm_free = 0,
     mm_elements = 0, mm_prev = 0, mm_next = 0, mm_checkEnd = 0\<rparr>"

definition zero_mallocHeader :: VGC_mallocHeader where
  "zero_mallocHeader = \<lparr>mb_checkStart = 0, mb_size = 0, mb_status = VGC_MALLOC_FREE,
     mb_mmapBlock = 0, mb_prev = 0, mb_next = 0, mb_checkEnd = 0, mb_btArray = []\<rparr>"

section \<open>Mutex objects\<close>

text \<open>
  A \<^verbatim>\<open>pthread_mutexattr_t\<close> holds three integers, a \<^verbatim>\<open>pthread_mutex_t\<close> the attributes it
  was made with and its lock state. \<open>OwnerDied\<close> is the state of a robust mutex whose owner
  ended while it held it, \<open>Inconsistent t\<close> the state after \<open>t\<close> locked such a mutex.
  The mutexes of the library are the one in \<^verbatim>\<open>VGC_shared\<close> and one in each mmap header.
\<close>

record pattr =
  pa_robust :: int
  pa_pshared :: int
  pa_type :: int

datatype lockstate =
    Uninit | Unlocked | Locked nat | OwnerDied | Inconsistent nat | NotRecoverable

record pmutex =
  pm_attr :: pattr
  pm_lock :: lockstate

datatype mid = MShared | MBlock addr

section \<open>Messages\<close>

text \<open>
  What \<^verbatim>\<open>vgc_message\<close> is called with, without the layout of the text: the calling function and
  the subject (the title or subtitle the source gives). The lines of a dump carry the values
  they print.
\<close>

datatype pthread_call =
    PC_mutex_lock | PC_mutex_unlock | PC_mutex_init | PC_mutex_destroy | PC_mutex_consistent
  | PC_mutexattr_init | PC_mutexattr_destroy | PC_mutexattr_getrobust | PC_mutexattr_setrobust
  | PC_mutexattr_setpshared | PC_mutexattr_getpshared | PC_mutexattr_gettype
  | PC_mutexattr_settype | PC_rwlock_init | PC_rwlock_destroy | PC_rwlock_rdlock
  | PC_rwlock_tryrdlock | PC_rwlock_wrlock | PC_rwlock_trywrlock | PC_rwlock_timedrdlock
  | PC_rwlock_timedwrlock | PC_rwlock_unlock | PC_rwlockattr_init | PC_rwlockattr_destroy
  | PC_rwlockattr_setpshared | PC_rwlockattr_getpshared | PC_create | PC_kill | PC_join
  | PC_detach | PC_cancel

datatype source_fn =
    F_createShared | F_initialiseMutex | F_mallocCleanup | F_allocMMAP | F_mmapBlockAllocate
  | F_allocMallocBlock | F_checkMmapBlock | F_vgc_malloc | F_freeMMAP | F_vgc_free
  | F_vgc_calloc | F_vgc_mallocCheckMMAP | F_do_mprotect

datatype subject =
    S_mmap | S_munmap | S_mutexattrInit | S_mutexInit | S_mutexLock | S_mutexUnlock
  | S_mutexDestroy | S_mutexattrDestroy | S_allocMMAP | S_checkMmapBlock | S_too_big_block
  | S_wrong_pointer | S_overwrite | S_inconsistent | S_new_mmap | S_unmapping | S_malloc
  | S_protect | S_unprotect | S_free | S_size_zero | S_size_too_big | S_ptr_zero
  | S_isInMmapBlock | S_checksum_malloc | S_checksum_mmap | S_mallocSize_zero | S_leak
  | S_memory_problem

datatype net_call =
    NC_bind | NC_listen | NC_accept | NC_read | NC_write | NC_socket | NC_connect

datatype child_report =
    CR_start int | CR_create_failed | CR_stop int | CR_cancel_failed | CR_join_failed
  | CR_serve bool addr int int \<comment> \<open>protecting, header, own pid, source pid\<close>
  | CR_serve_failed bool addr int int
  | CR_distribute bool addr int int
  | CR_init | CR_mkdir errno | CR_exists | CR_removing string | CR_unlink string errno
  | CR_socket errno | CR_mmap | CR_munmap errno | CR_stopping

datatype report =
    Rep source_fn subject
  | RepErr source_fn subject errno
  | PthreadRep pthread_call "errno option" \<comment> \<open>\<open>Some e\<close>: status e; \<open>None\<close>: unknown error\<close>
  | MprotectRep bool bool errno \<comment> \<open>known error, protecting, errno\<close>
  | NetRep net_call bool errno \<comment> \<open>known error, errno\<close>
  | ChildRep child_report
  | SigRep bool int \<comment> \<open>failed, signal\<close>
  | CrashRep int addr addr \<comment> \<open>signal, address, instruction\<close>
  | TraceLine string
  | DumpHead addr
  | DumpBlock nat addr addr addr VGC_mallocStatus size_t
  | DumpTotals size_t size_t size_t size_t size_t

abbreviation INFO_LEVEL :: int where "INFO_LEVEL \<equiv> 0"
abbreviation ERROR_LEVEL :: int where "ERROR_LEVEL \<equiv> 1"
abbreviation DEBUG_LEVEL :: int where "DEBUG_LEVEL \<equiv> 3"
abbreviation VGC_MALLOC_DEBUG_LEVEL :: int where "VGC_MALLOC_DEBUG_LEVEL \<equiv> 4"

section \<open>The state\<close>

text \<open>
  \<open>heap\<close> is the memory proper: the shared record, the header objects, the user's bytes, which
  bytes lie in a page with no access (\<open>prot\<close>) and which regions are mapped. The rest of the
  state is the lock words, the identity of the calling thread, the number of external calls
  made so far and the messages printed.
\<close>

record heap =
  shared :: VGC_shared
  mmapH :: "addr \<Rightarrow> VGC_mmapHeader option"
  mallocH :: "addr \<Rightarrow> VGC_mallocHeader option"
  bytes :: "addr \<Rightarrow> byte"
  prot :: "addr \<Rightarrow> bool"
  maps :: "(addr \<times> size_t) list"

record state =
  hp :: heap
  mtx :: "mid \<Rightarrow> pmutex"
  attrs :: "mid \<Rightarrow> pattr option"
  self :: nat
  ticks :: nat
  messageLevel :: int
  msgs :: "report list"

section \<open>The outside world\<close>

text \<open>
  The operating system's choices are a parameter of every operation. The external calls of a
  run are numbered by \<open>ticks\<close>: \<open>env_fail E k = Some e\<close> makes the \<open>k\<close>-th call fail with
  error \<open>e\<close> and without effect; \<open>env_mmap E k ms n\<close> is the address the \<open>k\<close>-th call returns
  when it is an \<^verbatim>\<open>mmap\<close> of \<open>n\<close> bytes and the regions \<open>ms\<close> are mapped (\<open>MAP_FAILED\<close> when
  there is no room); \<open>env_backtrace\<close> are the return addresses \<^verbatim>\<open>backtrace\<close> finds.
  \<open>env_symbols\<close> is \<^verbatim>\<open>backtrace_symbols\<close> (\<open>None\<close> when it has no memory), \<open>env_link\<close> what
  \<^verbatim>\<open>readlink("/proc/self/exe")\<close> finds and \<open>env_addr2line\<close> what the command it is given writes
  (\<open>None\<close> when \<^verbatim>\<open>popen\<close> fails).
\<close>

record env =
  env_fail :: "nat \<Rightarrow> errno option"
  env_mmap :: "nat \<Rightarrow> (addr \<times> size_t) list \<Rightarrow> size_t \<Rightarrow> addr"
  env_backtrace :: "nat \<Rightarrow> addr list"
  env_symbols :: "addr list \<Rightarrow> string list option"
  env_link :: "string option"
  env_addr2line :: "string \<Rightarrow> string option"

definition sys :: "env \<Rightarrow> state \<Rightarrow> errno option \<times> state" where
  "sys E s = (env_fail E (ticks s), s\<lparr>ticks := Suc (ticks s)\<rparr>)"

text \<open>
  The environment most theorems ask for: no call fails (\<^verbatim>\<open>mmap\<close> apart), and the program is linked
  so that its stack traces have symbols.
\<close>

definition reliable :: "env \<Rightarrow> bool" where
  "reliable E \<longleftrightarrow> (\<forall>k. env_fail E k = None) \<and> traceable (env_symbols E) (env_link E) (env_addr2line E)"

lemma sys_reliable [vgc_ok]: "reliable E \<Longrightarrow> sys E s = (None, s\<lparr>ticks := Suc (ticks s)\<rparr>)"
  by (simp add: sys_def reliable_def)

text \<open>\<^verbatim>\<open>vgc_message\<close> prints nothing when the message's level is above the chosen one.\<close>

definition report :: "int \<Rightarrow> report \<Rightarrow> state \<Rightarrow> state" where
  "report lvl r s = (if messageLevel s < lvl then s else s\<lparr>msgs := msgs s @ [r]\<rparr>)"

lemma report_frame [simp, vgc_frame]:
  "hp (report l r s) = hp s" "mtx (report l r s) = mtx s" "attrs (report l r s) = attrs s"
  "self (report l r s) = self s" "ticks (report l r s) = ticks s"
  "messageLevel (report l r s) = messageLevel s"
  by (simp_all add: report_def)

section \<open>Reading and writing header objects\<close>

text \<open>
  \<open>None\<close> where the pointer addresses no object. A store through a pointer that was cast from
  raw memory (the code does this for the header of a fresh region and for the header it
  carves out of a free block) needs the bytes of the object to be mapped and makes the
  object if there is none: its unset fields keep what an older header left there, or zero.
\<close>

definition get_mm :: "addr \<Rightarrow> state \<Rightarrow> VGC_mmapHeader option" where
  "get_mm a s = mmapH (hp s) a"

definition get_mb :: "addr \<Rightarrow> state \<Rightarrow> VGC_mallocHeader option" where
  "get_mb a s = mallocH (hp s) a"

definition put_mm :: "addr \<Rightarrow> VGC_mmapHeader \<Rightarrow> state \<Rightarrow> state" where
  "put_mm a h s = s\<lparr>hp := (hp s)\<lparr>mmapH := (mmapH (hp s))(a \<mapsto> h)\<rparr>\<rparr>"

definition put_mb :: "addr \<Rightarrow> VGC_mallocHeader \<Rightarrow> state \<Rightarrow> state" where
  "put_mb a h s = s\<lparr>hp := (hp s)\<lparr>mallocH := (mallocH (hp s))(a \<mapsto> h)\<rparr>\<rparr>"

definition upd_mm :: "addr \<Rightarrow> (VGC_mmapHeader \<Rightarrow> VGC_mmapHeader) \<Rightarrow> state \<Rightarrow> state option" where
  "upd_mm a f s = map_option (\<lambda>h. put_mm a (f h) s) (get_mm a s)"

definition upd_mb :: "addr \<Rightarrow> (VGC_mallocHeader \<Rightarrow> VGC_mallocHeader) \<Rightarrow> state \<Rightarrow> state option" where
  "upd_mb a f s = map_option (\<lambda>h. put_mb a (f h) s) (get_mb a s)"

definition upd_shared :: "(VGC_shared \<Rightarrow> VGC_shared) \<Rightarrow> state \<Rightarrow> state" where
  "upd_shared f s = s\<lparr>hp := (hp s)\<lparr>shared := f (shared (hp s))\<rparr>\<rparr>"

definition in_region :: "nat \<Rightarrow> nat \<Rightarrow> addr \<times> size_t \<Rightarrow> bool" where
  "in_region a n r \<longleftrightarrow> unat (fst r) \<le> a \<and> a + n \<le> unat (fst r) + unat (snd r)"

definition mapped :: "addr \<Rightarrow> nat \<Rightarrow> state \<Rightarrow> bool" where
  "mapped a n s \<longleftrightarrow> list_ex (in_region (unat a) n) (maps (hp s))"

definition cast_mb :: "addr \<Rightarrow> state \<Rightarrow> VGC_mallocHeader option" where
  "cast_mb a s =
     (if mapped a 8192 s
      then Some (case get_mb a s of None \<Rightarrow> zero_mallocHeader | Some h \<Rightarrow> h)
      else None)"

section \<open>The user's bytes\<close>

text \<open>
  \<open>access_ok a n s\<close>: the bytes from \<open>a\<close> to \<open>a + n - 1\<close> are mapped and none lies in a page
  without access rights. A store outside raises SIGSEGV, so it is \<open>None\<close>.
\<close>

definition access_ok :: "addr \<Rightarrow> nat \<Rightarrow> state \<Rightarrow> bool" where
  "access_ok a n s \<longleftrightarrow> mapped a n s \<and> list_all (\<lambda>i. \<not> prot (hp s) (a + of_nat i)) [0..<n]"

definition memset :: "addr \<Rightarrow> byte \<Rightarrow> size_t \<Rightarrow> state \<Rightarrow> state option" where
  "memset p v n s =
     (if access_ok p (unat n) s
      then Some (s\<lparr>hp := (hp s)\<lparr>bytes := (\<lambda>x. if x - p < n then v else bytes (hp s) x)\<rparr>\<rparr>)
      else None)"

definition memcpy :: "addr \<Rightarrow> addr \<Rightarrow> size_t \<Rightarrow> state \<Rightarrow> state option" where
  "memcpy d p n s =
     (if access_ok d (unat n) s \<and> access_ok p (unat n) s
      then Some (s\<lparr>hp := (hp s)\<lparr>bytes :=
             (\<lambda>x. if x - d < n then bytes (hp s) (p + (x - d)) else bytes (hp s) x)\<rparr>\<rparr>)
      else None)"

end
