(* ===== verification/Pthread.thy ===== *)
theory Pthread
  imports VGC_State
begin

text \<open>
  \<^verbatim>\<open>src/vgc_pthread.c\<close>: the wrappers that turn the result codes of the POSIX thread functions
  into a truth value and a message, and retake a mutex whose owner died. The mutex functions
  of POSIX are modelled on the lock word (section 1); rwlocks, rwlock attributes and threads
  are opaque, so their wrappers take the result code the environment gives.
\<close>

section \<open>POSIX mutexes\<close>

abbreviation PTHREAD_MUTEX_STALLED :: int where "PTHREAD_MUTEX_STALLED \<equiv> 0"
abbreviation PTHREAD_MUTEX_ROBUST :: int where "PTHREAD_MUTEX_ROBUST \<equiv> 1"
abbreviation PTHREAD_PROCESS_PRIVATE :: int where "PTHREAD_PROCESS_PRIVATE \<equiv> 0"
abbreviation PTHREAD_PROCESS_SHARED :: int where "PTHREAD_PROCESS_SHARED \<equiv> 1"
abbreviation PTHREAD_MUTEX_NORMAL :: int where "PTHREAD_MUTEX_NORMAL \<equiv> 0"
abbreviation PTHREAD_MUTEX_RECURSIVE :: int where "PTHREAD_MUTEX_RECURSIVE \<equiv> 1"
abbreviation PTHREAD_MUTEX_ERRORCHECK :: int where "PTHREAD_MUTEX_ERRORCHECK \<equiv> 2"

definition default_pattr :: pattr where
  "default_pattr = \<lparr>pa_robust = PTHREAD_MUTEX_STALLED, pa_pshared = PTHREAD_PROCESS_PRIVATE,
     pa_type = PTHREAD_MUTEX_NORMAL\<rparr>"

text \<open>The attributes \<^verbatim>\<open>PTHREAD_mutexattrInit\<close> chooses.\<close>

definition vgc_pattr :: pattr where
  "vgc_pattr = \<lparr>pa_robust = PTHREAD_MUTEX_ROBUST, pa_pshared = PTHREAD_PROCESS_SHARED,
     pa_type = PTHREAD_MUTEX_ERRORCHECK\<rparr>"

text \<open>
  \<open>t\<close> is the calling thread; \<open>None\<close> is a call that does not return: the mutex is held by
  another thread, or by the caller itself and the mutex does not check for that, or its
  owner died and the mutex is not robust, or it is not initialised.
\<close>

definition held_by :: "nat \<Rightarrow> nat \<Rightarrow> pmutex \<Rightarrow> (errno option \<times> pmutex) option" where
  "held_by t u m =
     (if u = t \<and> pa_type (pm_attr m) = PTHREAD_MUTEX_ERRORCHECK then Some (Some EDEADLK, m)
      else None)"

fun pthread_mutex_lock :: "nat \<Rightarrow> pmutex \<Rightarrow> (errno option \<times> pmutex) option" where
  "pthread_mutex_lock t m =
     (case pm_lock m of
        Uninit \<Rightarrow> None
      | Unlocked \<Rightarrow> Some (None, m\<lparr>pm_lock := Locked t\<rparr>)
      | Locked u \<Rightarrow> held_by t u m
      | Inconsistent u \<Rightarrow> held_by t u m
      | OwnerDied \<Rightarrow>
          if pa_robust (pm_attr m) = PTHREAD_MUTEX_ROBUST
          then Some (Some EOWNERDEAD, m\<lparr>pm_lock := Inconsistent t\<rparr>) else None
      | NotRecoverable \<Rightarrow> Some (Some ENOTRECOVERABLE, m))"

fun pthread_mutex_unlock :: "nat \<Rightarrow> pmutex \<Rightarrow> (errno option \<times> pmutex) option" where
  "pthread_mutex_unlock t m =
     (case pm_lock m of
        Uninit \<Rightarrow> None
      | Locked u \<Rightarrow>
          if u = t then Some (None, m\<lparr>pm_lock := Unlocked\<rparr>) else Some (Some EPERM, m)
      | Inconsistent u \<Rightarrow>
          if u = t then Some (None, m\<lparr>pm_lock := NotRecoverable\<rparr>) else Some (Some EPERM, m)
      | Unlocked \<Rightarrow> Some (Some EPERM, m)
      | OwnerDied \<Rightarrow> Some (Some EPERM, m)
      | NotRecoverable \<Rightarrow> Some (Some EPERM, m))"

fun pthread_mutex_consistent :: "nat \<Rightarrow> pmutex \<Rightarrow> (errno option \<times> pmutex) option" where
  "pthread_mutex_consistent t m =
     (case pm_lock m of
        Inconsistent u \<Rightarrow>
          if u = t then Some (None, m\<lparr>pm_lock := Locked t\<rparr>) else Some (Some EINVAL, m)
      | _ \<Rightarrow> Some (Some EINVAL, m))"

fun pthread_mutex_destroy :: "pmutex \<Rightarrow> (errno option \<times> pmutex) option" where
  "pthread_mutex_destroy m =
     (case pm_lock m of
        Uninit \<Rightarrow> Some (Some EINVAL, m)
      | Locked u \<Rightarrow> Some (Some EBUSY, m)
      | Inconsistent u \<Rightarrow> Some (Some EBUSY, m)
      | _ \<Rightarrow> Some (None, m\<lparr>pm_lock := Uninit\<rparr>))"

text \<open>A call on the mutex \<open>i\<close> of the state: it fails as the environment says, or takes effect.\<close>

definition mutex_call ::
    "env \<Rightarrow> (pmutex \<Rightarrow> (errno option \<times> pmutex) option) \<Rightarrow> mid \<Rightarrow> state
     \<Rightarrow> (errno option \<times> state) option" where
  "mutex_call E f i s =
     (case sys E s of
        (Some e, s) \<Rightarrow> Some (Some e, s)
      | (None, s) \<Rightarrow> do {
          (rc, m) \<leftarrow> f (mtx s i);
          Some (rc, s\<lparr>mtx := (mtx s)(i := m)\<rparr>) })"

section \<open>The mutex wrappers\<close>

text \<open>
  The shape every wrapper has: code 0 is success, the codes the \<^verbatim>\<open>switch\<close> names are reported
  by name, every other code as an unknown error.
\<close>

definition failed :: "pthread_call \<Rightarrow> errno list \<Rightarrow> errno \<Rightarrow> state \<Rightarrow> bool \<times> state" where
  "failed c known e s =
     (False, report ERROR_LEVEL (PthreadRep c (if e \<in> set known then Some e else None)) s)"

definition PTHREAD_mutexUnlock :: "env \<Rightarrow> mid \<Rightarrow> state \<Rightarrow> (bool \<times> state) option" where
  "PTHREAD_mutexUnlock E i s = do {
     (rc, s) \<leftarrow> mutex_call E (pthread_mutex_unlock (self s)) i s;
     Some (case rc of None \<Rightarrow> (True, s) | Some e \<Rightarrow> failed PC_mutex_unlock [EPERM] e s) }"

definition PTHREAD_mutexDestroy :: "env \<Rightarrow> mid \<Rightarrow> state \<Rightarrow> (bool \<times> state) option" where
  "PTHREAD_mutexDestroy E i s = do {
     (rc, s) \<leftarrow> mutex_call E pthread_mutex_destroy i s;
     Some (case rc of None \<Rightarrow> (True, s) | Some e \<Rightarrow> failed PC_mutex_destroy [EINVAL] e s) }"

definition PTHREAD_mutexConsistent :: "env \<Rightarrow> mid \<Rightarrow> state \<Rightarrow> (bool \<times> state) option" where
  "PTHREAD_mutexConsistent E i s = do {
     (rc, s) \<leftarrow> mutex_call E (pthread_mutex_consistent (self s)) i s;
     Some (case rc of None \<Rightarrow> (True, s) | Some e \<Rightarrow> failed PC_mutex_consistent [EINVAL] e s) }"

definition PTHREAD_mutexLock :: "env \<Rightarrow> mid \<Rightarrow> state \<Rightarrow> (bool \<times> state) option" where
  "PTHREAD_mutexLock E i s = do {
     (rc, s) \<leftarrow> mutex_call E (pthread_mutex_lock (self s)) i s;
     case rc of
       None \<Rightarrow> Some (True, s)
     | Some e \<Rightarrow>
         if e = EOWNERDEAD
         then PTHREAD_mutexConsistent E i
                (report ERROR_LEVEL (PthreadRep PC_mutex_lock (Some EOWNERDEAD)) s)
         else if e = ENOTRECOVERABLE
         then do {
           (destroyed, s) \<leftarrow> PTHREAD_mutexDestroy E i
             (report ERROR_LEVEL (PthreadRep PC_mutex_lock (Some ENOTRECOVERABLE)) s);
           Some (False, s) }
         else Some (failed PC_mutex_lock [EAGAIN, EDEADLK, ENOMEM] e s) }"

text \<open>\<^verbatim>\<open>memset\<close> clears the mutex first, so whatever it held is forgotten.\<close>

definition PTHREAD_mutexInit :: "env \<Rightarrow> mid \<Rightarrow> state \<Rightarrow> (bool \<times> state) option" where
  "PTHREAD_mutexInit E i s =
     (let s = s\<lparr>mtx := (mtx s)(i := (mtx s i)\<lparr>pm_lock := Uninit\<rparr>)\<rparr>
      in case sys E s of
           (Some e, s) \<Rightarrow> Some (failed PC_mutex_init [EBUSY, EINVAL, EFAULT] e s)
         | (None, s) \<Rightarrow>
             (case attrs s i of
                None \<Rightarrow> Some (failed PC_mutex_init [EBUSY, EINVAL, EFAULT] EINVAL s)
              | Some a \<Rightarrow>
                  Some (True, s\<lparr>mtx := (mtx s)(i := \<lparr>pm_attr = a, pm_lock = Unlocked\<rparr>)\<rparr>)))"

section \<open>The mutex attribute wrappers\<close>

text \<open>A setter on the attributes of mutex \<open>i\<close>; \<open>valid\<close> are the values POSIX admits.\<close>

definition attr_set ::
    "env \<Rightarrow> pthread_call \<Rightarrow> int list \<Rightarrow> (int \<Rightarrow> pattr \<Rightarrow> pattr) \<Rightarrow> mid \<Rightarrow> int \<Rightarrow> state
     \<Rightarrow> bool \<times> state" where
  "attr_set E c valid f i v s =
     (case sys E s of
        (Some e, s) \<Rightarrow> failed c [EINVAL] e s
      | (None, s) \<Rightarrow>
          (case attrs s i of
             None \<Rightarrow> failed c [EINVAL] EINVAL s
           | Some a \<Rightarrow>
               if v \<in> set valid then (True, s\<lparr>attrs := (attrs s)(i \<mapsto> f v a)\<rparr>)
               else failed c [EINVAL] EINVAL s))"

text \<open>A getter: the value it stores through its pointer is the second component.\<close>

definition attr_get ::
    "env \<Rightarrow> pthread_call \<Rightarrow> (pattr \<Rightarrow> int) \<Rightarrow> mid \<Rightarrow> state \<Rightarrow> bool \<times> int option \<times> state" where
  "attr_get E c f i s =
     (case sys E s of
        (Some e, s) \<Rightarrow> (case failed c [EINVAL] e s of (b, s) \<Rightarrow> (b, None, s))
      | (None, s) \<Rightarrow>
          (case attrs s i of
             None \<Rightarrow> (case failed c [EINVAL] EINVAL s of (b, s) \<Rightarrow> (b, None, s))
           | Some a \<Rightarrow> (True, Some (f a), s)))"

definition PTHREAD_mutexattrSetrobust :: "env \<Rightarrow> mid \<Rightarrow> int \<Rightarrow> state \<Rightarrow> bool \<times> state" where
  "PTHREAD_mutexattrSetrobust E i v s =
     attr_set E PC_mutexattr_setrobust [PTHREAD_MUTEX_STALLED, PTHREAD_MUTEX_ROBUST]
       (\<lambda>v a. a\<lparr>pa_robust := v\<rparr>) i v s"

definition PTHREAD_mutexattrGetrobust ::
    "env \<Rightarrow> mid \<Rightarrow> state \<Rightarrow> bool \<times> int option \<times> state" where
  "PTHREAD_mutexattrGetrobust E i s = attr_get E PC_mutexattr_getrobust pa_robust i s"

definition PTHREAD_mutexattrSetpshared :: "env \<Rightarrow> mid \<Rightarrow> int \<Rightarrow> state \<Rightarrow> bool \<times> state" where
  "PTHREAD_mutexattrSetpshared E i v s =
     attr_set E PC_mutexattr_setpshared [PTHREAD_PROCESS_PRIVATE, PTHREAD_PROCESS_SHARED]
       (\<lambda>v a. a\<lparr>pa_pshared := v\<rparr>) i v s"

definition PTHREAD_mutexattrGetpshared ::
    "env \<Rightarrow> mid \<Rightarrow> state \<Rightarrow> bool \<times> int option \<times> state" where
  "PTHREAD_mutexattrGetpshared E i s = attr_get E PC_mutexattr_getpshared pa_pshared i s"

definition PTHREAD_mutexattrSettype :: "env \<Rightarrow> mid \<Rightarrow> int \<Rightarrow> state \<Rightarrow> bool \<times> state" where
  "PTHREAD_mutexattrSettype E i v s =
     attr_set E PC_mutexattr_settype
       [PTHREAD_MUTEX_NORMAL, PTHREAD_MUTEX_RECURSIVE, PTHREAD_MUTEX_ERRORCHECK]
       (\<lambda>v a. a\<lparr>pa_type := v\<rparr>) i v s"

definition PTHREAD_mutexattrGettype ::
    "env \<Rightarrow> mid \<Rightarrow> state \<Rightarrow> bool \<times> int option \<times> state" where
  "PTHREAD_mutexattrGettype E i s = attr_get E PC_mutexattr_gettype pa_type i s"

definition PTHREAD_mutexattrInit :: "env \<Rightarrow> mid \<Rightarrow> state \<Rightarrow> bool \<times> state" where
  "PTHREAD_mutexattrInit E i s =
     (case sys E s of
        (Some e, s) \<Rightarrow> failed PC_mutexattr_init [ENOMEM] e s
      | (None, s) \<Rightarrow>
          (case PTHREAD_mutexattrSetrobust E i PTHREAD_MUTEX_ROBUST
                  (s\<lparr>attrs := (attrs s)(i \<mapsto> default_pattr)\<rparr>) of
             (False, s) \<Rightarrow> (False, s)
           | (True, s) \<Rightarrow>
               (case PTHREAD_mutexattrSetpshared E i PTHREAD_PROCESS_SHARED s of
                  (False, s) \<Rightarrow> (False, s)
                | (True, s) \<Rightarrow> PTHREAD_mutexattrSettype E i PTHREAD_MUTEX_ERRORCHECK s)))"

definition PTHREAD_mutexattrDestroy :: "env \<Rightarrow> mid \<Rightarrow> state \<Rightarrow> bool \<times> state" where
  "PTHREAD_mutexattrDestroy E i s =
     (case sys E s of
        (Some e, s) \<Rightarrow> failed PC_mutexattr_destroy [EINVAL] e s
      | (None, s) \<Rightarrow>
          (case attrs s i of
             None \<Rightarrow> failed PC_mutexattr_destroy [EINVAL] EINVAL s
           | Some a \<Rightarrow> (True, s\<lparr>attrs := (attrs s)(i := None)\<rparr>)))"

section \<open>The wrappers of rwlocks, their attributes and threads\<close>

text \<open>
  The objects these calls work on are not part of the state, so a call is its result code, and the
  \<^verbatim>\<open>switch\<close> of each wrapper is written out case by case: \<open>known_code\<close> is a case that prints the name of the
  code and returns false, \<open>other_code\<close> the default. \<^verbatim>\<open>PTHREAD_rwlockattrInit\<close> goes on to share the
  lock between processes.
\<close>

definition known_code :: "pthread_call \<Rightarrow> errno \<Rightarrow> state \<Rightarrow> bool \<times> state" where
  "known_code c e s = (False, report ERROR_LEVEL (PthreadRep c (Some e)) s)"

definition other_code :: "pthread_call \<Rightarrow> state \<Rightarrow> bool \<times> state" where
  "other_code c s = (False, report ERROR_LEVEL (PthreadRep c None) s)"

definition PTHREAD_rwlockInit :: "env \<Rightarrow> state \<Rightarrow> bool \<times> state" where
  "PTHREAD_rwlockInit E s =
     (case sys E s of
        (None, s) \<Rightarrow> (True, s)
      | (Some e, s) \<Rightarrow>
          if e = EAGAIN then known_code PC_rwlock_init EAGAIN s
          else if e = ENOMEM then known_code PC_rwlock_init ENOMEM s
          else if e = EPERM then known_code PC_rwlock_init EPERM s
          else if e = EBUSY then known_code PC_rwlock_init EBUSY s
          else if e = EINVAL then known_code PC_rwlock_init EINVAL s
          else other_code PC_rwlock_init s)"

definition PTHREAD_rwlockDestroy :: "env \<Rightarrow> state \<Rightarrow> bool \<times> state" where
  "PTHREAD_rwlockDestroy E s =
     (case sys E s of
        (None, s) \<Rightarrow> (True, s)
      | (Some e, s) \<Rightarrow>
          if e = EBUSY then known_code PC_rwlock_destroy EBUSY s
          else if e = EINVAL then known_code PC_rwlock_destroy EINVAL s
          else other_code PC_rwlock_destroy s)"

definition PTHREAD_rwlockRdLock :: "env \<Rightarrow> state \<Rightarrow> bool \<times> state" where
  "PTHREAD_rwlockRdLock E s =
     (case sys E s of
        (None, s) \<Rightarrow> (True, s)
      | (Some e, s) \<Rightarrow>
          if e = EINVAL then known_code PC_rwlock_rdlock EINVAL s
          else if e = EAGAIN then known_code PC_rwlock_rdlock EAGAIN s
          else if e = EDEADLK then known_code PC_rwlock_rdlock EDEADLK s
          else other_code PC_rwlock_rdlock s)"

definition PTHREAD_rwlockTryRdLock :: "env \<Rightarrow> state \<Rightarrow> bool \<times> state" where
  "PTHREAD_rwlockTryRdLock E s =
     (case sys E s of
        (None, s) \<Rightarrow> (True, s)
      | (Some e, s) \<Rightarrow>
          if e = EBUSY then known_code PC_rwlock_tryrdlock EBUSY s
          else if e = EINVAL then known_code PC_rwlock_tryrdlock EINVAL s
          else if e = EAGAIN then known_code PC_rwlock_tryrdlock EAGAIN s
          else other_code PC_rwlock_tryrdlock s)"

definition PTHREAD_rwlockWrLock :: "env \<Rightarrow> state \<Rightarrow> bool \<times> state" where
  "PTHREAD_rwlockWrLock E s =
     (case sys E s of
        (None, s) \<Rightarrow> (True, s)
      | (Some e, s) \<Rightarrow>
          if e = EINVAL then known_code PC_rwlock_wrlock EINVAL s
          else if e = EDEADLK then known_code PC_rwlock_wrlock EDEADLK s
          else other_code PC_rwlock_wrlock s)"

definition PTHREAD_rwlockTryWrLock :: "env \<Rightarrow> state \<Rightarrow> bool \<times> state" where
  "PTHREAD_rwlockTryWrLock E s =
     (case sys E s of
        (None, s) \<Rightarrow> (True, s)
      | (Some e, s) \<Rightarrow>
          if e = EBUSY then known_code PC_rwlock_trywrlock EBUSY s
          else if e = EINVAL then known_code PC_rwlock_trywrlock EINVAL s
          else other_code PC_rwlock_trywrlock s)"

definition PTHREAD_rwlockTimedRdLock :: "env \<Rightarrow> state \<Rightarrow> bool \<times> state" where
  "PTHREAD_rwlockTimedRdLock E s =
     (case sys E s of
        (None, s) \<Rightarrow> (True, s)
      | (Some e, s) \<Rightarrow>
          if e = ETIMEDOUT then known_code PC_rwlock_timedrdlock ETIMEDOUT s
          else if e = EAGAIN then known_code PC_rwlock_timedrdlock EAGAIN s
          else if e = EDEADLK then known_code PC_rwlock_timedrdlock EDEADLK s
          else if e = EINVAL then known_code PC_rwlock_timedrdlock EINVAL s
          else other_code PC_rwlock_timedrdlock s)"

definition PTHREAD_rwlockTimedWrLock :: "env \<Rightarrow> state \<Rightarrow> bool \<times> state" where
  "PTHREAD_rwlockTimedWrLock E s =
     (case sys E s of
        (None, s) \<Rightarrow> (True, s)
      | (Some e, s) \<Rightarrow>
          if e = ETIMEDOUT then known_code PC_rwlock_timedwrlock ETIMEDOUT s
          else if e = EDEADLK then known_code PC_rwlock_timedwrlock EDEADLK s
          else if e = EINVAL then known_code PC_rwlock_timedwrlock EINVAL s
          else other_code PC_rwlock_timedwrlock s)"

definition PTHREAD_rwlockUnlock :: "env \<Rightarrow> state \<Rightarrow> bool \<times> state" where
  "PTHREAD_rwlockUnlock E s =
     (case sys E s of
        (None, s) \<Rightarrow> (True, s)
      | (Some e, s) \<Rightarrow>
          if e = EINVAL then known_code PC_rwlock_unlock EINVAL s
          else if e = EPERM then known_code PC_rwlock_unlock EPERM s
          else other_code PC_rwlock_unlock s)"

definition PTHREAD_rwlockattrDestroy :: "env \<Rightarrow> state \<Rightarrow> bool \<times> state" where
  "PTHREAD_rwlockattrDestroy E s =
     (case sys E s of
        (None, s) \<Rightarrow> (True, s)
      | (Some e, s) \<Rightarrow>
          if e = EINVAL then known_code PC_rwlockattr_destroy EINVAL s
          else other_code PC_rwlockattr_destroy s)"

definition PTHREAD_rwlockattrSetpshared :: "env \<Rightarrow> state \<Rightarrow> bool \<times> state" where
  "PTHREAD_rwlockattrSetpshared E s =
     (case sys E s of
        (None, s) \<Rightarrow> (True, s)
      | (Some e, s) \<Rightarrow>
          if e = EINVAL then known_code PC_rwlockattr_setpshared EINVAL s
          else other_code PC_rwlockattr_setpshared s)"

definition PTHREAD_rwlockattrInit :: "env \<Rightarrow> state \<Rightarrow> bool \<times> state" where
  "PTHREAD_rwlockattrInit E s =
     (case sys E s of
        (None, s) \<Rightarrow> PTHREAD_rwlockattrSetpshared E s
      | (Some e, s) \<Rightarrow>
          if e = ENOMEM then known_code PC_rwlockattr_init ENOMEM s
          else other_code PC_rwlockattr_init s)"

definition PTHREAD_rwlockattrGetpshared :: "env \<Rightarrow> state \<Rightarrow> bool \<times> state" where
  "PTHREAD_rwlockattrGetpshared E s =
     (case sys E s of
        (None, s) \<Rightarrow> (True, s)
      | (Some e, s) \<Rightarrow>
          if e = EINVAL then known_code PC_rwlockattr_getpshared EINVAL s
          else other_code PC_rwlockattr_getpshared s)"

definition PTHREAD_create :: "env \<Rightarrow> state \<Rightarrow> bool \<times> state" where
  "PTHREAD_create E s =
     (case sys E s of
        (None, s) \<Rightarrow> (True, s)
      | (Some e, s) \<Rightarrow>
          if e = EAGAIN then known_code PC_create EAGAIN s
          else if e = EINVAL then known_code PC_create EINVAL s
          else if e = EPERM then known_code PC_create EPERM s
          else other_code PC_create s)"

definition PTHREAD_kill :: "env \<Rightarrow> state \<Rightarrow> bool \<times> state" where
  "PTHREAD_kill E s =
     (case sys E s of
        (None, s) \<Rightarrow> (True, s)
      | (Some e, s) \<Rightarrow>
          if e = ESRCH then known_code PC_kill ESRCH s
          else if e = EINVAL then known_code PC_kill EINVAL s
          else other_code PC_kill s)"

definition PTHREAD_join :: "env \<Rightarrow> state \<Rightarrow> bool \<times> state" where
  "PTHREAD_join E s =
     (case sys E s of
        (None, s) \<Rightarrow> (True, s)
      | (Some e, s) \<Rightarrow>
          if e = EDEADLK then known_code PC_join EDEADLK s
          else if e = EINVAL then known_code PC_join EINVAL s
          else if e = ESRCH then known_code PC_join ESRCH s
          else other_code PC_join s)"

definition PTHREAD_detach :: "env \<Rightarrow> state \<Rightarrow> bool \<times> state" where
  "PTHREAD_detach E s =
     (case sys E s of
        (None, s) \<Rightarrow> (True, s)
      | (Some e, s) \<Rightarrow>
          if e = EINVAL then known_code PC_detach EINVAL s
          else if e = ESRCH then known_code PC_detach ESRCH s
          else other_code PC_detach s)"

definition PTHREAD_cancel :: "env \<Rightarrow> state \<Rightarrow> bool \<times> state" where
  "PTHREAD_cancel E s =
     (case sys E s of
        (None, s) \<Rightarrow> (True, s)
      | (Some e, s) \<Rightarrow>
          if e = ESRCH then known_code PC_cancel ESRCH s
          else other_code PC_cancel s)"

definition PTHREAD_self :: "state \<Rightarrow> nat" where
  "PTHREAD_self s = self s"

text \<open>
  The same as a table: the call of each wrapper and the codes that are told apart. A wrapper should report
  those by their names and every other as unknown.
\<close>

definition wrapper_codes :: "((env \<Rightarrow> state \<Rightarrow> bool \<times> state) \<times> pthread_call \<times> errno list) list" where
  "wrapper_codes =
    [(PTHREAD_rwlockInit, PC_rwlock_init, [EAGAIN, ENOMEM, EPERM, EBUSY, EINVAL]),
     (PTHREAD_rwlockDestroy, PC_rwlock_destroy, [EBUSY, EINVAL]),
     (PTHREAD_rwlockRdLock, PC_rwlock_rdlock, [EINVAL, EAGAIN, EDEADLK]),
     (PTHREAD_rwlockTryRdLock, PC_rwlock_tryrdlock, [EBUSY, EINVAL, EAGAIN]),
     (PTHREAD_rwlockWrLock, PC_rwlock_wrlock, [EINVAL, EDEADLK]),
     (PTHREAD_rwlockTryWrLock, PC_rwlock_trywrlock, [EBUSY, EINVAL]),
     (PTHREAD_rwlockTimedRdLock, PC_rwlock_timedrdlock, [ETIMEDOUT, EAGAIN, EDEADLK, EINVAL]),
     (PTHREAD_rwlockTimedWrLock, PC_rwlock_timedwrlock, [ETIMEDOUT, EDEADLK, EINVAL]),
     (PTHREAD_rwlockUnlock, PC_rwlock_unlock, [EINVAL, EPERM]),
     (PTHREAD_rwlockattrDestroy, PC_rwlockattr_destroy, [EINVAL]),
     (PTHREAD_rwlockattrSetpshared, PC_rwlockattr_setpshared, [EINVAL]),
     (PTHREAD_rwlockattrGetpshared, PC_rwlockattr_getpshared, [EINVAL]),
     (PTHREAD_create, PC_create, [EAGAIN, EINVAL, EPERM]),
     (PTHREAD_kill, PC_kill, [ESRCH, EINVAL]),
     (PTHREAD_join, PC_join, [EDEADLK, EINVAL, ESRCH]),
     (PTHREAD_detach, PC_detach, [EINVAL, ESRCH]),
     (PTHREAD_cancel, PC_cancel, [ESRCH])]"

text \<open>The call of a function that may fail, with what is reported for the code \<open>e\<close>.\<close>

definition reported :: "env \<Rightarrow> (errno \<Rightarrow> report) \<Rightarrow> state \<Rightarrow> bool \<times> state" where
  "reported E r s =
     (case sys E s of (None, s) \<Rightarrow> (True, s) | (Some e, s) \<Rightarrow> (False, report ERROR_LEVEL (r e) s))"

definition pthread_report :: "pthread_call \<Rightarrow> errno list \<Rightarrow> errno \<Rightarrow> report" where
  "pthread_report c known e = PthreadRep c (if e \<in> set known then Some e else None)"

lemma wrapper_codes_reported:
  assumes "(w, c, known) \<in> set wrapper_codes"
  shows "w E s = reported E (pthread_report c known) s"
  using assms unfolding wrapper_codes_def set_simps insert_iff empty_iff prod.inject simp_thms
  by (elim disjE conjE; simp only:)
    (simp_all add: PTHREAD_rwlockInit_def PTHREAD_rwlockDestroy_def PTHREAD_rwlockRdLock_def PTHREAD_rwlockTryRdLock_def PTHREAD_rwlockWrLock_def PTHREAD_rwlockTryWrLock_def PTHREAD_rwlockTimedRdLock_def PTHREAD_rwlockTimedWrLock_def PTHREAD_rwlockUnlock_def PTHREAD_rwlockattrDestroy_def PTHREAD_rwlockattrSetpshared_def PTHREAD_rwlockattrGetpshared_def PTHREAD_create_def PTHREAD_kill_def PTHREAD_join_def PTHREAD_detach_def PTHREAD_cancel_def
      reported_def pthread_report_def known_code_def other_code_def split: option.splits prod.splits)

lemma wrapper_reported:
  "PTHREAD_rwlockRdLock E s = reported E (pthread_report PC_rwlock_rdlock [EINVAL, EAGAIN, EDEADLK]) s"
  "PTHREAD_rwlockUnlock E s = reported E (pthread_report PC_rwlock_unlock [EINVAL, EPERM]) s"
  "PTHREAD_create E s = reported E (pthread_report PC_create [EAGAIN, EINVAL, EPERM]) s"
  "PTHREAD_join E s = reported E (pthread_report PC_join [EDEADLK, EINVAL, ESRCH]) s"
  "PTHREAD_cancel E s = reported E (pthread_report PC_cancel [ESRCH]) s"
  by (rule wrapper_codes_reported, simp add: wrapper_codes_def)+

lemma reported_ok: "reliable E \<Longrightarrow> reported E r s = (True, s\<lparr>ticks := Suc (ticks s)\<rparr>)"
  by (simp add: reported_def sys_reliable)

section \<open>What the wrappers leave alone\<close>

text \<open>No wrapper touches the heap, the identity of the thread or the message level.\<close>

definition same_core :: "state \<Rightarrow> state \<Rightarrow> bool" where
  "same_core s s' \<longleftrightarrow> hp s' = hp s \<and> self s' = self s \<and> messageLevel s' = messageLevel s"

lemma same_core_refl [simp]: "same_core s s"
  by (simp add: same_core_def)

lemma same_core_trans [trans]: "same_core s t \<Longrightarrow> same_core t u \<Longrightarrow> same_core s u"
  by (simp add: same_core_def)

lemma same_core_report [simp]: "same_core s (report l r t) = same_core s t"
  by (simp add: same_core_def)

lemma reported_result:
  "reported E r s = (b, s') \<Longrightarrow> b = (env_fail E (ticks s) = None) \<and> same_core s s' \<and>
     s' = (case env_fail E (ticks s) of None \<Rightarrow> s\<lparr>ticks := Suc (ticks s)\<rparr>
           | Some e \<Rightarrow> report ERROR_LEVEL (r e) (s\<lparr>ticks := Suc (ticks s)\<rparr>))"
  by (auto simp: reported_def sys_def same_core_def split: option.splits)

lemma failed_core: "failed c k e s = (b, s') \<Longrightarrow> same_core s s'"
  by (auto simp: failed_def)

lemma failed_False: "failed c k e s = (b, s') \<Longrightarrow> \<not> b"
  by (auto simp: failed_def)

lemma sys_core: "sys E s = (e, s') \<Longrightarrow> same_core s s'"
  by (auto simp: sys_def same_core_def)

lemma mutex_call_core: "mutex_call E f i s = Some (rc, s') \<Longrightarrow> same_core s s'"
  by (auto simp: mutex_call_def sys_def same_core_def Let_def
        split: option.splits Option.bind_splits)

lemma PTHREAD_mutexUnlock_core:
  "PTHREAD_mutexUnlock E i s = Some (b, s') \<Longrightarrow> same_core s s'"
  by (auto simp: PTHREAD_mutexUnlock_def failed_def dest!: mutex_call_core
        split: option.splits Option.bind_splits prod.splits)

lemma PTHREAD_mutexDestroy_core:
  "PTHREAD_mutexDestroy E i s = Some (b, s') \<Longrightarrow> same_core s s'"
  by (auto simp: PTHREAD_mutexDestroy_def failed_def dest!: mutex_call_core
        split: option.splits Option.bind_splits prod.splits)

lemma PTHREAD_mutexConsistent_core:
  "PTHREAD_mutexConsistent E i s = Some (b, s') \<Longrightarrow> same_core s s'"
  by (auto simp: PTHREAD_mutexConsistent_def failed_def dest!: mutex_call_core
        split: option.splits Option.bind_splits prod.splits)

lemma PTHREAD_mutexLock_core:
  "PTHREAD_mutexLock E i s = Some (b, s') \<Longrightarrow> same_core s s'"
  by (auto simp: PTHREAD_mutexLock_def failed_def same_core_def
        dest!: mutex_call_core PTHREAD_mutexConsistent_core PTHREAD_mutexDestroy_core
        split: option.splits Option.bind_splits prod.splits if_splits)

lemma PTHREAD_mutexInit_core:
  "PTHREAD_mutexInit E i s = Some (b, s') \<Longrightarrow> same_core s s'"
  by (auto simp: PTHREAD_mutexInit_def failed_def same_core_def sys_def Let_def
        split: option.splits)

lemma attr_set_core: "attr_set E c vs f i v s = (b, s') \<Longrightarrow> same_core s s'"
  by (auto simp: attr_set_def failed_def same_core_def sys_def split: option.splits if_splits)

lemma PTHREAD_mutexattrInit_core:
  "PTHREAD_mutexattrInit E i s = (b, s') \<Longrightarrow> same_core s s'"
  by (auto simp: PTHREAD_mutexattrInit_def PTHREAD_mutexattrSetrobust_def
        PTHREAD_mutexattrSetpshared_def PTHREAD_mutexattrSettype_def failed_def sys_def
        same_core_def
        dest!: attr_set_core split: option.splits prod.splits bool.splits)

lemma PTHREAD_mutexattrDestroy_core:
  "PTHREAD_mutexattrDestroy E i s = (b, s') \<Longrightarrow> same_core s s'"
  by (auto simp: PTHREAD_mutexattrDestroy_def failed_def sys_def same_core_def
        split: option.splits)

lemmas pthread_core = PTHREAD_mutexLock_core PTHREAD_mutexUnlock_core PTHREAD_mutexInit_core
  PTHREAD_mutexDestroy_core PTHREAD_mutexConsistent_core PTHREAD_mutexattrInit_core
  PTHREAD_mutexattrDestroy_core

section \<open>What the wrappers do when no call fails\<close>

lemma mutex_call_reliable [vgc_ok]:
  assumes "reliable E" and "f (mtx s i) = Some (rc, m)"
  shows "mutex_call E f i s = Some (rc, s\<lparr>ticks := Suc (ticks s), mtx := (mtx s)(i := m)\<rparr>)"
  using assms by (simp add: mutex_call_def sys_reliable)

lemma PTHREAD_mutexLock_free [vgc_ok]:
  assumes "reliable E" and "pm_lock (mtx s i) = Unlocked"
  shows "PTHREAD_mutexLock E i s = Some (True, s\<lparr>ticks := Suc (ticks s),
           mtx := (mtx s)(i := (mtx s i)\<lparr>pm_lock := Locked (self s)\<rparr>)\<rparr>)"
  using assms by (simp add: PTHREAD_mutexLock_def mutex_call_def sys_reliable)

lemma PTHREAD_mutexUnlock_held [vgc_ok]:
  assumes "reliable E" and "pm_lock (mtx s i) = Locked (self s)"
  shows "PTHREAD_mutexUnlock E i s = Some (True, s\<lparr>ticks := Suc (ticks s),
           mtx := (mtx s)(i := (mtx s i)\<lparr>pm_lock := Unlocked\<rparr>)\<rparr>)"
  using assms by (simp add: PTHREAD_mutexUnlock_def mutex_call_def sys_reliable)

lemma PTHREAD_mutexDestroy_free [vgc_ok]:
  assumes "reliable E" and "pm_lock (mtx s i) = Unlocked"
  shows "PTHREAD_mutexDestroy E i s = Some (True, s\<lparr>ticks := Suc (ticks s),
           mtx := (mtx s)(i := (mtx s i)\<lparr>pm_lock := Uninit\<rparr>)\<rparr>)"
  using assms by (simp add: PTHREAD_mutexDestroy_def mutex_call_def sys_reliable)

lemma PTHREAD_mutexattrInit_ok [vgc_ok]:
  assumes "reliable E"
  shows "PTHREAD_mutexattrInit E i s =
    (True, s\<lparr>attrs := (attrs s)(i \<mapsto> vgc_pattr), ticks := ticks s + 4\<rparr>)"
  using assms
  by (simp add: PTHREAD_mutexattrInit_def PTHREAD_mutexattrSetrobust_def attr_set_def
        PTHREAD_mutexattrSetpshared_def PTHREAD_mutexattrSettype_def sys_reliable
        default_pattr_def vgc_pattr_def)

lemma PTHREAD_mutexInit_ok [vgc_ok]:
  assumes "reliable E" and "attrs s i = Some a"
  shows "PTHREAD_mutexInit E i s = Some (True, s\<lparr>ticks := Suc (ticks s),
           mtx := (mtx s)(i := \<lparr>pm_attr = a, pm_lock = Unlocked\<rparr>)\<rparr>)"
  using assms by (simp add: PTHREAD_mutexInit_def sys_reliable)

end
