(* ===== verification/OS.thy ===== *)
theory OS
  imports VGC_State
begin

text \<open>
  The system calls the library makes on memory: \<^verbatim>\<open>mmap\<close>, \<^verbatim>\<open>munmap\<close> and \<^verbatim>\<open>mprotect\<close>, with the
  documented effect on the mapped regions and the page protections, and \<^verbatim>\<open>mmap_ok\<close>, what the
  library may rely on about the addresses \<^verbatim>\<open>mmap\<close> chooses.
\<close>

section \<open>Regions\<close>

definition in_range :: "addr \<Rightarrow> size_t \<Rightarrow> addr \<Rightarrow> bool" where
  "in_range a n x \<longleftrightarrow> unat a \<le> unat x \<and> unat x < unat a + unat n"

definition disjoint_regions :: "addr \<times> size_t \<Rightarrow> addr \<times> size_t \<Rightarrow> bool" where
  "disjoint_regions r q \<longleftrightarrow>
     unat (fst r) + unat (snd r) \<le> unat (fst q) \<or> unat (fst q) + unat (snd q) \<le> unat (fst r)"

definition clear_range :: "addr \<Rightarrow> size_t \<Rightarrow> heap \<Rightarrow> heap" where
  "clear_range a n h = h\<lparr>
     mmapH := (\<lambda>x. if in_range a n x then None else mmapH h x),
     mallocH := (\<lambda>x. if in_range a n x then None else mallocH h x),
     bytes := (\<lambda>x. if in_range a n x then 0 else bytes h x),
     prot := (\<lambda>x. if in_range a n x then False else prot h x)\<rparr>"

section \<open>mmap\<close>

text \<open>
  Anonymous shared memory of \<open>n\<close> bytes, readable, writable and filled with zeros. The
  mutexes of the fresh page are not initialised.
\<close>

definition mmap :: "env \<Rightarrow> size_t \<Rightarrow> state \<Rightarrow> addr \<times> state" where
  "mmap E n s =
     (let a = env_mmap E (ticks s) (maps (hp s)) n; s = s\<lparr>ticks := Suc (ticks s)\<rparr>
      in if a = MAP_FAILED then (MAP_FAILED, s)
         else (a, s\<lparr>hp := (clear_range a n (hp s))\<lparr>maps := (a, n) # maps (hp s)\<rparr>,
                    mtx := (\<lambda>i. case i of MShared \<Rightarrow> mtx s MShared
                                | MBlock x \<Rightarrow> if in_range a n x then (mtx s i)\<lparr>pm_lock := Uninit\<rparr> else mtx s i)\<rparr>))"

text \<open>
  The hypothesis on \<^verbatim>\<open>mmap\<close>: a region it returns is page aligned, lies in the user half of the
  address space, does not hold address 0 and overlaps no region that is mapped already.
\<close>

definition mmap_ok :: "env \<Rightarrow> bool" where
  "mmap_ok E \<longleftrightarrow> (\<forall>k ms n a. env_mmap E k ms n = a \<and> a \<noteq> MAP_FAILED \<longrightarrow>
     a \<noteq> 0 \<and> 4096 dvd unat a \<and> unat a + unat n \<le> 2 ^ 47 \<and>
     (\<forall>r \<in> set ms. disjoint_regions (a, n) r))"

section \<open>munmap\<close>

text \<open>
  \<open>False\<close> is the return value \<open>-1\<close>. An empty range is refused with \<open>EINVAL\<close>. The library
  unmaps whole regions only; the objects in the range are gone afterwards.
\<close>

definition munmap :: "env \<Rightarrow> addr \<Rightarrow> size_t \<Rightarrow> state \<Rightarrow> errno option \<times> state" where
  "munmap E a n s =
     (case sys E s of
        (Some e, s) \<Rightarrow> (Some e, s)
      | (None, s) \<Rightarrow>
          if n = 0 then (Some EINVAL, s)
          else (None, s\<lparr>hp := (clear_range a n (hp s))\<lparr>maps :=
                          filter (\<lambda>r. \<not> (unat a \<le> unat (fst r) \<and>
                             unat (fst r) + unat (snd r) \<le> unat a + unat n)) (maps (hp s))\<rparr>\<rparr>))"

section \<open>mprotect\<close>

text \<open>
  \<open>none\<close> says that the new protection is \<^verbatim>\<open>PROT_NONE\<close>; the other value the library uses is
  \<^verbatim>\<open>PROT_READ | PROT_WRITE\<close>. The address must be page aligned and the pages mapped.
\<close>

definition mprotect :: "env \<Rightarrow> addr \<Rightarrow> size_t \<Rightarrow> bool \<Rightarrow> state \<Rightarrow> errno option \<times> state" where
  "mprotect E a n none s =
     (case sys E s of
        (Some e, s) \<Rightarrow> (Some e, s)
      | (None, s) \<Rightarrow>
          if a mod 4096 \<noteq> 0 then (Some EINVAL, s)
          else if \<not> mapped a (unat n) s then (Some ENOMEM, s)
          else (None, s\<lparr>hp := (hp s)\<lparr>prot :=
                  (\<lambda>x. if in_range a n x then none else prot (hp s) x)\<rparr>\<rparr>))"

section \<open>Lemmas\<close>

lemma clear_range_sel [simp]:
  "shared (clear_range a n h) = shared h" "maps (clear_range a n h) = maps h"
  by (simp_all add: clear_range_def)

lemma disjoint_regions_sym: "disjoint_regions r q \<Longrightarrow> disjoint_regions q r"
  by (auto simp: disjoint_regions_def)

lemma mprotect_frame:
  assumes "mprotect E a n v s = (e, s')"
  shows "shared (hp s') = shared (hp s)" "mmapH (hp s') = mmapH (hp s)"
    "mallocH (hp s') = mallocH (hp s)" "bytes (hp s') = bytes (hp s)"
    "maps (hp s') = maps (hp s)" "mtx s' = mtx s" "attrs s' = attrs s" "self s' = self s"
    "messageLevel s' = messageLevel s"
  using assms
  by (auto simp: mprotect_def sys_def split: option.splits if_splits)

end
