(* ===== verification/Mprotect.thy ===== *)
theory Mprotect
  imports OS
begin

text \<open>
  \<^verbatim>\<open>src/vgc_mprotect.c\<close>: taking the access rights of a guard page away and giving them back.
  The guard page of a malloc header is its first page (the field \<open>protect\<close>, at offset 0).
\<close>

definition do_mprotect :: "env \<Rightarrow> addr \<Rightarrow> size_t \<Rightarrow> bool \<Rightarrow> state \<Rightarrow> bool \<times> state" where
  "do_mprotect E a len none s =
     (case mprotect E a len none s of
        (None, s) \<Rightarrow> (True, s)
      | (Some e, s) \<Rightarrow>
          (False, report ERROR_LEVEL (MprotectRep (e \<in> set [EACCES, EINVAL, ENOMEM]) none e) s))"

definition VGC_mprotect :: "env \<Rightarrow> addr \<Rightarrow> state \<Rightarrow> bool \<times> state" where
  "VGC_mprotect E header s =
     (case do_mprotect E header (sh_pageSize (shared (hp s))) True s of
        (False, s) \<Rightarrow> (False, s)
      | (True, s) \<Rightarrow> (True, s))"

definition VGC_munprotect :: "env \<Rightarrow> addr \<Rightarrow> state \<Rightarrow> bool \<times> state" where
  "VGC_munprotect E header s =
     (case do_mprotect E header (sh_pageSize (shared (hp s))) False s of
        (False, s) \<Rightarrow> (False, s)
      | (True, s) \<Rightarrow> (True, s))"

text \<open>
  Whether they succeed or not, both leave everything but the page rights, the call counter
  and the messages alone.
\<close>

definition same_objects :: "state \<Rightarrow> state \<Rightarrow> bool" where
  "same_objects s s' \<longleftrightarrow>
     shared (hp s') = shared (hp s) \<and> mmapH (hp s') = mmapH (hp s) \<and>
     mallocH (hp s') = mallocH (hp s) \<and> bytes (hp s') = bytes (hp s) \<and>
     maps (hp s') = maps (hp s) \<and> mtx s' = mtx s \<and> attrs s' = attrs s \<and>
     self s' = self s \<and> messageLevel s' = messageLevel s"

lemma same_objects_refl [simp]: "same_objects s s"
  by (simp add: same_objects_def)

lemma same_objects_trans [trans]:
  "same_objects s t \<Longrightarrow> same_objects t u \<Longrightarrow> same_objects s u"
  by (simp add: same_objects_def)

lemma do_mprotect_same: "do_mprotect E a n v s = (b, s') \<Longrightarrow> same_objects s s'"
  by (auto simp: do_mprotect_def same_objects_def dest: mprotect_frame
        split: prod.splits option.splits)

lemma VGC_mprotect_same: "VGC_mprotect E a s = (b, s') \<Longrightarrow> same_objects s s'"
  by (auto simp: VGC_mprotect_def split: prod.splits bool.splits dest: do_mprotect_same)

lemma VGC_munprotect_same: "VGC_munprotect E a s = (b, s') \<Longrightarrow> same_objects s s'"
  by (auto simp: VGC_munprotect_def split: prod.splits bool.splits dest: do_mprotect_same)

text \<open>The rights of a page that is mapped are set when the call does not fail.\<close>

definition set_prot :: "addr \<Rightarrow> bool \<Rightarrow> heap \<Rightarrow> heap" where
  "set_prot a v h = h\<lparr>prot := (\<lambda>x. if in_range a 4096 x then v else prot h x)\<rparr>"

lemma do_mprotect_ok:
  assumes "reliable E" and "4096 dvd unat a" and "mapped a (unat n) s" and "n = 4096"
  shows "do_mprotect E a n v s = (True, s\<lparr>ticks := Suc (ticks s), hp := set_prot a v (hp s)\<rparr>)"
proof -
  have "a mod 4096 = 0"
    using assms(2) by (simp add: word_eq_unat unat_mod_4096 mod_eq_0_iff_dvd)
  moreover have "mapped a (unat n) (s\<lparr>ticks := Suc (ticks s)\<rparr>)"
    using assms(3) by (simp add: mapped_def)
  ultimately show ?thesis
    using assms by (simp add: do_mprotect_def mprotect_def sys_reliable set_prot_def)
qed

lemma VGC_mprotect_ok:
  assumes "reliable E" and "4096 dvd unat a" and "mapped a 4096 s"
    and "sh_pageSize (shared (hp s)) = 4096"
  shows "VGC_mprotect E a s = (True, s\<lparr>ticks := Suc (ticks s), hp := set_prot a True (hp s)\<rparr>)"
  using assms by (simp add: VGC_mprotect_def do_mprotect_ok)

lemma VGC_munprotect_ok:
  assumes "reliable E" and "4096 dvd unat a" and "mapped a 4096 s"
    and "sh_pageSize (shared (hp s)) = 4096"
  shows "VGC_munprotect E a s = (True, s\<lparr>ticks := Suc (ticks s), hp := set_prot a False (hp s)\<rparr>)"
  using assms by (simp add: VGC_munprotect_def do_mprotect_ok)

end
