(* ===== verification/Blocks.thy ===== *)
theory Blocks
  imports Pthread Mprotect
begin

text \<open>
  The chain of malloc headers inside one mmap block, from \<^verbatim>\<open>src/vgc_malloc.c\<close>: the search for
  a free block, the consistency check, the dump, and the two unifications of free
  neighbours. Section 2 is the abstract view, a list of blocks, with the predicate that says
  a heap holds that list.
\<close>

section \<open>The code\<close>

definition firstMallocHeaderInMMAP :: "addr \<Rightarrow> addr" where
  "firstMallocHeaderInMMAP mmapBlock = mmapBlock + sizeof_mmapHeader"

text \<open>The loop over the headers in \<^verbatim>\<open>allocMallocBlock\<close>; the result 0 is the null pointer.\<close>

partial_function (option) findFree :: "heap \<Rightarrow> size_t \<Rightarrow> addr \<Rightarrow> addr option" where
  "findFree h len mallocBlock =
     (if mallocBlock = 0 then Some 0
      else do {
        b \<leftarrow> mallocH h mallocBlock;
        if mb_status b = VGC_MALLOC_FREE \<and> len \<le> mb_size b then Some mallocBlock
        else findFree h len (mb_next b) })"

text \<open>
  The loop of \<^verbatim>\<open>dumpMmapBlock\<close> (the variant that prints): the lines it prints and the sums
  \<open>(busySize, freeSize, headersSize)\<close>.
\<close>

definition user_ptr :: "addr \<Rightarrow> addr" where
  "user_ptr a = (if a = 0 then 0 else a + sizeof_mallocHeader)"

definition add_sums ::
    "VGC_mallocHeader \<Rightarrow> size_t \<times> size_t \<times> size_t \<Rightarrow> size_t \<times> size_t \<times> size_t" where
  "add_sums b t =
     (case t of (busy, free, hdrs) \<Rightarrow>
        if mb_status b = VGC_MALLOC_FREE
        then (busy, free + mb_size b, hdrs + sizeof_mallocHeader)
        else (busy + mb_size b, free, hdrs + sizeof_mallocHeader))"

definition vgc_stacktraceShow :: "env \<Rightarrow> VGC_mallocHeader \<Rightarrow> report list option" where
  "vgc_stacktraceShow E b =
     (if mb_btArray b = [] then Some []
      else case env_symbols E (mb_btArray b) of
        None \<Rightarrow> Some []
      | Some messages \<Rightarrow> map_option (map TraceLine)
          (stacktrace (env_addr2line E) (getProcessPath (env_link E)) (frames messages)))"

lemma vgc_stacktraceShow_some: "reliable E \<Longrightarrow> \<exists>t. vgc_stacktraceShow E b = Some t"
  using trace_some by (fastforce simp: vgc_stacktraceShow_def reliable_def split: option.splits)

lemma block_trace_some:
  assumes "reliable E"
  obtains t where "(if mb_status b = VGC_MALLOC_BUSY then vgc_stacktraceShow E b else Some []) = Some t"
  using vgc_stacktraceShow_some [OF assms, of b] by (cases "mb_status b") auto

partial_function (option) dumpLoop ::
    "env \<Rightarrow> heap \<Rightarrow> nat \<Rightarrow> addr \<Rightarrow> size_t \<times> size_t \<times> size_t \<Rightarrow> report list
     \<Rightarrow> (report list \<times> size_t \<times> size_t \<times> size_t) option" where
  "dumpLoop E h i mallocBlock sums out =
     (if mallocBlock = 0 then Some (out, sums)
      else do {
        b \<leftarrow> mallocH h mallocBlock;
        trace \<leftarrow> (if mb_status b = VGC_MALLOC_BUSY then vgc_stacktraceShow E b else Some []);
        dumpLoop E h (Suc i) (mb_next b) (add_sums b sums)
          (out @ DumpBlock i (mallocBlock + sizeof_mallocHeader) (user_ptr (mb_prev b))
                   (user_ptr (mb_next b)) (mb_status b) (mb_size b)
             # trace) })"

definition dumpMmapBlock :: "env \<Rightarrow> addr \<Rightarrow> state \<Rightarrow> state option" where
  "dumpMmapBlock E mmapBlock s =
     (if mmapBlock = 0 then Some s
      else do {
        (out, busySize, freeSize, headersSize) \<leftarrow>
          dumpLoop E (hp s) 0 (firstMallocHeaderInMMAP mmapBlock) (0, 0, 0) [DumpHead mmapBlock];
        let blockSize = sh_mmapBlockSize (shared (hp s));
        let maxSize = blockSize - sizeof_mmapHeader - headersSize;
        let totalSize = busySize + freeSize;
        Some (fold (report INFO_LEVEL)
          (out @ [DumpTotals blockSize busySize freeSize totalSize maxSize]) s) })"

text \<open>
  The loop of \<^verbatim>\<open>checkMmapBlock\<close>: \<open>Inl\<close> with the complaint that makes it return false, or
  \<open>Inr\<close> with the sums when the chain ends.
\<close>

partial_function (option) checkLoop ::
    "heap \<Rightarrow> addr \<Rightarrow> size_t \<Rightarrow> addr \<Rightarrow> size_t \<times> size_t \<times> size_t
     \<Rightarrow> (subject + size_t \<times> size_t \<times> size_t) option" where
  "checkLoop h mmapBlock maxSize mallocBlock sums =
     (if mallocBlock = 0 then Some (Inr sums)
      else do {
        b \<leftarrow> mallocH h mallocBlock;
        if maxSize < mb_size b then Some (Inl S_too_big_block)
        else if mallocBlock < mmapBlock \<or> mmapBlock + sh_mmapBlockSize (shared h) < mallocBlock
        then Some (Inl S_wrong_pointer)
        else if mb_next b = 0 then Some (Inr (add_sums b sums))
        else do {
          n \<leftarrow> mallocH h (mb_next b);
          if mallocBlock \<noteq> mb_prev n then Some (Inl S_overwrite)
          else checkLoop h mmapBlock maxSize (mb_next b) (add_sums b sums) } })"

definition checkMmapBlock :: "env \<Rightarrow> addr \<Rightarrow> state \<Rightarrow> (bool \<times> state) option" where
  "checkMmapBlock E mmapBlock s = do {
     mm \<leftarrow> get_mm mmapBlock s;
     r \<leftarrow> checkLoop (hp s) mmapBlock (mm_maxSize mm) (firstMallocHeaderInMMAP mmapBlock) (0, 0, 0);
     case r of
       Inl complaint \<Rightarrow> do {
         s \<leftarrow> dumpMmapBlock E mmapBlock (report ERROR_LEVEL (Rep F_checkMmapBlock complaint) s);
         Some (False, s) }
     | Inr (busySize, freeSize, headersSize) \<Rightarrow>
         (let maxSize = sh_mmapBlockSize (shared (hp s)) - sizeof_mmapHeader - headersSize;
              totalSize = busySize + freeSize
          in if maxSize \<noteq> totalSize
             then do {
               s \<leftarrow> dumpMmapBlock E mmapBlock (report ERROR_LEVEL (Rep F_checkMmapBlock S_inconsistent) s);
               Some (True, s) }
             else Some (True, s)) }"

partial_function (option) isInLoop :: "heap \<Rightarrow> addr \<Rightarrow> addr \<Rightarrow> bool option" where
  "isInLoop h ptr mmapBlock =
     (if mmapBlock = 0 then Some False
      else if mmapBlock < ptr \<and> ptr < mmapBlock + sh_mmapBlockSize (shared h) then Some True
      else do { mm \<leftarrow> mmapH h mmapBlock; isInLoop h ptr (mm_next mm) })"

definition isInMmapBlock :: "addr \<Rightarrow> state \<Rightarrow> bool option" where
  "isInMmapBlock ptr s = isInLoop (hp s) ptr (sh_mmapBlockFirst (shared (hp s)))"

text \<open>Unifying a block that was just freed with a free block after it, or before it.\<close>

definition freeBlocksNext :: "env \<Rightarrow> addr \<Rightarrow> state \<Rightarrow> state option" where
  "freeBlocksNext E mallocBlock s = do {
     b \<leftarrow> get_mb mallocBlock s;
     let nextBlock = mb_next b;
     if nextBlock = 0 then Some s
     else do {
       n \<leftarrow> get_mb nextBlock s;
       if mb_status n \<noteq> VGC_MALLOC_FREE then Some s
       else do {
         let s = snd (VGC_munprotect E nextBlock s);
         s \<leftarrow> upd_mb mallocBlock (\<lambda>b. b\<lparr>mb_size := mb_size b + (mb_size n + sizeof_mallocHeader)\<rparr>) s;
         s \<leftarrow> upd_mb mallocBlock (\<lambda>b. b\<lparr>mb_next := mb_next n\<rparr>) s;
         if mb_next n \<noteq> 0 then upd_mb (mb_next n) (\<lambda>b. b\<lparr>mb_prev := mallocBlock\<rparr>) s
         else Some s } } }"

definition freeBlocksPrev :: "env \<Rightarrow> addr \<Rightarrow> state \<Rightarrow> state option" where
  "freeBlocksPrev E mallocBlock s = do {
     b \<leftarrow> get_mb mallocBlock s;
     let prevBlock = mb_prev b;
     if prevBlock = 0 then Some s
     else do {
       p \<leftarrow> get_mb prevBlock s;
       if mb_status p \<noteq> VGC_MALLOC_FREE then Some s
       else do {
         let s = snd (VGC_munprotect E mallocBlock s);
         s \<leftarrow> upd_mb prevBlock (\<lambda>p. p\<lparr>mb_size := mb_size p + (mb_size b + sizeof_mallocHeader)\<rparr>) s;
         s \<leftarrow> upd_mb prevBlock (\<lambda>p. p\<lparr>mb_next := mb_next b\<rparr>) s;
         if mb_next b \<noteq> 0 then upd_mb (mb_next b) (\<lambda>n. n\<lparr>mb_prev := prevBlock\<rparr>) s
         else Some s } } }"

end
