(* ===== verification/Malloc.thy ===== *)
theory Malloc
  imports Blocks
begin

text \<open>
  The allocation path of \<^verbatim>\<open>src/vgc_malloc.c\<close>: \<^verbatim>\<open>allocMMAP\<close>, \<^verbatim>\<open>mmapBlockAllocate\<close>,
  \<^verbatim>\<open>allocMallocBlock\<close> and \<^verbatim>\<open>vgc_malloc\<close>, with \<^verbatim>\<open>vgc_stacktraceSave\<close> of
  \<^verbatim>\<open>src/vgc_stacktrace.c\<close>.
\<close>

section \<open>Shared pieces\<close>

text \<open>\<^verbatim>\<open>if (!PTHREAD_mutexUnlock(m)) vgc_message(...)\<close>\<close>

definition unlock_reporting :: "env \<Rightarrow> source_fn \<Rightarrow> mid \<Rightarrow> state \<Rightarrow> state option" where
  "unlock_reporting E fn i s = do {
     (ok, s) \<leftarrow> PTHREAD_mutexUnlock E i s;
     Some (if ok then s else report ERROR_LEVEL (Rep fn S_mutexUnlock) s) }"

text \<open>\<^verbatim>\<open>if (munmap(mmapBlock, mmapBlock->sz) == -1) vgc_message(...)\<close>\<close>

definition unmap_reporting :: "env \<Rightarrow> source_fn \<Rightarrow> addr \<Rightarrow> state \<Rightarrow> state option" where
  "unmap_reporting E fn mmapBlock s = do {
     mm \<leftarrow> get_mm mmapBlock s;
     Some (case munmap E mmapBlock (mm_size mm) s of
             (None, s) \<Rightarrow> s
           | (Some e, s) \<Rightarrow> report ERROR_LEVEL (RepErr fn S_munmap e) s) }"

text \<open>The header that a cast of the fresh region to an mmap header finds there.\<close>

definition cast_mm :: "addr \<Rightarrow> state \<Rightarrow> VGC_mmapHeader option" where
  "cast_mm a s =
     (if mapped a 4096 s
      then Some (case get_mm a s of None \<Rightarrow> zero_mmapHeader | Some h \<Rightarrow> h)
      else None)"

definition vgc_stacktraceSave :: "env \<Rightarrow> addr \<Rightarrow> state \<Rightarrow> state option" where
  "vgc_stacktraceSave E mallocBlock s =
     upd_mb mallocBlock
       (\<lambda>b. b\<lparr>mb_btArray := take VGC_MALLOC_STACKTRACE_SIZE (env_backtrace E (ticks s))\<rparr>)
       (s\<lparr>ticks := Suc (ticks s)\<rparr>)"

section \<open>A new mmap block\<close>

definition allocMMAP :: "env \<Rightarrow> size_t \<Rightarrow> addr \<Rightarrow> state \<Rightarrow> (addr \<times> state) option" where
  "allocMMAP E mmapBlockSize mmapLastBlock s0 =
     (let (mmapBlock, s) = mmap E mmapBlockSize s0 in
      if mmapBlock = MAP_FAILED
      then Some (MAP_FAILED, report ERROR_LEVEL (Rep F_allocMMAP S_mmap) s)
      else do {
        mm \<leftarrow> cast_mm mmapBlock s;
        let s = put_mm mmapBlock mm s;
        let (ok, s) = PTHREAD_mutexattrInit E (MBlock mmapBlock) s;
        if \<not> ok then do {
          s \<leftarrow> unmap_reporting E F_allocMMAP mmapBlock
                 (report ERROR_LEVEL (Rep F_allocMMAP S_mutexattrInit) s);
          Some (MAP_FAILED, s) }
        else do {
        (ok, s) \<leftarrow> PTHREAD_mutexInit E (MBlock mmapBlock) s;
        if \<not> ok then do {
          let (ok, s) = PTHREAD_mutexattrDestroy E (MBlock mmapBlock)
                          (report ERROR_LEVEL (Rep F_allocMMAP S_mutexInit) s);
          let s = (if ok then s else report ERROR_LEVEL (Rep F_allocMMAP S_mutexattrDestroy) s);
          s \<leftarrow> unmap_reporting E F_allocMMAP mmapBlock s;
          Some (MAP_FAILED, s) }
        else do {
        (ok, s) \<leftarrow> PTHREAD_mutexLock E (MBlock mmapBlock) s;
        if \<not> ok then do {
          s \<leftarrow> unmap_reporting E F_allocMMAP mmapBlock
                 (report ERROR_LEVEL (Rep F_allocMMAP S_mutexLock) s);
          Some (MAP_FAILED, s) }
        else do {
        s \<leftarrow> upd_mm mmapBlock (\<lambda>h. h\<lparr>mm_size := mmapBlockSize,
               mm_maxSize := mmapBlockSize - sizeof_mmapHeader - sizeof_mallocHeader,
               mm_prev := mmapLastBlock, mm_next := 0\<rparr>) s;
        s \<leftarrow> (if mmapLastBlock \<noteq> 0
             then upd_mm mmapLastBlock (\<lambda>h. h\<lparr>mm_next := mmapBlock\<rparr>) s else Some s);
        s \<leftarrow> upd_mm mmapBlock (\<lambda>h. h\<lparr>mm_elements := 0, mm_checkStart := 0xAA,
               mm_checkEnd := 0xAA\<rparr>) s;
        let s = report VGC_MALLOC_DEBUG_LEVEL (Rep F_vgc_malloc S_new_mmap) s;
        let mallocBlock = firstMallocHeaderInMMAP mmapBlock;
        b \<leftarrow> cast_mb mallocBlock s;
        mm \<leftarrow> get_mm mmapBlock s;
        let s = put_mb mallocBlock (b\<lparr>mb_size := mm_maxSize mm, mb_status := VGC_MALLOC_FREE,
               mb_mmapBlock := mmapBlock, mb_prev := 0, mb_next := 0, mb_checkStart := 0xAA,
               mb_checkEnd := 0xAA\<rparr>) s;
        let s = snd (VGC_mprotect E mallocBlock s);
        (ok, s) \<leftarrow> PTHREAD_mutexUnlock E (MBlock mmapBlock) s;
        if \<not> ok then do {
          s \<leftarrow> unmap_reporting E F_allocMMAP mmapBlock
                 (report ERROR_LEVEL (Rep F_allocMMAP S_mutexUnlock) s);
          Some (MAP_FAILED, s) }
        else
          Some (mmapBlock, upd_shared (\<lambda>h. h\<lparr>sh_mmapBlockCount := sh_mmapBlockCount h + 1\<rparr>) s)
        } } } })"

text \<open>A second, ten times smaller request when there is no room for the first.\<close>

definition mmapBlockAllocate :: "env \<Rightarrow> size_t \<Rightarrow> addr \<Rightarrow> state \<Rightarrow> (addr \<times> state) option" where
  "mmapBlockAllocate E mmapBlockSize mmapLastBlock s = do {
     (mmapBlock, s) \<leftarrow> allocMMAP E mmapBlockSize mmapLastBlock s;
     if mmapBlock = MAP_FAILED then do {
       (mmapBlock, s) \<leftarrow> allocMMAP E (mmapBlockSize div 10) mmapLastBlock s;
       Some (mmapBlock,
             if mmapBlock = MAP_FAILED
             then report ERROR_LEVEL (Rep F_mmapBlockAllocate S_allocMMAP) s else s) }
     else Some (mmapBlock, s) }"

section \<open>A block inside an mmap block\<close>

text \<open>
  The length rounded up to whole pages, and the distance from the start of the block's bytes
  to the returned pointer, which puts the end of the user's bytes at a page end. The second
  goes through an \<^verbatim>\<open>int\<close> (\<open>lengthOrig\<close>) and an \<^verbatim>\<open>unsigned int\<close>, as in the source.
\<close>

definition page_round :: "size_t \<Rightarrow> size_t \<Rightarrow> size_t" where
  "page_round ps len = (if len mod ps = 0 then len else (len div ps + 1) * ps)"

definition memory_offset :: "size_t \<Rightarrow> size_t \<Rightarrow> size_t" where
  "memory_offset ps len =
     (let lengthOrig = (ucast len :: 32 word)
      in ucast (ucast ps :: 32 word) - scast lengthOrig mod ps)"

text \<open>Marking a block as handed out and hooking it to the block that follows it.\<close>

definition takeBlock :: "addr \<Rightarrow> addr \<Rightarrow> addr \<Rightarrow> size_t \<Rightarrow> state \<Rightarrow> state option" where
  "takeBlock mmapBlock mallocBlock next len s = do {
     s \<leftarrow> upd_mm mmapBlock (\<lambda>h. h\<lparr>mm_elements := mm_elements h + 1\<rparr>) s;
     s \<leftarrow> upd_mb mallocBlock (\<lambda>b. b\<lparr>mb_mmapBlock := mmapBlock, mb_size := len,
            mb_status := VGC_MALLOC_BUSY, mb_next := next\<rparr>) s;
     s \<leftarrow> (if next = 0 then Some s
          else do {
            n \<leftarrow> get_mb next s;
            if mb_next n \<noteq> 0 then upd_mb (mb_next n) (\<lambda>x. x\<lparr>mb_prev := next\<rparr>) s else Some s });
     upd_mb mallocBlock (\<lambda>b. b\<lparr>mb_checkStart := 0xAA, mb_checkEnd := 0xAA\<rparr>) s }"

text \<open>
  Taking \<open>len\<close> bytes from the free block \<open>mallocBlock\<close>: what is left becomes a free block of
  its own if there is room for a header and at least one byte; otherwise the whole block is
  handed out.
\<close>

definition carveBlock :: "env \<Rightarrow> addr \<Rightarrow> addr \<Rightarrow> size_t \<Rightarrow> state \<Rightarrow> state option" where
  "carveBlock E mmapBlock mallocBlock len s = do {
     b \<leftarrow> get_mb mallocBlock s;
     let blockSize = len + sizeof_mallocHeader;
     (next, len, s) \<leftarrow>
       (if blockSize < mb_size b then do {
          let next = mallocBlock + blockSize;
          n \<leftarrow> cast_mb next s;
          let s = put_mb next (n\<lparr>mb_mmapBlock := mmapBlock, mb_size := mb_size b - blockSize,
                 mb_status := VGC_MALLOC_FREE, mb_prev := mallocBlock, mb_next := mb_next b,
                 mb_checkStart := 0xAA, mb_checkEnd := 0xAA\<rparr>) s;
          Some (next, len, snd (VGC_mprotect E next s)) }
        else Some (mb_next b, mb_size b, s));
     takeBlock mmapBlock mallocBlock next len s }"

definition allocMallocBlock :: "env \<Rightarrow> addr \<Rightarrow> size_t \<Rightarrow> state \<Rightarrow> (addr \<times> state) option" where
  "allocMallocBlock E mmapBlock len s = do {
     (ok, s) \<leftarrow> PTHREAD_mutexLock E (MBlock mmapBlock) s;
     if \<not> ok then Some (0, report ERROR_LEVEL (Rep F_allocMallocBlock S_mutexLock) s)
     else do {
     mallocBlock \<leftarrow> findFree (hp s) len (firstMallocHeaderInMMAP mmapBlock);
     if mallocBlock = 0 then do {
       s \<leftarrow> unlock_reporting E F_allocMallocBlock (MBlock mmapBlock) s;
       Some (0, s) }
     else do {
     (sane, s) \<leftarrow> checkMmapBlock E mmapBlock s;
     if \<not> sane then do {
       s \<leftarrow> unlock_reporting E F_allocMallocBlock (MBlock mmapBlock) s;
       Some (0, report ERROR_LEVEL (Rep F_allocMallocBlock S_checkMmapBlock) s) }
     else do {
     let sh = shared (hp s);
     s \<leftarrow> carveBlock E mmapBlock mallocBlock
            (if sh_isMprotectEnabled sh then page_round (sh_pageSize sh) len else len) s;
     let memory = mallocBlock + sizeof_mallocHeader;
     let memory = (if sh_isMprotectEnabled sh
                   then memory + memory_offset (sh_pageSize sh) len else memory);
     s \<leftarrow> vgc_stacktraceSave E mallocBlock s;
     s \<leftarrow> unlock_reporting E F_allocMallocBlock (MBlock mmapBlock) s;
     let s = report VGC_MALLOC_DEBUG_LEVEL (Rep F_vgc_malloc S_malloc) s;
     let s = (if sh_isMprotectEnabled sh
              then report VGC_MALLOC_DEBUG_LEVEL (Rep F_vgc_malloc S_protect) s else s);
     Some (memory, s) } } } }"

section \<open>vgc_malloc\<close>

text \<open>
  The loop over the mmap blocks: the memory found (or 0), the last block visited without
  success, the state.
\<close>

partial_function (option) mallocLoop ::
    "env \<Rightarrow> size_t \<Rightarrow> addr \<Rightarrow> addr \<Rightarrow> state \<Rightarrow> (addr \<times> addr \<times> state) option" where
  "mallocLoop E sz mmapBlock mmapBlockLast s =
     (if mmapBlock = 0 then Some (0, mmapBlockLast, s)
      else do {
        (memory, s) \<leftarrow> allocMallocBlock E mmapBlock sz s;
        if memory \<noteq> 0 then Some (memory, mmapBlockLast, s)
        else do {
          mm \<leftarrow> get_mm mmapBlock s;
          mallocLoop E sz (mm_next mm) mmapBlock s } })"

definition pointer_round :: "size_t \<Rightarrow> size_t" where
  "pointer_round sz = sz + (if sz mod 8 = 0 then 0 else 8 - sz mod 8)"

definition vgc_malloc :: "env \<Rightarrow> size_t \<Rightarrow> state \<Rightarrow> (addr \<times> state) option" where
  "vgc_malloc E sz s = do {
     (no_memory, s) \<leftarrow>
       (if sh_mmapBlockFirst (shared (hp s)) = 0 then do {
          (mmapBlock, s) \<leftarrow> mmapBlockAllocate E (sh_mmapBlockSize (shared (hp s))) 0 s;
          Some (mmapBlock = MAP_FAILED, upd_shared (\<lambda>h. h\<lparr>sh_mmapBlockFirst := mmapBlock\<rparr>) s) }
        else Some (False, s));
     if no_memory then Some (0, s)
     else if sz = 0 then Some (0, report ERROR_LEVEL (Rep F_vgc_malloc S_size_zero) s)
     else do {
     let sz = (if sh_isMprotectEnabled (shared (hp s)) then sz else pointer_round sz);
     first \<leftarrow> get_mm (sh_mmapBlockFirst (shared (hp s))) s;
     if mm_maxSize first \<le> sz
     then Some (0, report ERROR_LEVEL (Rep F_vgc_malloc S_size_too_big) s)
     else do {
     (ok, s) \<leftarrow> PTHREAD_mutexLock E MShared s;
     if \<not> ok then Some (0, report ERROR_LEVEL (Rep F_vgc_malloc S_mutexLock) s)
     else do {
     (memory, mmapBlockLast, s) \<leftarrow> mallocLoop E sz (sh_mmapBlockFirst (shared (hp s))) 0 s;
     if memory \<noteq> 0 then do {
       s \<leftarrow> unlock_reporting E F_vgc_malloc MShared s;
       Some (memory, s) }
     else do {
     (next, s) \<leftarrow> mmapBlockAllocate E (sh_mmapBlockSize (shared (hp s))) mmapBlockLast s;
     if next = MAP_FAILED then do {
       s \<leftarrow> unlock_reporting E F_vgc_malloc MShared s;
       Some (0, s) }
     else do {
       (memory, s) \<leftarrow> allocMallocBlock E next sz s;
       s \<leftarrow> unlock_reporting E F_vgc_malloc MShared s;
       Some (memory, s) } } } } } }"

end
