(* ===== verification/Chain.thy ===== *)
theory Chain
  imports Blocks
begin

text \<open>
  The abstract view of the headers in one mmap block: a list of blocks with address, size and
  status. \<open>seg\<close> says that the heap holds such a list as a doubly linked chain of headers,
  \<open>layout\<close> that the blocks lie one after the other, each header followed by its bytes.
\<close>

section \<open>Blocks and chains\<close>

record blk =
  b_addr :: addr
  b_size :: size_t
  b_status :: VGC_mallocStatus

abbreviation is_free :: "blk \<Rightarrow> bool" where
  "is_free b \<equiv> b_status b = VGC_MALLOC_FREE"

definition holds :: "heap \<Rightarrow> addr \<Rightarrow> addr \<Rightarrow> addr \<Rightarrow> blk \<Rightarrow> bool" where
  "holds h m p n b =
     (case mallocH h (b_addr b) of
        None \<Rightarrow> False
      | Some hr \<Rightarrow> mb_checkStart hr = 0xAA \<and> mb_checkEnd hr = 0xAA \<and> mb_size hr = b_size b \<and>
          mb_status hr = b_status b \<and> mb_mmapBlock hr = m \<and> mb_prev hr = p \<and> mb_next hr = n)"

definition first_addr :: "blk list \<Rightarrow> addr \<Rightarrow> addr" where
  "first_addr bs n = (case bs of [] \<Rightarrow> n | b # _ \<Rightarrow> b_addr b)"

definition last_addr :: "addr \<Rightarrow> blk list \<Rightarrow> addr" where
  "last_addr p bs = (if bs = [] then p else b_addr (last bs))"

fun seg :: "heap \<Rightarrow> addr \<Rightarrow> addr \<Rightarrow> blk list \<Rightarrow> addr \<Rightarrow> bool" where
  "seg h m p [] n = True"
| "seg h m p (b # bs) n \<longleftrightarrow> holds h m p (first_addr bs n) b \<and> seg h m (b_addr b) bs n"

fun layout :: "nat \<Rightarrow> blk list \<Rightarrow> nat \<Rightarrow> bool" where
  "layout a [] e \<longleftrightarrow> a = e"
| "layout a (b # bs) e \<longleftrightarrow> unat (b_addr b) = a \<and> layout (a + 8192 + unat (b_size b)) bs e"

definition pages :: "blk list \<Rightarrow> bool" where
  "pages bs \<longleftrightarrow> (\<forall>b \<in> set bs. 4096 dvd unat (b_size b))"

lemma first_addr_simps [simp]:
  "first_addr [] n = n" "first_addr (b # bs) n = b_addr b"
  by (simp_all add: first_addr_def)

lemma first_addr_append [simp]: "first_addr (xs @ ys) n = first_addr xs (first_addr ys n)"
  by (cases xs) simp_all

lemma last_addr_simps [simp]:
  "last_addr p [] = p" "last_addr p (bs @ [b]) = b_addr b"
  "last_addr p (b # bs) = last_addr (b_addr b) bs"
  by (auto simp: last_addr_def)

lemma last_addr_append [simp]: "last_addr p (xs @ ys) = last_addr (last_addr p xs) ys"
  by (auto simp: last_addr_def)

lemma holdsE:
  assumes "holds h m p n b"
  obtains hr where "mallocH h (b_addr b) = Some hr" "mb_checkStart hr = 0xAA"
    "mb_checkEnd hr = 0xAA" "mb_size hr = b_size b" "mb_status hr = b_status b"
    "mb_mmapBlock hr = m" "mb_prev hr = p" "mb_next hr = n"
  using assms by (auto simp: holds_def split: option.splits)

lemma seg_append [simp]:
  "seg h m p (xs @ ys) n \<longleftrightarrow> seg h m p xs (first_addr ys n) \<and> seg h m (last_addr p xs) ys n"
  by (induction xs arbitrary: p) auto

lemma holds_cong:
  "mallocH h' (b_addr b) = mallocH h (b_addr b) \<Longrightarrow> holds h' m p n b = holds h m p n b"
  by (simp add: holds_def)

lemma seg_frame:
  "\<forall>b \<in> set bs. mallocH h' (b_addr b) = mallocH h (b_addr b) \<Longrightarrow> seg h' m p bs n = seg h m p bs n"
  by (induction bs arbitrary: p) (auto cong: holds_cong)

lemma pages_simps [simp]:
  "pages []" "pages (b # bs) \<longleftrightarrow> 4096 dvd unat (b_size b) \<and> pages bs"
  "pages (xs @ ys) \<longleftrightarrow> pages xs \<and> pages ys"
  by (auto simp: pages_def)

section \<open>Layout\<close>

fun span :: "blk list \<Rightarrow> nat" where
  "span [] = 0"
| "span (b # bs) = 8192 + unat (b_size b) + span bs"

lemma span_append [simp]: "span (xs @ ys) = span xs + span ys"
  by (induction xs) auto

lemma layout_end: "layout a bs e \<Longrightarrow> e = a + span bs"
  by (induction bs arbitrary: a) fastforce+

lemma layout_append [simp]:
  "layout a (xs @ ys) e \<longleftrightarrow> layout a xs (a + span xs) \<and> layout (a + span xs) ys e"
  by (induction xs arbitrary: a) (auto simp: add.assoc)

lemma layout_bounds:
  "layout a bs e \<Longrightarrow> b \<in> set bs \<Longrightarrow>
     a \<le> unat (b_addr b) \<and> unat (b_addr b) + 8192 + unat (b_size b) \<le> e"
proof (induction bs arbitrary: a)
  case (Cons c bs)
  then have "a + 8192 + unat (b_size c) \<le> e"
    using layout_end by fastforce
  with Cons show ?case by fastforce
qed simp

lemma layout_aligned:
  "layout a bs e \<Longrightarrow> pages bs \<Longrightarrow> 4096 dvd a \<Longrightarrow> b \<in> set bs \<Longrightarrow> 4096 dvd unat (b_addr b)"
proof (induction bs arbitrary: a)
  case (Cons c bs)
  have "4096 dvd a + (8192 + unat (b_size c))"
    using Cons.prems by (intro dvd_add) simp_all
  with Cons show ?case by (auto simp: add.assoc)
qed simp

lemma layout_before:
  assumes "layout a (xs @ b # ys) e" and "c \<in> set xs"
  shows "unat (b_addr c) + 8192 + unat (b_size c) \<le> unat (b_addr b)"
  using assms layout_bounds [of a xs "a + span xs" c] by simp

lemma layout_after:
  assumes "layout a (xs @ b # ys) e" and "c \<in> set ys"
  shows "unat (b_addr b) + 8192 + unat (b_size b) \<le> unat (b_addr c)"
  using assms layout_bounds [of "a + span xs + 8192 + unat (b_size b)" ys e c] by simp

lemma layout_distinct: "layout a bs e \<Longrightarrow> distinct (map b_addr bs)"
proof (induction bs arbitrary: a)
  case (Cons b bs)
  then have "\<forall>c \<in> set bs. a + 8192 + unat (b_size b) \<le> unat (b_addr c)"
    using layout_bounds by fastforce
  with Cons show ?case by force
qed simp

lemma layout_addr_inj:
  assumes "layout a (xs @ b # ys) e" and "c \<in> set xs \<union> set ys"
  shows "b_addr c \<noteq> b_addr b"
  using layout_distinct [OF assms(1)] assms(2) by (auto simp: image_iff)

section \<open>Searching, checking and dumping a chain\<close>

definition fits :: "size_t \<Rightarrow> blk \<Rightarrow> bool" where
  "fits len b \<longleftrightarrow> is_free b \<and> len \<le> b_size b"

lemma layout_nonzero: "layout a bs e \<Longrightarrow> 0 < a \<Longrightarrow> b \<in> set bs \<Longrightarrow> b_addr b \<noteq> 0"
  using layout_bounds by fastforce

lemma first_addr_eq_0: "layout a bs e \<Longrightarrow> 0 < a \<Longrightarrow> first_addr bs 0 = 0 \<longleftrightarrow> bs = []"
  by (cases bs) auto

lemma findFree_seg:
  assumes "seg h m p bs 0" and "layout a bs e" and "0 < a"
  shows "findFree h len (first_addr bs 0)
       = Some (case find (fits len) bs of None \<Rightarrow> 0 | Some b \<Rightarrow> b_addr b)"
  using assms
proof (induction bs arbitrary: p a)
  case Nil
  then show ?case by (simp add: findFree.simps)
next
  case (Cons b bs)
  from Cons.prems obtain hr where "mallocH h (b_addr b) = Some hr" "mb_size hr = b_size b"
    "mb_status hr = b_status b" "mb_next hr = first_addr bs 0"
    by (auto elim: holdsE)
  moreover from Cons.prems have "b_addr b \<noteq> 0" by auto
  moreover have "findFree h len (first_addr bs 0)
       = Some (case find (fits len) bs of None \<Rightarrow> 0 | Some b \<Rightarrow> b_addr b)"
    using Cons.IH [of "b_addr b" "a + 8192 + unat (b_size b)"] Cons.prems by simp
  ultimately show ?case
    by (subst findFree.simps) (auto simp: fits_def)
qed

definition sums_total :: "size_t \<times> size_t \<times> size_t \<Rightarrow> size_t" where
  "sums_total t = (case t of (x, y, z) \<Rightarrow> x + y + z)"

lemma sums_total_add:
  "mb_size hr = b_size b \<Longrightarrow>
     sums_total (add_sums hr t) = sums_total t + of_nat (8192 + unat (b_size b))"
  by (cases t) (auto simp: sums_total_def add_sums_def)

lemma dumpLoop_seg:
  assumes E: "reliable E" and "seg h m p bs 0" and "layout a bs e" and "0 < a"
  shows "\<exists>out' t'. dumpLoop E h i (first_addr bs 0) t out = Some (out', t')"
  using assms(2-)
proof (induction bs arbitrary: p a i t out)
  case Nil
  then show ?case by (cases t) (simp add: dumpLoop.simps)
next
  case (Cons b bs)
  from Cons.prems obtain hr where *: "mallocH h (b_addr b) = Some hr"
    "mb_next hr = first_addr bs 0" by (auto elim: holdsE)
  from Cons.prems have "b_addr b \<noteq> 0" by auto
  moreover have "\<exists>out' t'. dumpLoop E h j (first_addr bs 0) t2 out2 = Some (out', t')" for j t2 out2
    using Cons.IH [of "b_addr b" "a + 8192 + unat (b_size b)"] Cons.prems by simp
  moreover obtain tr where "(if mb_status hr = VGC_MALLOC_BUSY then vgc_stacktraceShow E hr else Some []) = Some tr"
    using block_trace_some [OF E] by blast
  ultimately show ?case
    using * by (subst dumpLoop.simps) simp
qed

lemma checkLoop_seg:
  assumes "seg h m p bs 0" and "layout a bs e" and "0 < a" and "bs \<noteq> []"
    and "unat m \<le> a" and "e \<le> unat m + unat (sh_mmapBlockSize (shared h))"
    and "unat m + unat (sh_mmapBlockSize (shared h)) < 2 ^ 64"
    and "\<forall>b \<in> set bs. b_size b \<le> mx"
  shows "\<exists>t'. checkLoop h m mx (first_addr bs 0) t = Some (Inr t') \<and>
           sums_total t' = sums_total t + of_nat (span bs)"
  using assms
proof (induction bs arbitrary: p a t)
  case Nil
  then show ?case by simp
next
  case (Cons b bs)
  from Cons.prems obtain hr where hr: "mallocH h (b_addr b) = Some hr" "mb_size hr = b_size b"
    "mb_status hr = b_status b" "mb_next hr = first_addr bs 0"
    by (auto elim: holdsE)
  from Cons.prems have nz: "b_addr b \<noteq> 0" by auto
  have end_b: "unat (b_addr b) + 8192 + unat (b_size b) \<le> e"
    using layout_bounds [OF Cons.prems(2), of b] by simp
  have small: "\<not> mx < b_size b" using Cons.prems by auto
  have ptr: "\<not> (b_addr b < m \<or> m + sh_mmapBlockSize (shared h) < b_addr b)"
    using Cons.prems end_b
    by (auto simp: word_less_nat_alt unat_add_ok)
  show ?case
  proof (cases bs)
    case Nil
    with hr nz small ptr show ?thesis
      by (subst checkLoop.simps) (simp add: sums_total_add)
  next
    case (Cons c cs)
    with Cons.prems obtain hc where hc: "mallocH h (b_addr c) = Some hc" "mb_prev hc = b_addr b"
      by (auto elim: holdsE)
    have "b_addr c \<noteq> 0" using Cons Cons.prems by auto
    moreover obtain t' where "checkLoop h m mx (first_addr bs 0) (add_sums hr t) = Some (Inr t')"
      "sums_total t' = sums_total (add_sums hr t) + of_nat (span bs)"
      using Cons.IH [of "b_addr b" "a + 8192 + unat (b_size b)" "add_sums hr t"] Cons Cons.prems
      by auto
    ultimately show ?thesis
      using hr hc nz small ptr Cons
      by (subst checkLoop.simps) (simp add: sums_total_add add.assoc)
  qed
qed

end
