(* ===== verification/Unify.thy ===== *)
theory Unify
  imports Chain
begin

text \<open>
  Unifying free neighbours: what \<^verbatim>\<open>freeBlocksNext\<close> and \<^verbatim>\<open>freeBlocksPrev\<close> do to the list of
  blocks a chain of headers holds.
\<close>

section \<open>On lists of blocks\<close>

definition absorb :: "blk \<Rightarrow> blk list \<Rightarrow> blk list" where
  "absorb b ys =
     (case ys of
        [] \<Rightarrow> [b]
      | y # zs \<Rightarrow>
          if is_free y then b\<lparr>b_size := b_size b + (b_size y + sizeof_mallocHeader)\<rparr> # zs
          else b # ys)"

definition unify_prev :: "blk list \<Rightarrow> blk list \<Rightarrow> blk list" where
  "unify_prev xs zs =
     (if xs = [] then zs
      else if is_free (last xs) then butlast xs @ absorb (last xs) zs
      else xs @ zs)"

text \<open>What freeing block \<open>b\<close> between \<open>xs\<close> and \<open>ys\<close> leaves.\<close>

definition release :: "blk list \<Rightarrow> blk \<Rightarrow> blk list \<Rightarrow> blk list" where
  "release xs b ys = unify_prev xs (absorb (b\<lparr>b_status := VGC_MALLOC_FREE\<rparr>) ys)"

fun coalesced :: "blk list \<Rightarrow> bool" where
  "coalesced (a # b # bs) \<longleftrightarrow> \<not> (is_free a \<and> is_free b) \<and> coalesced (b # bs)"
| "coalesced _ = True"

lemma absorb_simps [simp]:
  "absorb b [] = [b]"
  "absorb b (y # zs) =
     (if is_free y then b\<lparr>b_size := b_size b + (b_size y + sizeof_mallocHeader)\<rparr> # zs
      else b # y # zs)"
  by (simp_all add: absorb_def)

lemma absorb_not_Nil [simp]: "absorb b ys \<noteq> []"
  by (cases ys) auto

lemma first_addr_absorb [simp]: "first_addr (absorb b ys) n = b_addr b"
  by (cases ys) auto

lemma coalesced_Cons:
  "coalesced (b # bs) \<longleftrightarrow> (bs = [] \<or> \<not> (is_free b \<and> is_free (hd bs))) \<and> coalesced bs"
  by (cases bs) auto

lemma coalesced_append:
  "coalesced (xs @ ys) \<longleftrightarrow> coalesced xs \<and> coalesced ys \<and>
     (xs = [] \<or> ys = [] \<or> \<not> (is_free (last xs) \<and> is_free (hd ys)))"
  by (induction xs) (auto simp: coalesced_Cons)

lemma absorb_layout:
  assumes "layout a (b # ys) e" and "e < 18446744073709551616"
  shows "layout a (absorb b ys) e"
proof (cases ys)
  case (Cons y zs)
  have "unat (b_addr y) + 8192 + unat (b_size y) \<le> e"
    using layout_bounds [OF assms(1), of y] Cons by simp
  then have "unat (b_size b) + (unat (b_size y) + 8192) < 18446744073709551616"
    using assms Cons by simp
  then have "unat (b_size b + (b_size y + 8192)) = unat (b_size b) + (unat (b_size y) + 8192)"
    by (simp add: unat_add_ok)
  with assms Cons show ?thesis by (simp add: add.assoc add.commute add.left_commute)
qed (use assms in simp)

lemma absorb_pages:
  assumes "layout a (b # ys) e" and "e < 18446744073709551616" and "pages (b # ys)"
  shows "pages (absorb b ys)"
proof (cases ys)
  case (Cons y zs)
  have "unat (b_addr y) + 8192 + unat (b_size y) \<le> e"
    using layout_bounds [OF assms(1), of y] Cons by simp
  then have "unat (b_size b) + (unat (b_size y) + 8192) < 18446744073709551616"
    using assms Cons by simp
  then have "unat (b_size b + (b_size y + 8192)) = unat (b_size b) + (unat (b_size y) + 8192)"
    by (simp add: unat_add_ok)
  with assms Cons show ?thesis by simp
qed (use assms in simp)

lemma unify_prev_layout:
  assumes "layout a (xs @ zs) e" and "e < 18446744073709551616" and "zs \<noteq> []"
  shows "layout a (unify_prev xs zs) e"
proof (cases "xs = [] \<or> \<not> is_free (last xs)")
  case False
  then have xs: "xs = butlast xs @ [last xs]" by simp
  have "layout a (butlast xs @ last xs # zs) e"
    using assms(1) xs by (metis append.assoc append_Cons append_Nil)
  then have "layout a (butlast xs @ absorb (last xs) zs) e"
    using absorb_layout [of "a + span (butlast xs)" "last xs" zs e] assms(2) by simp
  with False show ?thesis by (simp add: unify_prev_def)
qed (use assms in \<open>auto simp: unify_prev_def\<close>)

lemma unify_prev_pages:
  assumes "layout a (xs @ zs) e" and "e < 18446744073709551616" and "pages (xs @ zs)"
  shows "pages (unify_prev xs zs)"
proof (cases "xs = [] \<or> \<not> is_free (last xs)")
  case False
  then have xs: "xs = butlast xs @ [last xs]" by simp
  have "layout (a + span (butlast xs)) (last xs # zs) e"
    using assms(1) xs by (metis append.assoc append_Cons append_Nil layout_append)
  moreover have "pages (butlast xs)" "pages (last xs # zs)"
    using assms(3) xs by (metis append.assoc append_Cons append_Nil pages_simps(3))+
  ultimately show ?thesis
    using False absorb_pages assms(2) by (auto simp: unify_prev_def)
qed (use assms in \<open>auto simp: unify_prev_def\<close>)

lemma release_layout:
  assumes "layout a (xs @ b # ys) e" and "e < 18446744073709551616"
  shows "layout a (release xs b ys) e"
  using assms absorb_layout [of "a + span xs" "b\<lparr>b_status := VGC_MALLOC_FREE\<rparr>" ys e]
  by (auto simp: release_def intro!: unify_prev_layout)

lemma release_pages:
  assumes "layout a (xs @ b # ys) e" and "e < 18446744073709551616" and "pages (xs @ b # ys)"
  shows "pages (release xs b ys)"
  unfolding release_def
  using assms absorb_layout [of "a + span xs" "b\<lparr>b_status := VGC_MALLOC_FREE\<rparr>" ys e]
    absorb_pages [of "a + span xs" "b\<lparr>b_status := VGC_MALLOC_FREE\<rparr>" ys e]
  by (intro unify_prev_pages [of a _ _ e]) auto

lemma coalesced_absorb:
  "is_free b \<Longrightarrow> coalesced ys \<Longrightarrow> coalesced (absorb b ys) \<and> is_free (hd (absorb b ys))"
  by (cases ys) (auto simp: coalesced_Cons)

lemma release_coalesced:
  assumes "coalesced (xs @ b # ys)"
  shows "coalesced (release xs b ys)"
proof -
  let ?zs = "absorb (b\<lparr>b_status := VGC_MALLOC_FREE\<rparr>) ys"
  have zs: "coalesced ?zs" "is_free (hd ?zs)"
    using coalesced_absorb [of "b\<lparr>b_status := VGC_MALLOC_FREE\<rparr>" ys] assms
    by (auto simp: coalesced_append coalesced_Cons)
  show ?thesis
  proof (cases "xs = [] \<or> \<not> is_free (last xs)")
    case True
    with zs assms show ?thesis by (auto simp: release_def unify_prev_def coalesced_append)
  next
    case False
    obtain z zs' where z: "?zs = z # zs'" by (cases ?zs) auto
    have "coalesced (butlast xs @ [last xs])"
      using False assms by (simp add: coalesced_append)
    moreover have "zs' = [] \<or> \<not> is_free (hd zs')" "coalesced zs'"
      using zs z by (auto simp: coalesced_Cons)
    ultimately show ?thesis
      using False zs z by (auto simp: release_def unify_prev_def coalesced_append coalesced_Cons)
  qed
qed

section \<open>On the heap\<close>

text \<open>\<open>headers_only A s s'\<close>: only headers at addresses in \<open>A\<close> (and page rights) changed.\<close>

definition headers_only :: "addr set \<Rightarrow> state \<Rightarrow> state \<Rightarrow> bool" where
  "headers_only A s s' \<longleftrightarrow>
     shared (hp s') = shared (hp s) \<and> mmapH (hp s') = mmapH (hp s) \<and>
     bytes (hp s') = bytes (hp s) \<and> maps (hp s') = maps (hp s) \<and> mtx s' = mtx s \<and>
     attrs s' = attrs s \<and> self s' = self s \<and> messageLevel s' = messageLevel s \<and>
     (\<forall>x. x \<notin> A \<longrightarrow> mallocH (hp s') x = mallocH (hp s) x)"

lemma headers_only_refl [simp]: "headers_only A s s"
  by (simp add: headers_only_def)

lemma headers_only_trans:
  "headers_only A s t \<Longrightarrow> headers_only B t u \<Longrightarrow> headers_only (A \<union> B) s u"
  by (simp add: headers_only_def)

lemma headers_only_mono: "headers_only A s t \<Longrightarrow> A \<subseteq> B \<Longrightarrow> headers_only B s t"
  by (auto simp: headers_only_def)

lemma headers_only_mprotect:
  "same_objects s t \<Longrightarrow> headers_only A s t"
  by (simp add: headers_only_def same_objects_def)

lemma upd_mb_Some:
  "mallocH (hp s) a = Some h \<Longrightarrow> upd_mb a f s = Some (put_mb a (f h) s)"
  by (simp add: upd_mb_def get_mb_def)

lemma put_mb_sel [simp]:
  "mallocH (hp (put_mb a h s)) = (mallocH (hp s))(a \<mapsto> h)"
  "shared (hp (put_mb a h s)) = shared (hp s)" "mmapH (hp (put_mb a h s)) = mmapH (hp s)"
  "bytes (hp (put_mb a h s)) = bytes (hp s)" "prot (hp (put_mb a h s)) = prot (hp s)"
  "maps (hp (put_mb a h s)) = maps (hp s)" "mtx (put_mb a h s) = mtx s"
  "attrs (put_mb a h s) = attrs s" "self (put_mb a h s) = self s"
  "ticks (put_mb a h s) = ticks s" "messageLevel (put_mb a h s) = messageLevel s"
  "msgs (put_mb a h s) = msgs s"
  by (simp_all add: put_mb_def)

lemma headers_only_put [simp]: "a \<in> A \<Longrightarrow> headers_only A s (put_mb a h t) = headers_only A s t"
  by (auto simp: headers_only_def)

lemma seg_outside:
  assumes "\<forall>x. x \<notin> A \<longrightarrow> mallocH h' x = mallocH h x" and "b_addr ` set bs \<inter> A = {}"
  shows "seg h' m p bs n = seg h m p bs n"
  using assms by (intro seg_frame) blast

lemma unify_heap:
  assumes seg: "seg (hp s) m p (xs @ b # y # zs) 0"
    and lay: "layout a (xs @ b # y # zs) e" and "0 < a"
    and hb: "mallocH (hp s) (b_addr b) = Some hb" and hy: "mallocH (hp s) (b_addr y) = Some hy"
  shows "\<exists>s'. (do {
         s \<leftarrow> upd_mb (b_addr b) (\<lambda>b. b\<lparr>mb_size := mb_size b + (mb_size hy + sizeof_mallocHeader)\<rparr>) s;
         s \<leftarrow> upd_mb (b_addr b) (\<lambda>b. b\<lparr>mb_next := mb_next hy\<rparr>) s;
         if mb_next hy \<noteq> 0 then upd_mb (mb_next hy) (\<lambda>n. n\<lparr>mb_prev := b_addr b\<rparr>) s
         else Some s }) = Some s' \<and>
       seg (hp s') m p (xs @ b\<lparr>b_size := b_size b + (b_size y + sizeof_mallocHeader)\<rparr> # zs) 0 \<and>
       headers_only (b_addr ` set (b # zs)) s s' \<and> prot (hp s') = prot (hp s)"
proof -
  let ?b = "b\<lparr>b_size := b_size b + (b_size y + sizeof_mallocHeader)\<rparr>"
  let ?hb = "hb\<lparr>mb_size := mb_size hb + (mb_size hy + sizeof_mallocHeader), mb_next := mb_next hy\<rparr>"
  have sb: "holds (hp s) m (last_addr p xs) (b_addr y) b" and sx: "seg (hp s) m p xs (b_addr b)"
    and sy: "holds (hp s) m (b_addr b) (first_addr zs 0) y" and sz: "seg (hp s) m (b_addr y) zs 0"
    using seg by auto
  have yn: "mb_next hy = first_addr zs 0" and ysz: "mb_size hy = b_size y"
    using sy hy by (auto elim: holdsE)
  have nz: "b_addr c \<noteq> b_addr b" if "c \<in> set xs \<union> set (y # zs)" for c
    using layout_addr_inj [OF lay that] .
  have d: "distinct (map b_addr (xs @ b # y # zs))"
    using lay by (rule layout_distinct)
  show ?thesis
  proof (cases zs)
    case Nil
    let ?s = "put_mb (b_addr b) ?hb (put_mb (b_addr b) (hb\<lparr>mb_size := mb_size hb + (mb_size hy + sizeof_mallocHeader)\<rparr>) s)"
    have "seg (hp ?s) m p xs (b_addr b)"
      using sx d by (subst seg_outside [where h = "hp s" and A = "{b_addr b}"]) auto
    moreover have "holds (hp ?s) m (last_addr p xs) 0 ?b"
      using sb hb yn ysz Nil by (auto simp: holds_def)
    ultimately show ?thesis
      using hb yn Nil by (simp add: upd_mb_Some)
  next
    case (Cons z zs')
    then obtain hz where hz: "mallocH (hp s) (b_addr z) = Some hz"
      using sz by (auto elim: holdsE)
    have z0: "b_addr z \<noteq> 0"
      using layout_nonzero [OF lay \<open>0 < a\<close>, of z] Cons by simp
    have zb: "b_addr z \<noteq> b_addr b" using nz [of z] Cons by simp
    let ?s = "put_mb (b_addr z) (hz\<lparr>mb_prev := b_addr b\<rparr>) (put_mb (b_addr b) ?hb
       (put_mb (b_addr b) (hb\<lparr>mb_size := mb_size hb + (mb_size hy + sizeof_mallocHeader)\<rparr>) s))"
    have "seg (hp ?s) m p xs (b_addr b)"
      using sx d Cons by (subst seg_outside [where h = "hp s" and A = "{b_addr b, b_addr z}"]) auto
    moreover have "holds (hp ?s) m (last_addr p xs) (b_addr z) ?b"
      using sb hb yn ysz Cons zb by (auto simp: holds_def)
    moreover have "holds (hp ?s) m (b_addr b) (first_addr zs' 0) z"
      using sz hz Cons by (auto simp: holds_def)
    moreover have "seg (hp ?s) m (b_addr z) zs' 0"
      using sz d Cons by (subst seg_outside [where h = "hp s" and A = "{b_addr b, b_addr z}"]) auto
    ultimately show ?thesis
      using hb hz yn Cons z0 zb by (simp add: upd_mb_Some)
  qed
qed

lemma freeBlocksNext_seg:
  assumes seg: "seg (hp s) m p (xs @ b # ys) 0"
    and lay: "layout a (xs @ b # ys) e" and "0 < a"
  shows "\<exists>s'. freeBlocksNext E (b_addr b) s = Some s' \<and>
      seg (hp s') m p (xs @ absorb b ys) 0 \<and> headers_only (b_addr ` set (b # ys)) s s'"
proof (cases ys)
  case Nil
  with seg obtain hb where "mallocH (hp s) (b_addr b) = Some hb" "mb_next hb = 0"
    by (auto elim: holdsE)
  with Nil seg show ?thesis
    by (simp add: freeBlocksNext_def get_mb_def)
next
  case (Cons y zs)
  with seg obtain hb hy where h: "mallocH (hp s) (b_addr b) = Some hb" "mb_next hb = b_addr y"
    "mallocH (hp s) (b_addr y) = Some hy" "mb_status hy = b_status y"
    by (auto elim!: holdsE)
  have y0: "b_addr y \<noteq> 0"
    using layout_nonzero [OF lay \<open>0 < a\<close>, of y] Cons by simp
  show ?thesis
  proof (cases "is_free y")
    case False
    with h y0 seg Cons show ?thesis
      by (auto simp: freeBlocksNext_def get_mb_def)
  next
    case True
    define t where "t = snd (VGC_munprotect E (b_addr y) s)"
    have same: "same_objects s t"
      unfolding t_def using VGC_munprotect_same by (metis surjective_pairing)
    then have mt: "mallocH (hp t) = mallocH (hp s)" by (simp add: same_objects_def)
    have "seg (hp t) m p (xs @ b # y # zs) 0"
      using seg Cons mt by (subst seg_frame [where h = "hp s"]) auto
    with unify_heap [of t m p xs b y zs a e hb hy] lay \<open>0 < a\<close> h mt Cons
    obtain s' where s': "(do {
         s \<leftarrow> upd_mb (b_addr b) (\<lambda>b. b\<lparr>mb_size := mb_size b + (mb_size hy + sizeof_mallocHeader)\<rparr>) t;
         s \<leftarrow> upd_mb (b_addr b) (\<lambda>b. b\<lparr>mb_next := mb_next hy\<rparr>) s;
         if mb_next hy \<noteq> 0 then upd_mb (mb_next hy) (\<lambda>n. n\<lparr>mb_prev := b_addr b\<rparr>) s
         else Some s }) = Some s'"
      "seg (hp s') m p (xs @ absorb b ys) 0" "headers_only (b_addr ` set (b # zs)) t s'"
      using True by auto
    have "freeBlocksNext E (b_addr b) s = Some s'"
      using h y0 True s'(1) unfolding freeBlocksNext_def get_mb_def
      by (simp add: t_def [symmetric])
    moreover have "headers_only (b_addr ` set (b # ys)) s s'"
      using headers_only_trans [OF headers_only_mprotect [OF same, of "{}"] s'(3)] Cons
      by (auto intro: headers_only_mono)
    ultimately show ?thesis using s'(2) by blast
  qed
qed

lemma freeBlocksPrev_seg:
  assumes seg: "seg (hp s) m 0 (xs @ b # ys) 0"
    and lay: "layout a (xs @ b # ys) e" and "0 < a" and free: "is_free b"
  shows "\<exists>s'. freeBlocksPrev E (b_addr b) s = Some s' \<and>
      seg (hp s') m 0 (unify_prev xs (b # ys)) 0 \<and>
      headers_only (b_addr ` set (xs @ b # ys)) s s'"
proof (cases xs rule: rev_cases)
  case Nil
  with seg obtain hb where "mallocH (hp s) (b_addr b) = Some hb" "mb_prev hb = 0"
    by (auto elim: holdsE)
  with Nil seg show ?thesis
    by (simp add: freeBlocksPrev_def get_mb_def unify_prev_def)
next
  case (snoc ws q)
  with seg obtain hb hq where h: "mallocH (hp s) (b_addr b) = Some hb" "mb_prev hb = b_addr q"
    "mallocH (hp s) (b_addr q) = Some hq" "mb_status hq = b_status q"
    by (auto elim!: holdsE)
  have q0: "b_addr q \<noteq> 0"
    using layout_nonzero [OF lay \<open>0 < a\<close>, of q] snoc by simp
  show ?thesis
  proof (cases "is_free q")
    case False
    with h q0 seg snoc show ?thesis
      by (simp add: freeBlocksPrev_def get_mb_def unify_prev_def)
  next
    case True
    define t where "t = snd (VGC_munprotect E (b_addr b) s)"
    have same: "same_objects s t"
      unfolding t_def using VGC_munprotect_same by (metis surjective_pairing)
    then have mt: "mallocH (hp t) = mallocH (hp s)" by (simp add: same_objects_def)
    have "seg (hp t) m 0 (ws @ q # b # ys) 0"
      using seg snoc mt by (subst seg_frame [where h = "hp s"]) auto
    with unify_heap [of t m 0 ws q b ys a e hq hb] lay \<open>0 < a\<close> h mt snoc
    obtain s' where s': "(do {
         s \<leftarrow> upd_mb (b_addr q) (\<lambda>p. p\<lparr>mb_size := mb_size p + (mb_size hb + sizeof_mallocHeader)\<rparr>) t;
         s \<leftarrow> upd_mb (b_addr q) (\<lambda>p. p\<lparr>mb_next := mb_next hb\<rparr>) s;
         if mb_next hb \<noteq> 0 then upd_mb (mb_next hb) (\<lambda>n. n\<lparr>mb_prev := b_addr q\<rparr>) s
         else Some s }) = Some s'"
      "seg (hp s') m 0 (unify_prev xs (b # ys)) 0" "headers_only (b_addr ` set (q # ys)) t s'"
      using True free by (auto simp: unify_prev_def)
    have "freeBlocksPrev E (b_addr b) s = Some s'"
      using h q0 True s'(1) unfolding freeBlocksPrev_def get_mb_def
      by (simp add: t_def [symmetric])
    moreover have "headers_only (b_addr ` set (xs @ b # ys)) s s'"
      using headers_only_trans [OF headers_only_mprotect [OF same, of "{}"] s'(3)] snoc
      by (auto intro: headers_only_mono)
    ultimately show ?thesis using s'(2) by blast
  qed
qed

text \<open>
  The middle of \<^verbatim>\<open>vgc_free\<close>: the block is marked free, its guard page is opened and it is unified
  with its neighbours.
\<close>

definition release_block :: "env \<Rightarrow> addr \<Rightarrow> state \<Rightarrow> state option" where
  "release_block E mallocBlock s = do {
     s \<leftarrow> upd_mb mallocBlock (\<lambda>b. b\<lparr>mb_status := VGC_MALLOC_FREE\<rparr>) s;
     let s = snd (VGC_munprotect E mallocBlock s);
     s \<leftarrow> freeBlocksNext E mallocBlock s;
     freeBlocksPrev E mallocBlock s }"

lemma release_block_seg:
  assumes seg: "seg (hp s) m 0 (xs @ b # ys) 0"
    and lay: "layout a (xs @ b # ys) e" and "0 < a" and "e < 18446744073709551616"
  shows "\<exists>s'. release_block E (b_addr b) s = Some s' \<and>
      seg (hp s') m 0 (release xs b ys) 0 \<and> headers_only (b_addr ` set (xs @ b # ys)) s s'"
proof -
  let ?b = "b\<lparr>b_status := VGC_MALLOC_FREE\<rparr>"
  obtain hb where hb: "mallocH (hp s) (b_addr b) = Some hb"
    using seg by (auto elim: holdsE)
  define s1 where "s1 = put_mb (b_addr b) (hb\<lparr>mb_status := VGC_MALLOC_FREE\<rparr>) s"
  define s2 where "s2 = snd (VGC_munprotect E (b_addr b) s1)"
  have s1: "upd_mb (b_addr b) (\<lambda>b. b\<lparr>mb_status := VGC_MALLOC_FREE\<rparr>) s = Some s1"
    using hb by (simp add: upd_mb_Some s1_def)
  have same: "same_objects s1 s2"
    unfolding s2_def using VGC_munprotect_same by (metis surjective_pairing)
  have d: "distinct (map b_addr (xs @ b # ys))" using lay by (rule layout_distinct)
  have out: "\<forall>x. x \<notin> {b_addr b} \<longrightarrow> mallocH (hp s1) x = mallocH (hp s) x"
    by (simp add: s1_def)
  have "seg (hp s1) m 0 xs (b_addr b)" "seg (hp s1) m (b_addr b) ys 0"
    using seg d seg_outside [OF out] by auto
  moreover have "holds (hp s1) m (last_addr 0 xs) (first_addr ys 0) ?b"
    using seg hb by (auto simp: s1_def holds_def)
  ultimately have "seg (hp s1) m 0 (xs @ ?b # ys) 0" by simp
  then have "seg (hp s2) m 0 (xs @ ?b # ys) 0"
    using same by (subst seg_frame [where h = "hp s1"]) (auto simp: same_objects_def)
  moreover have lay1: "layout a (xs @ ?b # ys) e" using lay by simp
  ultimately obtain s3 where s3: "freeBlocksNext E (b_addr b) s2 = Some s3"
    "seg (hp s3) m 0 (xs @ absorb ?b ys) 0" "headers_only (b_addr ` set (b # ys)) s2 s3"
    using freeBlocksNext_seg [of s2 m 0 xs ?b ys a e E] \<open>0 < a\<close> by auto
  obtain b' zs where ab: "absorb ?b ys = b' # zs" by (cases "absorb ?b ys") auto
  then have b': "b_addr b' = b_addr b" "is_free b'" "set zs \<subseteq> set ys"
    by (cases ys; auto split: if_splits)+
  have "layout a (xs @ b' # zs) e"
    using absorb_layout [of "a + span xs" ?b ys e] lay1 ab \<open>e < _\<close> by simp
  with s3 ab b' \<open>0 < a\<close> obtain s4 where s4: "freeBlocksPrev E (b_addr b) s3 = Some s4"
    "seg (hp s4) m 0 (release xs b ys) 0" "headers_only (b_addr ` set (xs @ b' # zs)) s3 s4"
    using freeBlocksPrev_seg [of s3 m xs b' zs a e E] by (auto simp: release_def)
  have "release_block E (b_addr b) s = Some s4"
    using s1 s3(1) s4(1) by (simp add: release_block_def s2_def [symmetric])
  moreover have "headers_only (b_addr ` set (xs @ b # ys)) s s4"
  proof -
    have "headers_only {b_addr b} s s1" by (simp add: s1_def)
    then have "headers_only ({b_addr b} \<union> {} \<union> b_addr ` set (b # ys) \<union> b_addr ` set (xs @ b' # zs)) s s4"
      using headers_only_mprotect [OF same] s3(3) s4(3) headers_only_trans by blast
    then show ?thesis using b' by (auto intro: headers_only_mono)
  qed
  ultimately show ?thesis using s4(2) by blast
qed

end
