(* ===== verification/Free.thy ===== *)
theory Free
  imports Malloc Unify
begin

unbundle bit_operations_syntax

text \<open>
  The release path of \<^verbatim>\<open>src/vgc_malloc.c\<close>: \<^verbatim>\<open>freeMMAP\<close> and \<^verbatim>\<open>vgc_free\<close>, and the two entry
  points built on both paths, \<^verbatim>\<open>vgc_calloc\<close> and \<^verbatim>\<open>vgc_realloc\<close>.
\<close>

section \<open>vgc_free\<close>

definition freeMMAP :: "env \<Rightarrow> addr \<Rightarrow> state \<Rightarrow> state option" where
  "freeMMAP E mmapBlock s = do {
     let s = report VGC_MALLOC_DEBUG_LEVEL (Rep F_freeMMAP S_unmapping) s;
     let s = upd_shared (\<lambda>h. h\<lparr>sh_mmapBlockCount := sh_mmapBlockCount h - 1\<rparr>) s;
     let s = (if mmapBlock = sh_mmapBlockFirst (shared (hp s))
              then upd_shared (\<lambda>h. h\<lparr>sh_mmapBlockFirst := 0\<rparr>) s else s);
     unmap_reporting E F_freeMMAP mmapBlock s }"

text \<open>
  Unhooking an mmap block that is all free from its neighbours, under their locks. The
  Boolean says whether both locks were obtained; if one was not, the code has released the
  locks it holds and returns.
\<close>

definition unhookNext :: "env \<Rightarrow> addr \<Rightarrow> state \<Rightarrow> (bool \<times> state) option" where
  "unhookNext E mmapBlock s = do {
     mm \<leftarrow> get_mm mmapBlock s;
     if mm_next mm = 0 then Some (True, s)
     else do {
       (ok, s) \<leftarrow> PTHREAD_mutexLock E (MBlock (mm_next mm)) s;
       if \<not> ok then do {
         s \<leftarrow> unlock_reporting E F_vgc_free (MBlock mmapBlock) s;
         s \<leftarrow> unlock_reporting E F_vgc_free MShared s;
         Some (False, report ERROR_LEVEL (Rep F_vgc_free S_mutexLock) s) }
       else do {
         s \<leftarrow> upd_mm (mm_next mm) (\<lambda>h. h\<lparr>mm_prev := mm_prev mm\<rparr>) s;
         s \<leftarrow> unlock_reporting E F_vgc_free (MBlock (mm_next mm)) s;
         Some (True, s) } } }"

definition unhookPrev :: "env \<Rightarrow> addr \<Rightarrow> state \<Rightarrow> (bool \<times> state) option" where
  "unhookPrev E mmapBlock s = do {
     mm \<leftarrow> get_mm mmapBlock s;
     if mm_prev mm = 0 then Some (True, s)
     else do {
       (ok, s) \<leftarrow> PTHREAD_mutexLock E (MBlock (mm_prev mm)) s;
       if \<not> ok then do {
         s \<leftarrow> unlock_reporting E F_vgc_free (MBlock mmapBlock) s;
         s \<leftarrow> unlock_reporting E F_vgc_free MShared s;
         Some (False, report ERROR_LEVEL (Rep F_vgc_free S_mutexLock) s) }
       else do {
         s \<leftarrow> upd_mm (mm_prev mm) (\<lambda>h. h\<lparr>mm_next := mm_next mm\<rparr>) s;
         s \<leftarrow> unlock_reporting E F_vgc_free (MBlock (mm_prev mm)) s;
         Some (True, s) } } }"

text \<open>The header a user pointer belongs to: \<^verbatim>\<open>vgc_free\<close> first goes back to the page start.\<close>

definition header_of :: "addr \<Rightarrow> state \<Rightarrow> addr" where
  "header_of ptr s =
     (let sh = shared (hp s);
          ptr = (if sh_isMprotectEnabled sh then ptr AND NOT (sh_pageSize sh - 1) else ptr)
      in ptr - sizeof_mallocHeader)"

definition vgc_free :: "env \<Rightarrow> addr \<Rightarrow> state \<Rightarrow> state option" where
  "vgc_free E ptr s =
     (if ptr = 0 then Some (report ERROR_LEVEL (Rep F_vgc_free S_ptr_zero) s)
      else do {
      (ok, s) \<leftarrow> PTHREAD_mutexLock E MShared s;
      if \<not> ok then Some (report ERROR_LEVEL (Rep F_vgc_free S_mutexLock) s)
      else do {
      inside \<leftarrow> isInMmapBlock ptr s;
      if \<not> inside then do {
        s \<leftarrow> unlock_reporting E F_vgc_free MShared s;
        Some (report ERROR_LEVEL (Rep F_vgc_free S_isInMmapBlock) s) }
      else do {
      let mallocBlock = header_of ptr s;
      b \<leftarrow> get_mb mallocBlock s;
      if mb_checkStart b \<noteq> 0xAA \<or> mb_checkEnd b \<noteq> 0xAA then do {
        s \<leftarrow> unlock_reporting E F_vgc_free MShared s;
        let s = report ERROR_LEVEL (Rep F_vgc_free S_free) s;
        dumpMmapBlock E (mb_mmapBlock b) (report ERROR_LEVEL (Rep F_vgc_free S_checksum_malloc) s) }
      else do {
      let mmapBlock = mb_mmapBlock b;
      mm \<leftarrow> get_mm mmapBlock s;
      if mm_checkStart mm \<noteq> 0xAA \<or> mm_checkEnd mm \<noteq> 0xAA then do {
        s \<leftarrow> unlock_reporting E F_vgc_free MShared s;
        let s = report ERROR_LEVEL (Rep F_vgc_free S_free) s;
        dumpMmapBlock E mmapBlock (report ERROR_LEVEL (Rep F_vgc_free S_checksum_mmap) s) }
      else do {
      s \<leftarrow> upd_mm mmapBlock (\<lambda>h. h\<lparr>mm_elements := mm_elements h - 1\<rparr>) s;
      let s = report VGC_MALLOC_DEBUG_LEVEL (Rep F_vgc_free S_free) s;
      (ok, s) \<leftarrow> PTHREAD_mutexLock E (MBlock mmapBlock) s;
      if \<not> ok then do {
        s \<leftarrow> unlock_reporting E F_vgc_free MShared s;
        Some (report ERROR_LEVEL (Rep F_vgc_free S_mutexLock) s) }
      else do {
      (sane, s) \<leftarrow> checkMmapBlock E mmapBlock s;
      if \<not> sane then do {
        s \<leftarrow> unlock_reporting E F_vgc_free (MBlock mmapBlock) s;
        s \<leftarrow> unlock_reporting E F_vgc_free MShared s;
        Some (report ERROR_LEVEL (Rep F_vgc_free S_checkMmapBlock) s) }
      else do {
      let s = (if sh_isMprotectEnabled (shared (hp s))
               then report VGC_MALLOC_DEBUG_LEVEL (Rep F_vgc_free S_unprotect) s else s);
      s \<leftarrow> release_block E mallocBlock s;
      first \<leftarrow> get_mb (firstMallocHeaderInMMAP mmapBlock) s;
      if mb_next first = 0 then do {
        (ok, s) \<leftarrow> unhookNext E mmapBlock s;
        if \<not> ok then Some s
        else do {
        (ok, s) \<leftarrow> unhookPrev E mmapBlock s;
        if \<not> ok then Some s
        else do {
        s \<leftarrow> unlock_reporting E F_vgc_free (MBlock mmapBlock) s;
        (ok, s) \<leftarrow> PTHREAD_mutexDestroy E (MBlock mmapBlock) s;
        let s = (if ok then s else report ERROR_LEVEL (Rep F_vgc_free S_mutexDestroy) s);
        let (ok, s) = PTHREAD_mutexattrDestroy E (MBlock mmapBlock) s;
        let s = (if ok then s else report ERROR_LEVEL (Rep F_vgc_free S_mutexattrDestroy) s);
        s \<leftarrow> freeMMAP E mmapBlock s;
        unlock_reporting E F_vgc_free MShared s } } }
      else do {
        s \<leftarrow> unlock_reporting E F_vgc_free (MBlock mmapBlock) s;
        unlock_reporting E F_vgc_free MShared s } } } } } } } })"

section \<open>vgc_calloc and vgc_realloc\<close>

definition vgc_calloc :: "env \<Rightarrow> size_t \<Rightarrow> size_t \<Rightarrow> state \<Rightarrow> (addr \<times> state) option" where
  "vgc_calloc E nmemb sz s =
     (let mallocSize = nmemb * sz in
      if mallocSize = 0
      then Some (0, report ERROR_LEVEL (Rep F_vgc_calloc S_mallocSize_zero) s)
      else do {
        (ptr, s) \<leftarrow> vgc_malloc E mallocSize s;
        if ptr = 0 then Some (0, s)
        else do { s \<leftarrow> memset ptr 0 mallocSize s; Some (ptr, s) } })"

definition vgc_realloc :: "env \<Rightarrow> addr \<Rightarrow> size_t \<Rightarrow> state \<Rightarrow> (addr \<times> state) option" where
  "vgc_realloc E ptr sz s =
     (if sz = 0 then do {
        s \<leftarrow> (if ptr \<noteq> 0 then vgc_free E ptr s else Some s);
        Some (0, s) }
      else if ptr = 0 then vgc_malloc E sz s
      else do {
        (new, s) \<leftarrow> vgc_malloc E sz s;
        if new = 0 then Some (0, s)
        else do {
          b \<leftarrow> get_mb (ptr - sizeof_mallocHeader) s;
          let newSize = min (mb_size b) sz;
          s \<leftarrow> memcpy new ptr newSize s;
          s \<leftarrow> vgc_free E ptr s;
          Some (new, s) } })"

end
