(* ===== verification/Carve.thy ===== *)
theory Carve
  imports Free
begin

text \<open>
  Handing out a block: what \<^verbatim>\<open>carveBlock\<close> and \<^verbatim>\<open>allocMallocBlock\<close> do to the list of blocks a
  chain of headers holds, and the arithmetic of page rounding.
\<close>

section \<open>On lists of blocks\<close>

definition carve :: "size_t \<Rightarrow> blk \<Rightarrow> blk list" where
  "carve len b =
     (if len + sizeof_mallocHeader < b_size b
      then [b\<lparr>b_size := len, b_status := VGC_MALLOC_BUSY\<rparr>,
            \<lparr>b_addr = b_addr b + (len + sizeof_mallocHeader),
             b_size = b_size b - (len + sizeof_mallocHeader), b_status = VGC_MALLOC_FREE\<rparr>]
      else [b\<lparr>b_status := VGC_MALLOC_BUSY\<rparr>])"

text \<open>First fit: the first free block of at least \<open>req\<close> bytes gives \<open>len\<close> bytes.\<close>

fun alloc_list :: "size_t \<Rightarrow> size_t \<Rightarrow> blk list \<Rightarrow> (addr \<times> blk list) option" where
  "alloc_list req len [] = None"
| "alloc_list req len (b # bs) =
     (if fits req b then Some (b_addr b, carve len b @ bs)
      else map_option (\<lambda>(a, cs). (a, b # cs)) (alloc_list req len bs))"

lemma alloc_list_find:
  "alloc_list req len bs =
     (case find (fits req) bs of
        None \<Rightarrow> None
      | Some b \<Rightarrow> Some (b_addr b, takeWhile (\<lambda>b. \<not> fits req b) bs @ carve len b @
                          tl (dropWhile (\<lambda>b. \<not> fits req b) bs)))"
  by (induction bs) (auto split: option.splits)

lemma find_split:
  assumes "find P bs = Some b"
  obtains xs ys where "bs = xs @ b # ys" "P b" "\<forall>x \<in> set xs. \<not> P x"
  using assms
proof (induction bs arbitrary: thesis)
  case (Cons c bs)
  show ?case
  proof (cases "P c")
    case True
    with Cons.prems show ?thesis by (auto intro: Cons.prems(1) [of "[]" bs])
  next
    case False
    with Cons.prems(2) have "find P bs = Some b" by simp
    then obtain xs ys where "bs = xs @ b # ys" "P b" "\<forall>x \<in> set xs. \<not> P x"
      using Cons.IH by blast
    with False show ?thesis by (intro Cons.prems(1) [of "c # xs" ys]) auto
  qed
qed simp

lemma alloc_list_skip:
  "\<forall>x \<in> set xs. \<not> fits req x \<Longrightarrow>
     alloc_list req len (xs @ ys) = map_option (\<lambda>(a, cs). (a, xs @ cs)) (alloc_list req len ys)"
proof (induction xs)
  case Nil
  then show ?case by (cases "alloc_list req len ys") auto
next
  case (Cons x xs)
  then show ?case by (cases "alloc_list req len ys") auto
qed

lemma alloc_list_hit:
  "\<forall>x \<in> set xs. \<not> fits req x \<Longrightarrow> fits req b \<Longrightarrow>
     alloc_list req len (xs @ b # ys) = Some (b_addr b, xs @ carve len b @ ys)"
  by (simp add: alloc_list_skip)

lemma alloc_list_None: "alloc_list req len bs = None \<longleftrightarrow> (\<forall>b \<in> set bs. \<not> fits req b)"
  by (induction bs) auto

lemma alloc_list_SomeE:
  assumes "alloc_list req len bs = Some (a, bs')"
  obtains xs b ys where "bs = xs @ b # ys" "fits req b" "\<forall>x \<in> set xs. \<not> fits req x"
    "a = b_addr b" "bs' = xs @ carve len b @ ys"
proof -
  obtain b where "find (fits req) bs = Some b"
    using assms by (auto simp: alloc_list_find split: option.splits)
  then obtain xs ys where "bs = xs @ b # ys" "fits req b" "\<forall>x \<in> set xs. \<not> fits req x"
    by (rule find_split)
  with assms that show ?thesis by (auto simp: alloc_list_hit)
qed

lemma carve_not_Nil [simp]: "carve len b \<noteq> []"
  by (simp add: carve_def)

lemma first_addr_carve [simp]: "first_addr (carve len b) n = b_addr b"
  by (simp add: carve_def)

section \<open>Page rounding\<close>

lemma div_mod_4096:
  obtains q r where "(n :: nat) = q * 4096 + r" "r < 4096" "n div 4096 = q" "n mod 4096 = r"
proof -
  have "n = n div 4096 * 4096 + n mod 4096" by simp
  moreover have "n mod 4096 < 4096" by simp
  ultimately show thesis using that by blast
qed

lemma page_round_unat:
  assumes "unat len + 4096 \<le> 18446744073709551616"
  shows "unat (page_round 4096 len) = (if unat len mod 4096 = 0 then unat len
           else (unat len div 4096 + 1) * 4096)"
proof (cases "unat len mod 4096 = 0")
  case True
  then have "len mod 4096 = 0" by (simp add: word_eq_unat unat_mod_4096)
  with True show ?thesis by (simp add: page_round_def)
next
  case False
  then have nz: "len mod 4096 \<noteq> 0" by (simp add: word_eq_unat unat_mod_4096)
  obtain q r where qr: "unat len = q * 4096 + r" "r < 4096" "unat len div 4096 = q"
    "unat len mod 4096 = r" by (rule div_mod_4096)
  then have "(unat len div 4096 + 1) * 4096 < 18446744073709551616"
    using False assms by simp
  then have "unat ((len div 4096 + 1) * 4096) = (unat len div 4096 + 1) * 4096"
    by (simp add: unat_word_ariths unat_div_4096)
  with nz False show ?thesis by (simp add: page_round_def)
qed

lemma page_round_bounds:
  assumes "unat len + 4096 \<le> 18446744073709551616"
  shows "unat len \<le> unat (page_round 4096 len)"
    "unat (page_round 4096 len) < unat len + 4096"
    "4096 dvd unat (page_round 4096 len)"
proof -
  obtain q r where qr: "unat len = q * 4096 + r" "r < 4096" "unat len div 4096 = q"
    "unat len mod 4096 = r" by (rule div_mod_4096)
  then have "unat (page_round 4096 len) = (if r = 0 then q * 4096 else (q + 1) * 4096)"
    using page_round_unat [OF assms] by simp
  with qr show "unat len \<le> unat (page_round 4096 len)"
    "unat (page_round 4096 len) < unat len + 4096" "4096 dvd unat (page_round 4096 len)"
    by (auto split: if_splits)
qed

lemma page_round_le:
  assumes "unat len \<le> n" and "4096 dvd n" and "n < 18446744073709551616"
  shows "unat (page_round 4096 len) \<le> n" "unat len + 4096 \<le> 18446744073709551616"
proof -
  obtain k where k: "n = 4096 * k" using assms(2) by (auto elim: dvdE)
  then have "k < 4503599627370496" using assms(3) by simp
  then show small: "unat len + 4096 \<le> 18446744073709551616" using assms(1) k by simp
  obtain j where j: "unat (page_round 4096 len) = 4096 * j"
    using page_round_bounds(3) [OF small] by (auto elim: dvdE)
  have "4096 * j < 4096 * k + 4096"
    using page_round_bounds(2) [OF small] assms(1) k j by simp
  then have "j \<le> k" by simp
  with j k show "unat (page_round 4096 len) \<le> n" by simp
qed

lemma memory_offset_eq: "memory_offset 4096 len = 4096 - len mod 4096"
  by (simp add: memory_offset_def int_truncation_keeps_page_offset)

lemma memory_offset_unat: "unat (memory_offset 4096 len) = 4096 - unat len mod 4096"
proof -
  have "unat (len mod 4096) \<le> unat (4096 :: size_t)"
    by (simp add: unat_mod_4096)
  then show ?thesis
    by (simp add: memory_offset_eq unat_sub_ok unat_mod_4096)
qed

section \<open>What carving keeps\<close>

lemma carve_room:
  assumes "layout a (xs @ b # ys) e" and "e < 18446744073709551616" and "len \<le> b_size b"
  shows "unat (len + sizeof_mallocHeader) = unat len + 8192"
    "len + sizeof_mallocHeader < b_size b \<Longrightarrow>
       unat (b_addr b + (len + sizeof_mallocHeader)) = unat (b_addr b) + unat len + 8192"
    "len + sizeof_mallocHeader < b_size b \<Longrightarrow>
       unat (b_size b - (len + sizeof_mallocHeader)) = unat (b_size b) - (unat len + 8192)"
    "len + sizeof_mallocHeader < b_size b \<Longrightarrow> unat len + 8192 < unat (b_size b)"
proof -
  have end_b: "unat (b_addr b) + 8192 + unat (b_size b) \<le> e"
    using layout_bounds [OF assms(1), of b] by simp
  have le: "unat len \<le> unat (b_size b)" using assms(3) by (simp add: word_le_nat_alt)
  show *: "unat (len + sizeof_mallocHeader) = unat len + 8192"
    using end_b le assms(2) by (simp add: unat_add_ok)
  assume room: "len + sizeof_mallocHeader < b_size b"
  then show "unat len + 8192 < unat (b_size b)"
    using * by (simp add: word_less_nat_alt)
  then show "unat (b_addr b + (len + sizeof_mallocHeader)) = unat (b_addr b) + unat len + 8192"
    using * end_b assms(2) by (simp add: unat_add_ok)
  show "unat (b_size b - (len + sizeof_mallocHeader)) = unat (b_size b) - (unat len + 8192)"
    using * room by (subst unat_sub_ok) (simp_all add: word_less_nat_alt)
qed

lemma carve_layout:
  assumes "layout a (xs @ b # ys) e" and "e < 18446744073709551616" and "len \<le> b_size b"
  shows "layout a (xs @ carve len b @ ys) e"
proof (cases "len + sizeof_mallocHeader < b_size b")
  case True
  note room = carve_room [OF assms]
  have after: "layout x ys e" if "x = a + span xs + 8192 + unat (b_size b)" for x
    using assms(1) that by simp
  have "layout (a + span xs) (carve len b @ ys) e"
    using assms(1) room True by (auto simp: carve_def intro: after)
  then show ?thesis using assms(1) by simp
qed (use assms in \<open>simp add: carve_def\<close>)

lemma carve_pages:
  assumes "layout a (xs @ b # ys) e" and "e < 18446744073709551616" and "len \<le> b_size b"
    and "pages (xs @ b # ys)" and "4096 dvd unat len"
  shows "pages (xs @ carve len b @ ys)"
proof -
  have "4096 dvd unat (b_size b) - (unat len + 8192)"
    using assms(4,5) by (intro dvd_diff_nat) auto
  then show ?thesis
    using assms carve_room(3) [OF assms(1-3)] by (auto simp: carve_def)
qed

lemma carve_coalesced:
  assumes "coalesced (xs @ b # ys)" and "is_free b"
  shows "coalesced (xs @ carve len b @ ys)"
  using assms by (auto simp: carve_def coalesced_append coalesced_Cons)

definition busy :: "blk list \<Rightarrow> nat" where
  "busy bs = length (filter (\<lambda>b. \<not> is_free b) bs)"

lemma busy_simps [simp]:
  "busy [] = 0" "busy (b # bs) = (if is_free b then busy bs else Suc (busy bs))"
  "busy (xs @ ys) = busy xs + busy ys"
  by (simp_all add: busy_def)

lemma busy_carve: "is_free b \<Longrightarrow> busy (xs @ carve len b @ ys) = Suc (busy (xs @ b # ys))"
  by (simp add: carve_def)

lemma busy_absorb: "busy (absorb b ys) = busy (b # ys)"
  by (cases ys) auto

lemma busy_release: "\<not> is_free b \<Longrightarrow> Suc (busy (release xs b ys)) = busy (xs @ b # ys)"
proof (cases "xs = [] \<or> \<not> is_free (last xs)")
  case False
  then have xs: "xs = butlast xs @ [last xs]" by simp
  assume "\<not> is_free b"
  moreover have "busy (release xs b ys) = busy (butlast xs) + busy ys"
    using False by (simp add: release_def unify_prev_def busy_absorb)
  moreover have "busy xs = busy (butlast xs)"
    using False by (subst xs, subst busy_simps) simp
  ultimately show ?thesis by simp
qed (auto simp: release_def unify_prev_def busy_absorb)

section \<open>On the heap\<close>

lemma upd_mm_Some:
  "mmapH (hp s) a = Some h \<Longrightarrow> upd_mm a f s = Some (put_mm a (f h) s)"
  by (simp add: upd_mm_def get_mm_def)

lemma put_mm_sel [simp]:
  "mmapH (hp (put_mm a h s)) = (mmapH (hp s))(a \<mapsto> h)"
  "shared (hp (put_mm a h s)) = shared (hp s)" "mallocH (hp (put_mm a h s)) = mallocH (hp s)"
  "bytes (hp (put_mm a h s)) = bytes (hp s)" "prot (hp (put_mm a h s)) = prot (hp s)"
  "maps (hp (put_mm a h s)) = maps (hp s)" "mtx (put_mm a h s) = mtx s"
  "attrs (put_mm a h s) = attrs s" "self (put_mm a h s) = self s"
  "ticks (put_mm a h s) = ticks s" "messageLevel (put_mm a h s) = messageLevel s"
  "msgs (put_mm a h s) = msgs s"
  by (simp_all add: put_mm_def)

lemma set_prot_sel [simp]:
  "shared (set_prot a v h) = shared h" "mmapH (set_prot a v h) = mmapH h"
  "mallocH (set_prot a v h) = mallocH h" "bytes (set_prot a v h) = bytes h"
  "maps (set_prot a v h) = maps h"
  "prot (set_prot a v h) x = (if in_range a 4096 x then v else prot h x)"
  by (simp_all add: set_prot_def)

lemma mapped_in_region:
  "(m, n) \<in> set (maps (hp s)) \<Longrightarrow> unat m \<le> unat a \<Longrightarrow> unat a + k \<le> unat m + unat n \<Longrightarrow>
     mapped a k s"
  unfolding mapped_def in_region_def list_ex_iff by (intro bexI [of _ "(m, n)"]) auto

lemma seg_relink:
  assumes "seg h m p ys 0" and "distinct (map b_addr ys)" and "q \<notin> b_addr ` set ys"
    and "\<forall>y z. ys = y # z \<longrightarrow> mallocH h' (b_addr y) = map_option (\<lambda>x. x\<lparr>mb_prev := q\<rparr>) (mallocH h (b_addr y))"
    and "\<forall>y \<in> set (tl ys). mallocH h' (b_addr y) = mallocH h (b_addr y)"
  shows "seg h' m q ys 0"
proof (cases ys)
  case (Cons y zs)
  with assms(1) obtain hy where "mallocH h (b_addr y) = Some hy" by (auto elim: holdsE)
  with Cons assms(1,4) have "holds h' m q (first_addr zs 0) y" by (auto simp: holds_def)
  moreover have "seg h' m (b_addr y) zs 0"
    using Cons assms(1,5) by (subst seg_frame [where h = h]) auto
  ultimately show ?thesis using Cons by simp
qed simp

text \<open>
  \<open>within m n s s'\<close>: of the objects in memory, only the mmap header at \<open>m\<close> and malloc headers
  in its region changed (and page rights); the locks are as before.
\<close>

definition within :: "addr \<Rightarrow> size_t \<Rightarrow> state \<Rightarrow> state \<Rightarrow> bool" where
  "within m n s s' \<longleftrightarrow>
     shared (hp s') = shared (hp s) \<and> bytes (hp s') = bytes (hp s) \<and>
     maps (hp s') = maps (hp s) \<and> mtx s' = mtx s \<and> attrs s' = attrs s \<and>
     self s' = self s \<and> messageLevel s' = messageLevel s \<and>
     (\<forall>x. x \<noteq> m \<longrightarrow> mmapH (hp s') x = mmapH (hp s) x) \<and>
     (\<forall>x. \<not> in_range m n x \<longrightarrow> mallocH (hp s') x = mallocH (hp s) x)"

definition carved ::
    "addr \<Rightarrow> VGC_mmapHeader \<Rightarrow> addr \<Rightarrow> VGC_mallocHeader \<Rightarrow> size_t \<Rightarrow> addr \<Rightarrow> addr \<Rightarrow> VGC_mallocHeader
     \<Rightarrow> state \<Rightarrow> state" where
  "carved m mm a hb len nxt z hz t =
     (let s = put_mm m (mm\<lparr>mm_elements := mm_elements mm + 1\<rparr>) t;
          hb1 = hb\<lparr>mb_mmapBlock := m, mb_size := len, mb_status := VGC_MALLOC_BUSY, mb_next := nxt\<rparr>;
          s = put_mb a hb1 s;
          s = (if z = 0 then s else put_mb z (hz\<lparr>mb_prev := nxt\<rparr>) s)
      in put_mb a (hb1\<lparr>mb_checkStart := 0xAA, mb_checkEnd := 0xAA\<rparr>) s)"

lemma carved_sel [simp]:
  "mmapH (hp (carved m mm a hb len nxt z hz t)) =
     (mmapH (hp t))(m \<mapsto> mm\<lparr>mm_elements := mm_elements mm + 1\<rparr>)"
  "z \<noteq> a \<Longrightarrow> mallocH (hp (carved m mm a hb len nxt z hz t)) =
     (if z = 0 then mallocH (hp t) else (mallocH (hp t))(z \<mapsto> hz\<lparr>mb_prev := nxt\<rparr>))
       (a \<mapsto> hb\<lparr>mb_mmapBlock := m, mb_size := len, mb_status := VGC_MALLOC_BUSY, mb_next := nxt,
                 mb_checkStart := 0xAA, mb_checkEnd := 0xAA\<rparr>)"
  "shared (hp (carved m mm a hb len nxt z hz t)) = shared (hp t)"
  "bytes (hp (carved m mm a hb len nxt z hz t)) = bytes (hp t)"
  "prot (hp (carved m mm a hb len nxt z hz t)) = prot (hp t)"
  "maps (hp (carved m mm a hb len nxt z hz t)) = maps (hp t)"
  "mtx (carved m mm a hb len nxt z hz t) = mtx t"
  "attrs (carved m mm a hb len nxt z hz t) = attrs t"
  "self (carved m mm a hb len nxt z hz t) = self t"
  "messageLevel (carved m mm a hb len nxt z hz t) = messageLevel t"
  by (auto simp: carved_def Let_def fun_eq_iff)

text \<open>The second half of \<^verbatim>\<open>carveBlock\<close>, once the following block is known.\<close>

lemma carve_finish:
  assumes mm: "mmapH (hp t) m = Some mm" and hb: "mallocH (hp t) a = Some hb"
    and nx: "rs = [] \<longleftrightarrow> nxt = 0" "rs \<noteq> [] \<Longrightarrow> nxt = b_addr (hd rs)"
    and hr: "rs \<noteq> [] \<Longrightarrow> mallocH (hp t) nxt = Some hr" "rs \<noteq> [] \<Longrightarrow> mb_next hr = first_addr (tl rs) 0"
    and hz: "tl rs \<noteq> [] \<Longrightarrow> mallocH (hp t) (first_addr (tl rs) 0) = Some hz"
      "tl rs \<noteq> [] \<Longrightarrow> first_addr (tl rs) 0 \<noteq> 0"
    and ne: "a \<noteq> nxt" "first_addr (tl rs) 0 \<noteq> a" "nxt \<noteq> first_addr (tl rs) 0 \<or> rs = []"
  shows "takeBlock m a nxt len t =
   Some (carved m mm a hb len nxt (first_addr (tl rs) 0) hz t)"
proof (cases "rs = []")
  case True
  with assms show ?thesis by (simp add: upd_mm_Some upd_mb_Some takeBlock_def carved_def Let_def)
next
  case False
  then have n0: "nxt \<noteq> 0" and hr': "mallocH (hp t) nxt = Some hr" "mb_next hr = first_addr (tl rs) 0"
    using nx hr by auto
  show ?thesis
  proof (cases "tl rs = []")
    case True
    with n0 hr' mm hb ne show ?thesis by (simp add: upd_mm_Some upd_mb_Some get_mb_def takeBlock_def carved_def Let_def)
  next
    case False
    with n0 hr' mm hb ne hz show ?thesis
      by (simp add: upd_mm_Some upd_mb_Some get_mb_def takeBlock_def carved_def Let_def)
  qed
qed

text \<open>What a block and its two successors hold, and that they are different.\<close>

lemma carve_neighbours:
  assumes seg: "seg h m 0 (xs @ b # ys) 0" and lay: "layout a (xs @ b # ys) e" and "0 < a"
  obtains hb hy hz where
    "mallocH h (b_addr b) = Some hb" "mb_size hb = b_size b" "mb_next hb = first_addr ys 0" "mb_prev hb = last_addr 0 xs"
    and "ys \<noteq> [] \<longrightarrow> mallocH h (first_addr ys 0) = Some hy \<and> mb_next hy = first_addr (tl ys) 0"
    and "tl ys \<noteq> [] \<longrightarrow> mallocH h (first_addr (tl ys) 0) = Some hz \<and> mb_prev hz = first_addr ys 0"
    and "first_addr (tl ys) 0 \<noteq> b_addr b" "b_addr b \<notin> b_addr ` set xs" "b_addr b \<notin> b_addr ` set ys"
proof -
  have d: "distinct (map b_addr (xs @ b # ys))" using lay by (rule layout_distinct)
  have nz: "b_addr c \<noteq> 0" if "c \<in> set (xs @ b # ys)" for c
    using layout_nonzero [OF lay assms(3) that] .
  obtain hb where "mallocH h (b_addr b) = Some hb" "mb_size hb = b_size b"
    "mb_next hb = first_addr ys 0" "mb_prev hb = last_addr 0 xs"
    using seg by (auto elim: holdsE)
  moreover obtain hy where "ys \<noteq> [] \<longrightarrow> mallocH h (first_addr ys 0) = Some hy \<and>
      mb_next hy = first_addr (tl ys) 0"
    using seg by (cases ys) (auto elim: holdsE)
  moreover obtain hz where "tl ys \<noteq> [] \<longrightarrow> mallocH h (first_addr (tl ys) 0) = Some hz \<and>
      mb_prev hz = first_addr ys 0"
    using seg by (cases ys; cases "tl ys") (auto elim: holdsE)
  moreover have "first_addr (tl ys) 0 \<noteq> b_addr b"
    using d nz by (cases ys; cases "tl ys") auto
  ultimately show thesis using d by (intro that [of hb hy hz]) auto
qed

lemma carve_in_range:
  assumes "layout (unat m + 4096) (xs @ b # ys) (unat m + unat n)" and "c \<in> set (xs @ b # ys)"
  shows "in_range m n (b_addr c)" and "b_addr c \<noteq> 0"
  using layout_bounds [OF assms] layout_nonzero [OF assms(1) _ assms(2)] by (simp_all add: in_range_def)

text \<open>The whole block is taken: only its own header changes.\<close>

lemma carve_whole:
  assumes seg: "seg (hp s) m 0 (xs @ b # ys) 0"
    and lay: "layout (unat m + 4096) (xs @ b # ys) (unat m + unat n)"
    and mm: "mmapH (hp s) m = Some mm" and whole: "\<not> len + sizeof_mallocHeader < b_size b"
  shows "\<exists>s'. carveBlock E m (b_addr b) len s = Some s' \<and>
      seg (hp s') m 0 (xs @ carve len b @ ys) 0 \<and> within m n s s' \<and>
      mmapH (hp s') m = Some (mm\<lparr>mm_elements := mm_elements mm + 1\<rparr>) \<and> prot (hp s') = prot (hp s)"
proof -
  have d: "distinct (map b_addr (xs @ b # ys))" using lay by (rule layout_distinct)
  obtain hb hy hz where hb: "mallocH (hp s) (b_addr b) = Some hb" "mb_size hb = b_size b"
      "mb_next hb = first_addr ys 0" "mb_prev hb = last_addr 0 xs"
    and hy: "ys \<noteq> [] \<longrightarrow> mallocH (hp s) (first_addr ys 0) = Some hy \<and> mb_next hy = first_addr (tl ys) 0"
    and hz: "tl ys \<noteq> [] \<longrightarrow> mallocH (hp s) (first_addr (tl ys) 0) = Some hz \<and> mb_prev hz = first_addr ys 0"
    and ne: "first_addr (tl ys) 0 \<noteq> b_addr b" "b_addr b \<notin> b_addr ` set xs" "b_addr b \<notin> b_addr ` set ys"
    using carve_neighbours [OF seg lay] by auto
  let ?s = "carved m mm (b_addr b) hb (mb_size hb) (mb_next hb) (first_addr (tl ys) 0) hz s"
  have "takeBlock m (b_addr b) (mb_next hb) (mb_size hb) s = Some ?s"
    using hb hy hz carve_in_range(2) [OF lay] ne d
    by (intro carve_finish [where hr = hy and rs = ys] mm) (cases ys; cases "tl ys"; auto)+
  then have "carveBlock E m (b_addr b) len s = Some ?s"
    using whole hb by (simp add: carveBlock_def get_mb_def)
  moreover have mH: "mallocH (hp ?s) = (mallocH (hp s))(b_addr b \<mapsto>
      hb\<lparr>mb_mmapBlock := m, mb_size := mb_size hb, mb_status := VGC_MALLOC_BUSY,
         mb_next := mb_next hb, mb_checkStart := 0xAA, mb_checkEnd := 0xAA\<rparr>)"
  proof (cases "tl ys = []")
    case False
    with hz hb have "hz\<lparr>mb_prev := mb_next hb\<rparr> = hz" by (cases hz) simp
    with False hz ne show ?thesis by (auto simp: fun_eq_iff)
  qed (use ne in simp)
  then have out: "\<forall>x. x \<notin> {b_addr b} \<longrightarrow> mallocH (hp ?s) x = mallocH (hp s) x" by simp
  moreover have "seg (hp ?s) m 0 (xs @ carve len b @ ys) 0"
    using seg ne seg_outside [OF out] mH hb whole by (auto simp: carve_def holds_def)
  moreover have "within m n s ?s"
    using carve_in_range(1) [OF lay, of b] mH by (auto simp: within_def)
  ultimately show ?thesis by (intro exI [of _ ?s]) simp
qed

text \<open>The header of the rest lies inside the chunk and on none of the chain.\<close>

lemma carve_rest:
  assumes lay: "layout (unat m + 4096) (xs @ b # ys) (unat m + unat n)"
    and top: "unat m + unat n < 18446744073709551616"
    and pg: "pages (xs @ b # ys)" "4096 dvd unat m" "4096 dvd unat len"
    and reg: "(m, n) \<in> set (maps (hp s))"
    and len: "len \<le> b_size b" and split: "len + sizeof_mallocHeader < b_size b"
  defines "N \<equiv> b_addr b + (len + sizeof_mallocHeader)"
  shows "N \<noteq> 0" "N \<noteq> b_addr b" "N \<notin> b_addr ` set xs" "N \<notin> b_addr ` set ys" "in_range m n N"
    and "mapped N 8192 s" "mapped N 4096 s" "4096 dvd unat N"
proof -
  note room = carve_room [OF lay top len]
  have end_b: "unat (b_addr b) + 8192 + unat (b_size b) \<le> unat m + unat n"
    and start_b: "unat m + 4096 \<le> unat (b_addr b)"
    using layout_bounds [OF lay, of b] by simp_all
  have N: "unat N = unat (b_addr b) + unat len + 8192" "unat len + 8192 < unat (b_size b)"
    using room split unfolding N_def by blast+
  have N8: "unat N + 8192 \<le> unat m + unat n" using N end_b by simp
  show "N \<noteq> 0" "N \<noteq> b_addr b" using N by (auto simp: word_eq_unat)
  show "N \<notin> b_addr ` set xs" using layout_before [OF lay] N by (fastforce simp: word_eq_unat)
  show "N \<notin> b_addr ` set ys" using layout_after [OF lay] N by (fastforce simp: word_eq_unat)
  show "in_range m n N" using N N8 start_b by (simp add: in_range_def)
  show "mapped N 8192 s" "mapped N 4096 s"
    using mapped_in_region [OF reg, of N] N N8 start_b by simp_all
  have "4096 dvd unat (b_addr b)" using layout_aligned [OF lay pg(1), of b] pg(2) by simp
  then show "4096 dvd unat N" using N pg(3) by simp
qed

text \<open>The chain after the split: the two halves, and the next block's back link moved to the rest.\<close>

lemma carve_split_seg:
  assumes seg: "seg h m 0 (xs @ b # ys) 0" and d: "distinct (map b_addr (xs @ b # ys))"
    and nz: "\<forall>c \<in> set (xs @ b # ys). b_addr c \<noteq> 0"
    and N: "N \<noteq> 0" "N \<noteq> b_addr b" "N \<notin> b_addr ` set xs" "N \<notin> b_addr ` set ys"
    and hb: "mallocH h (b_addr b) = Some hb" "mb_prev hb = last_addr 0 xs"
    and hy: "ys \<noteq> [] \<longrightarrow> mallocH h (first_addr ys 0) = Some hy"
    and nh: "mb_mmapBlock nh = m" "mb_size nh = b_size nb" "mb_status nh = b_status nb" "mb_prev nh = b_addr b"
      "mb_next nh = first_addr ys 0" "mb_checkStart nh = 0xAA" "mb_checkEnd nh = 0xAA" and nb: "b_addr nb = N"
    and h': "mallocH h' = (if ys = [] then (mallocH h)(N \<mapsto> nh)
        else (mallocH h)(N \<mapsto> nh, first_addr ys 0 \<mapsto> hy\<lparr>mb_prev := N\<rparr>))
       (b_addr b \<mapsto> hb\<lparr>mb_mmapBlock := m, mb_size := len, mb_status := VGC_MALLOC_BUSY,
          mb_next := N, mb_checkStart := 0xAA, mb_checkEnd := 0xAA\<rparr>)"
  shows "seg h' m 0 (xs @ b\<lparr>b_size := len, b_status := VGC_MALLOC_BUSY\<rparr> # nb # ys) 0"
proof -
  let ?A = "{b_addr b, N, first_addr ys 0}"
  have bx: "b_addr b \<notin> b_addr ` set xs" and bys: "b_addr b \<notin> b_addr ` set ys" using d by auto
  have z: "first_addr ys 0 \<noteq> b_addr b" "first_addr ys 0 \<noteq> N" "first_addr ys 0 \<notin> b_addr ` set xs"
    using d nz N by (cases ys; auto)+
  have out: "\<forall>x. x \<notin> ?A \<longrightarrow> mallocH h' x = mallocH h x" by (simp add: h')
  have "seg h' m 0 xs (b_addr b)" using seg_outside [OF out] seg bx N(3) z(3) by simp
  moreover have "holds h' m (last_addr 0 xs) N (b\<lparr>b_size := len, b_status := VGC_MALLOC_BUSY\<rparr>)"
    using h' hb by (simp add: holds_def)
  moreover have "holds h' m (b_addr b) (first_addr ys 0) nb"
    using h' z N(2) nh nb by (simp add: holds_def)
  moreover have "seg h' m N ys 0"
  proof (cases ys)
    case (Cons y zs)
    have d': "b_addr b \<notin> b_addr ` set zs" "N \<notin> b_addr ` set zs" "b_addr y \<notin> b_addr ` set zs"
      "b_addr y \<noteq> b_addr b" "b_addr y \<noteq> N" using Cons d N z bys by auto
    have y: "holds h m (b_addr b) (first_addr zs 0) y" and sz: "seg h m (b_addr y) zs 0"
      using seg Cons by simp_all
    have "holds h' m N (first_addr zs 0) y"
      using y hy d'(4,5) Cons by (simp add: holds_def h')
    moreover have "seg h' m (b_addr y) zs 0"
      by (rule iffD2 [OF seg_outside [where h = h and A = ?A] sz]) (use out Cons d' in auto)
    ultimately show ?thesis using Cons by simp
  qed simp
  ultimately show ?thesis using nb by simp
qed

lemma carve_split:
  assumes E: "reliable E" and seg: "seg (hp s) m 0 (xs @ b # ys) 0"
    and lay: "layout (unat m + 4096) (xs @ b # ys) (unat m + unat n)"
    and top: "unat m + unat n < 18446744073709551616"
    and pg: "pages (xs @ b # ys)" "4096 dvd unat m" "4096 dvd unat len"
    and ps: "sh_pageSize (shared (hp s)) = 4096"
    and reg: "(m, n) \<in> set (maps (hp s))" and mm: "mmapH (hp s) m = Some mm"
    and len: "len \<le> b_size b" and split: "len + sizeof_mallocHeader < b_size b"
  shows "\<exists>s'. carveBlock E m (b_addr b) len s = Some s' \<and>
      seg (hp s') m 0 (xs @ carve len b @ ys) 0 \<and> within m n s s' \<and>
      mmapH (hp s') m = Some (mm\<lparr>mm_elements := mm_elements mm + 1\<rparr>) \<and>
      prot (hp s') = prot (set_prot (b_addr b + (len + sizeof_mallocHeader)) True (hp s))"
proof -
  have d: "distinct (map b_addr (xs @ b # ys))" using lay by (rule layout_distinct)
  note inr = carve_in_range(1) [OF lay] and nz = carve_in_range(2) [OF lay]
  obtain hb hy where hb: "mallocH (hp s) (b_addr b) = Some hb" "mb_size hb = b_size b"
      "mb_next hb = first_addr ys 0" "mb_prev hb = last_addr 0 xs"
    and hy: "ys \<noteq> [] \<longrightarrow> mallocH (hp s) (first_addr ys 0) = Some hy \<and> mb_next hy = first_addr (tl ys) 0"
    and bys: "b_addr b \<notin> b_addr ` set ys"
    by (rule carve_neighbours [OF seg lay]) (simp, (rule that; assumption))
  let ?N = "b_addr b + (len + sizeof_mallocHeader)"
  let ?nb = "\<lparr>b_addr = ?N, b_size = b_size b - (len + sizeof_mallocHeader), b_status = VGC_MALLOC_FREE\<rparr>"
  note N = carve_rest [OF lay top pg reg len split]
  obtain n0 where n0: "cast_mb ?N s = Some n0" using N(6) by (simp add: cast_mb_def)
  define nh where "nh = n0\<lparr>mb_mmapBlock := m, mb_size := b_size b - (len + sizeof_mallocHeader),
    mb_status := VGC_MALLOC_FREE, mb_prev := b_addr b, mb_next := first_addr ys 0,
    mb_checkStart := 0xAA, mb_checkEnd := 0xAA\<rparr>"
  define t where "t = (put_mb ?N nh s)\<lparr>ticks := Suc (ticks s),
    hp := set_prot ?N True (hp (put_mb ?N nh s))\<rparr>"
  have "mapped ?N 4096 (put_mb ?N nh s)" using N(7) by (simp add: mapped_def)
  then have t: "VGC_mprotect E ?N (put_mb ?N nh s) = (True, t)"
    using VGC_mprotect_ok [OF E N(8)] ps by (simp add: t_def)
  have th: "mallocH (hp t) = (mallocH (hp s))(?N \<mapsto> nh)" "mmapH (hp t) = mmapH (hp s)"
    "prot (hp t) = prot (set_prot ?N True (hp s))"
    by (simp_all add: t_def fun_eq_iff)
  let ?s = "carved m mm (b_addr b) hb len ?N (first_addr ys 0) hy t"
  have "takeBlock m (b_addr b) ?N len t = Some ?s"
    using hb hy nz N(1,2,4) bys
    by (intro carve_finish [where hr = nh and rs = "?nb # ys", simplified])
       (auto simp: th mm nh_def first_addr_def split: list.splits)
  then have run: "carveBlock E m (b_addr b) len s = Some ?s"
    using split hb n0 t by (simp add: carveBlock_def get_mb_def Let_def nh_def)
  have "first_addr ys 0 \<noteq> b_addr b" "first_addr ys 0 = 0 \<longleftrightarrow> ys = []"
    using bys nz by (auto simp: first_addr_def split: list.splits)
  then have mH: "mallocH (hp ?s) = (if ys = [] then (mallocH (hp s))(?N \<mapsto> nh)
        else (mallocH (hp s))(?N \<mapsto> nh, first_addr ys 0 \<mapsto> hy\<lparr>mb_prev := ?N\<rparr>))
       (b_addr b \<mapsto> hb\<lparr>mb_mmapBlock := m, mb_size := len, mb_status := VGC_MALLOC_BUSY,
          mb_next := ?N, mb_checkStart := 0xAA, mb_checkEnd := 0xAA\<rparr>)"
    by (simp add: th)
  have "seg (hp ?s) m 0 (xs @ b\<lparr>b_size := len, b_status := VGC_MALLOC_BUSY\<rparr> # ?nb # ys) 0"
    by (rule carve_split_seg [OF seg d _ N(1-4) hb(1,4) _ _ _ _ _ _ _ _ _ mH]) (use nz hy in \<open>auto simp: nh_def\<close>)
  then have "seg (hp ?s) m 0 (xs @ carve len b @ ys) 0" using split by (simp add: carve_def)
  moreover have "ys \<noteq> [] \<Longrightarrow> in_range m n (first_addr ys 0)" using inr by (cases ys) auto
  then have "within m n s ?s" using inr [of b] N(5) mH th by (auto simp: within_def t_def)
  ultimately show ?thesis using run by (intro exI [of _ ?s]) (simp add: th)
qed

lemma carveBlock_seg:
  assumes E: "reliable E" and seg: "seg (hp s) m 0 (xs @ b # ys) 0"
    and lay: "layout (unat m + 4096) (xs @ b # ys) (unat m + unat n)"
    and top: "unat m + unat n < 18446744073709551616"
    and pg: "pages (xs @ b # ys)" "4096 dvd unat m" "4096 dvd unat len"
    and ps: "sh_pageSize (shared (hp s)) = 4096"
    and reg: "(m, n) \<in> set (maps (hp s))" and mm: "mmapH (hp s) m = Some mm"
    and len: "len \<le> b_size b"
  shows "\<exists>s'. carveBlock E m (b_addr b) len s = Some s' \<and>
      seg (hp s') m 0 (xs @ carve len b @ ys) 0 \<and> within m n s s' \<and>
      mmapH (hp s') m = Some (mm\<lparr>mm_elements := mm_elements mm + 1\<rparr>) \<and>
      prot (hp s') = (if len + sizeof_mallocHeader < b_size b
        then prot (set_prot (b_addr b + (len + sizeof_mallocHeader)) True (hp s))
        else prot (hp s))"
  using carve_split [OF assms] carve_whole [OF seg lay mm]
  by (cases "len + sizeof_mallocHeader < b_size b") simp_all

end
