(* ===== verification/Interfaces.thy ===== *)
theory Interfaces
  imports VGC_State
begin

text \<open>
  The interfaces inside the library, as locales: what an operation leaves alone, a lock that
  guards an invariant, which every entry point takes and gives back, and an allocator, on which
  \<^verbatim>\<open>vgc_calloc\<close> is built. The interpretations on the code's own operations are in the theories
  that provide them.
\<close>

section \<open>What an operation leaves alone\<close>

text \<open>
  \<open>rel s t\<close>: what the frame protects is in \<open>t\<close> as it was in \<open>s\<close>. The operations that stay
  within a frame can be chained, folded over a list and run one after the other.
\<close>

locale frame =
  fixes rel :: "'s \<Rightarrow> 's \<Rightarrow> bool"
  assumes same: "rel s s" and then_rel: "rel s t \<Longrightarrow> rel t u \<Longrightarrow> rel s u"
begin

lemma fold_step: "(\<And>x t. x \<in> set xs \<Longrightarrow> rel t (f x t)) \<Longrightarrow> rel s (fold f xs s)"
proof (induction xs arbitrary: s)
  case Nil
  show ?case by (simp add: same)
next
  case (Cons x xs)
  have "rel s (f x s)" and "rel (f x s) (fold f xs (f x s))"
    using Cons.prems Cons.IH by simp_all
  then show ?case using then_rel by simp
qed

end

text \<open>A frame that protects all an invariant speaks of.\<close>

locale protecting = frame +
  fixes inv :: "'s \<Rightarrow> 'a \<Rightarrow> bool"
  assumes carries: "rel s t \<Longrightarrow> inv s x \<Longrightarrow> inv t x"
begin

lemma runs_carry: "rel s t \<Longrightarrow> rel t u \<Longrightarrow> inv s x \<Longrightarrow> inv u x"
  using then_rel carries by blast

lemma fold_carries:
  "(\<And>x t. x \<in> set xs \<Longrightarrow> rel t (f x t)) \<Longrightarrow> inv s y \<Longrightarrow> inv (fold f xs s) y"
  using fold_step carries by blast

end

section \<open>A lock that guards an invariant\<close>

text \<open>
  \<open>open_inv s x\<close>: the lock is free and what it guards is in the abstract state \<open>x\<close>;
  \<open>held_inv s x\<close>: the same, with the lock held by the calling thread.
\<close>

locale guarded =
  fixes good :: "'e \<Rightarrow> bool"
    and lock :: "'e \<Rightarrow> 's \<Rightarrow> (bool \<times> 's) option"
    and unlock :: "'e \<Rightarrow> 's \<Rightarrow> 's option"
    and open_inv :: "'s \<Rightarrow> 'a \<Rightarrow> bool"
    and held_inv :: "'s \<Rightarrow> 'a \<Rightarrow> bool"
  assumes lock_law: "good E \<Longrightarrow> open_inv s x \<Longrightarrow> \<exists>t. lock E s = Some (True, t) \<and> held_inv t x"
    and unlock_law: "good E \<Longrightarrow> held_inv t x \<Longrightarrow> \<exists>s. unlock E t = Some s \<and> open_inv s x"
begin

text \<open>
  A critical section returns and re-establishes the invariant when its body does so under the
  lock, whatever it does if the lock is refused. What the body establishes besides (\<open>P\<close>) is
  known of the state the lock is given back in.
\<close>

lemma critical_section:
  assumes "good E" and "open_inv s x"
    and "\<And>t. lock E s = Some (True, t) \<Longrightarrow> held_inv t x \<Longrightarrow>
      \<exists>r u y. body t = Some (r, u) \<and> held_inv u y \<and> P t r u y"
  shows "\<exists>r t u y s'. (do {
       (ok, s) \<leftarrow> lock E s;
       if \<not> ok then refused s
       else do { (r, s) \<leftarrow> body s; s \<leftarrow> unlock E s; Some (r, s) } }) = Some (r, s') \<and> open_inv s' y \<and>
     lock E s = Some (True, t) \<and> P t r u y \<and> unlock E u = Some s'"
proof -
  obtain t where t: "lock E s = Some (True, t)" "held_inv t x" using lock_law assms(1,2) by blast
  obtain r u y where u: "body t = Some (r, u)" "held_inv u y" "P t r u y" using assms(3) [OF t] by blast
  obtain s' where "unlock E u = Some s'" "open_inv s' y" using unlock_law assms(1) u(2) by blast
  with t u show ?thesis by auto
qed

text \<open>The lock can be taken again after a section: no section leaves it behind.\<close>

lemma relock:
  assumes "good E" and "held_inv t x"
  shows "\<exists>s u. unlock E t = Some s \<and> lock E s = Some (True, u) \<and> held_inv u x"
  using unlock_law [OF assms] lock_law [OF assms(1)] by blast

end

section \<open>An allocator\<close>

locale allocator =
  fixes good :: "'e \<Rightarrow> bool" and inv :: "state \<Rightarrow> bool" and proper :: "size_t \<Rightarrow> bool"
    and malloc :: "'e \<Rightarrow> size_t \<Rightarrow> state \<Rightarrow> (addr \<times> state) option"
  assumes malloc_returns: "good E \<Longrightarrow> inv s \<Longrightarrow> \<exists>p s'. malloc E n s = Some (p, s') \<and> inv s'"
    and malloc_access: "good E \<Longrightarrow> inv s \<Longrightarrow> malloc E n s = Some (p, s') \<Longrightarrow> p \<noteq> 0 \<Longrightarrow> proper n \<Longrightarrow>
      access_ok p (unat n) s'"
    and writes_keep: "inv s \<Longrightarrow> inv (s\<lparr>hp := (hp s)\<lparr>bytes := f\<rparr>\<rparr>)"
begin

text \<open>Memory that is cleared after it was handed out.\<close>

lemma cleared:
  assumes "good E" and "inv s" and "proper n"
  shows "\<exists>p s'. (do {
       (p, s) \<leftarrow> malloc E n s;
       if p = 0 then Some (0, s) else do { s \<leftarrow> memset p v n s; Some (p, s) } }) = Some (p, s') \<and> inv s' \<and>
     (p \<noteq> 0 \<longrightarrow> (\<forall>i < unat n. bytes (hp s') (p + of_nat i) = v))"
proof -
  obtain p t where t: "malloc E n s = Some (p, t)" "inv t" using malloc_returns assms(1,2) by blast
  show ?thesis
  proof (cases "p = 0")
    case False
    let ?u = "t\<lparr>hp := (hp t)\<lparr>bytes := (\<lambda>x. if x - p < n then v else bytes (hp t) x)\<rparr>\<rparr>"
    have "access_ok p (unat n) t" using malloc_access [OF assms(1,2) t(1) False assms(3)] .
    then have "memset p v n t = Some ?u" by (simp add: memset_def)
    moreover have "of_nat i < n" if "i < unat n" for i
    proof -
      have "unat (of_nat i :: size_t) = i" using that unat_lt64 [of n] by (intro unat_of_nat_ok) linarith
      with that show ?thesis by (simp add: word_less_nat_alt)
    qed
    ultimately show ?thesis
      using t writes_keep [OF t(2)] False by simp
  qed (use t in simp)
qed

end

end
