(* ===== verification/Chunks.thy ===== *)
theory Chunks
  imports Carve Interfaces
begin

text \<open>
  The abstract state of the allocator, a list of chunks (one per mmap block, each with its
  list of blocks), and \<open>heap_ok\<close>, the invariant that says a state holds such a list: the headers
  carry the right values, the mmap blocks form a doubly linked chain starting at
  \<open>mmapBlockFirst\<close>, their regions are mapped and apart, no lock is held, and no page is
  protected but guard pages of present blocks.
\<close>

section \<open>Chunks\<close>

record chunk =
  c_addr :: addr
  c_size :: size_t
  c_blks :: "blk list"

abbreviation with_blks :: "chunk \<Rightarrow> blk list \<Rightarrow> chunk" where
  "with_blks c bs \<equiv> c\<lparr>c_blks := bs\<rparr>"

definition chunk_hdr :: "addr \<Rightarrow> addr \<Rightarrow> chunk \<Rightarrow> VGC_mmapHeader" where
  "chunk_hdr p n c = \<lparr>mm_checkStart = 0xAA, mm_size = c_size c,
     mm_maxSize = c_size c - sizeof_mmapHeader - sizeof_mallocHeader, mm_free = 0,
     mm_elements = of_nat (busy (c_blks c)), mm_prev = p, mm_next = n, mm_checkEnd = 0xAA\<rparr>"

definition chunk_shape :: "chunk \<Rightarrow> bool" where
  "chunk_shape c \<longleftrightarrow> c_addr c \<noteq> 0 \<and> 4096 dvd unat (c_addr c) \<and>
     unat (c_addr c) + unat (c_size c) \<le> 2 ^ 47 \<and> unat (c_size c) \<le> 32768000 \<and>
     c_blks c \<noteq> [] \<and>
     layout (unat (c_addr c) + 4096) (c_blks c) (unat (c_addr c) + unat (c_size c)) \<and>
     pages (c_blks c) \<and> coalesced (c_blks c)"

text \<open>Only guard pages of the chunk's blocks are protected.\<close>

definition guards_only :: "heap \<Rightarrow> chunk \<Rightarrow> bool" where
  "guards_only h c \<longleftrightarrow> (\<forall>x. in_range (c_addr c) (c_size c) x \<and> prot h x \<longrightarrow>
     (\<exists>b \<in> set (c_blks c). in_range (b_addr b) 4096 x))"

abbreviation free_mutex :: pmutex where
  "free_mutex \<equiv> \<lparr>pm_attr = vgc_pattr, pm_lock = Unlocked\<rparr>"

text \<open>\<open>chunk_mem\<close> is the part of the invariant that speaks of memory, \<open>chunk_ok\<close> adds the lock.\<close>

definition chunk_mem :: "heap \<Rightarrow> addr \<Rightarrow> addr \<Rightarrow> chunk \<Rightarrow> bool" where
  "chunk_mem h p n c \<longleftrightarrow> chunk_shape c \<and>
     mmapH h (c_addr c) = Some (chunk_hdr p n c) \<and>
     seg h (c_addr c) 0 (c_blks c) 0 \<and>
     (c_addr c, c_size c) \<in> set (maps h) \<and> guards_only h c"

definition chunk_ok :: "state \<Rightarrow> addr \<Rightarrow> addr \<Rightarrow> chunk \<Rightarrow> bool" where
  "chunk_ok s p n c \<longleftrightarrow> chunk_mem (hp s) p n c \<and>
     mtx s (MBlock (c_addr c)) = free_mutex \<and> attrs s (MBlock (c_addr c)) = Some vgc_pattr"

definition first_chunk :: "chunk list \<Rightarrow> addr \<Rightarrow> addr" where
  "first_chunk cs n = (case cs of [] \<Rightarrow> n | c # _ \<Rightarrow> c_addr c)"

definition last_chunk :: "addr \<Rightarrow> chunk list \<Rightarrow> addr" where
  "last_chunk p cs = (if cs = [] then p else c_addr (last cs))"

fun chain :: "state \<Rightarrow> addr \<Rightarrow> chunk list \<Rightarrow> addr \<Rightarrow> bool" where
  "chain s p [] n = True"
| "chain s p (c # cs) n \<longleftrightarrow> chunk_ok s p (first_chunk cs n) c \<and> chain s (c_addr c) cs n"

definition apart :: "chunk \<Rightarrow> chunk \<Rightarrow> bool" where
  "apart c d \<longleftrightarrow> disjoint_regions (c_addr c, c_size c) (c_addr d, c_size d)"

definition cfg :: "state \<Rightarrow> bool" where
  "cfg s \<longleftrightarrow> sh_pageSize (shared (hp s)) = VGC_MALLOC_SYSTEM_PAGE_SIZE \<and>
     sh_mmapBlockSize (shared (hp s)) = VGC_MALLOC_MMAP_PAGES * VGC_MALLOC_SYSTEM_PAGE_SIZE \<and>
     sh_isMprotectEnabled (shared (hp s))"

definition heap_ok :: "state \<Rightarrow> chunk list \<Rightarrow> bool" where
  "heap_ok s cs \<longleftrightarrow> cfg s \<and> sh_mmapBlockFirst (shared (hp s)) = first_chunk cs 0 \<and>
     sh_mmapBlockCount (shared (hp s)) = int (length cs) \<and>
     chain s 0 cs 0 \<and> sorted_wrt apart cs \<and>
     mtx s MShared = free_mutex \<and> attrs s MShared = Some vgc_pattr"

section \<open>Lists of chunks\<close>

lemma first_chunk_simps [simp]:
  "first_chunk [] n = n" "first_chunk (c # cs) n = c_addr c"
  by (simp_all add: first_chunk_def)

lemma first_chunk_append [simp]: "first_chunk (xs @ ys) n = first_chunk xs (first_chunk ys n)"
  by (cases xs) simp_all

lemma last_chunk_simps [simp]:
  "last_chunk p [] = p" "last_chunk p (cs @ [c]) = c_addr c"
  "last_chunk p (c # cs) = last_chunk (c_addr c) cs"
  by (auto simp: last_chunk_def)

lemma last_chunk_append [simp]: "last_chunk p (xs @ ys) = last_chunk (last_chunk p xs) ys"
  by (auto simp: last_chunk_def)

lemma chain_append [simp]:
  "chain s p (xs @ ys) n \<longleftrightarrow> chain s p xs (first_chunk ys n) \<and> chain s (last_chunk p xs) ys n"
  by (induction xs arbitrary: p) auto

lemma apart_sym: "apart c d \<Longrightarrow> apart d c"
  by (auto simp: apart_def disjoint_regions_def)

lemma apart_blks [simp]:
  "apart (with_blks c bs) d = apart c d" "apart d (with_blks c bs) = apart d c"
  by (simp_all add: apart_def)

lemma sorted_wrt_apart_with_blks [simp]:
  "sorted_wrt apart (xs @ with_blks c bs # ys) = sorted_wrt apart (xs @ c # ys)"
  by (simp add: sorted_wrt_append)

lemma sorted_wrt_drop:
  "sorted_wrt P (xs @ y # zs) \<Longrightarrow> sorted_wrt P (xs @ zs)"
  by (simp add: sorted_wrt_append)

lemma apart_others:
  "sorted_wrt apart (xs @ c # ys) \<Longrightarrow> d \<in> set xs \<union> set ys \<Longrightarrow> apart c d"
  by (auto simp: sorted_wrt_append intro: apart_sym)

section \<open>What leaves a chunk alone\<close>

lemma chunk_shapeD:
  assumes "chunk_shape c"
  shows "c_addr c \<noteq> 0" "4096 dvd unat (c_addr c)"
    "unat (c_addr c) + unat (c_size c) \<le> 140737488355328" "unat (c_size c) \<le> 32768000"
    "c_blks c \<noteq> []"
    "layout (unat (c_addr c) + 4096) (c_blks c) (unat (c_addr c) + unat (c_size c))"
    "pages (c_blks c)" "coalesced (c_blks c)"
  using assms by (simp_all add: chunk_shape_def)

lemma chunk_size:
  assumes "chunk_shape c"
  shows "unat (c_size c) = 4096 + span (c_blks c)" "12288 \<le> unat (c_size c)"
proof -
  show *: "unat (c_size c) = 4096 + span (c_blks c)"
    using layout_end [OF chunk_shapeD(6) [OF assms]] by simp
  show "12288 \<le> unat (c_size c)"
    using * chunk_shapeD(5) [OF assms] by (cases "c_blks c") auto
qed

lemma in_chunk:
  assumes "chunk_shape c" and "b \<in> set (c_blks c)"
  shows "unat (c_addr c) + 4096 \<le> unat (b_addr b)"
    "unat (b_addr b) + 8192 + unat (b_size b) \<le> unat (c_addr c) + unat (c_size c)"
    "in_range (c_addr c) (c_size c) (b_addr b)" "4096 dvd unat (b_addr b)"
    "4096 dvd unat (b_size b)"
proof -
  note sh = chunk_shapeD [OF assms(1)]
  show "unat (c_addr c) + 4096 \<le> unat (b_addr b)"
    "unat (b_addr b) + 8192 + unat (b_size b) \<le> unat (c_addr c) + unat (c_size c)"
    using layout_bounds [OF sh(6) assms(2)] by simp_all
  then show "in_range (c_addr c) (c_size c) (b_addr b)" by (simp add: in_range_def)
  show "4096 dvd unat (b_addr b)"
    using layout_aligned [OF sh(6,7) _ assms(2)] sh(2) by simp
  show "4096 dvd unat (b_size b)" using sh(7) assms(2) by (simp add: pages_def)
qed

lemma apart_in_range:
  assumes "apart c d" and "in_range (c_addr d) (c_size d) x"
  shows "\<not> in_range (c_addr c) (c_size c) x"
  using assms by (auto simp: apart_def disjoint_regions_def in_range_def)

lemma chunk_in_own_range: "chunk_shape c \<Longrightarrow> in_range (c_addr c) (c_size c) (c_addr c)"
  using chunk_size(2) [of c] by (simp add: in_range_def)

lemma apart_addr:
  assumes "apart c d" and "chunk_shape c" and "chunk_shape d"
  shows "c_addr c \<noteq> c_addr d"
  using apart_in_range [OF assms(1), of "c_addr d"] chunk_in_own_range assms(2,3) by metis

text \<open>\<open>same_region c h h'\<close>: everything \<open>chunk_mem\<close> reads of chunk \<open>c\<close> is the same.\<close>

definition same_region :: "chunk \<Rightarrow> heap \<Rightarrow> heap \<Rightarrow> bool" where
  "same_region c h h' \<longleftrightarrow>
     (\<forall>x. in_range (c_addr c) (c_size c) x \<longrightarrow> mmapH h' x = mmapH h x \<and>
        mallocH h' x = mallocH h x \<and> prot h' x = prot h x) \<and>
     ((c_addr c, c_size c) \<in> set (maps h) \<longrightarrow> (c_addr c, c_size c) \<in> set (maps h'))"

lemma chunk_mem_shape: "chunk_mem h p n c \<Longrightarrow> chunk_shape c"
  by (simp add: chunk_mem_def)

text \<open>\<open>same_body\<close> leaves the mmap header out, whose links a neighbour's operation may change.\<close>

definition same_body :: "chunk \<Rightarrow> heap \<Rightarrow> heap \<Rightarrow> bool" where
  "same_body c h h' \<longleftrightarrow>
     (\<forall>x. in_range (c_addr c) (c_size c) x \<longrightarrow> mallocH h' x = mallocH h x \<and> prot h' x = prot h x) \<and>
     ((c_addr c, c_size c) \<in> set (maps h) \<longrightarrow> (c_addr c, c_size c) \<in> set (maps h'))"

lemma chunk_mem_relink:
  assumes "chunk_mem h p n c" and "same_body c h h'"
    and "mmapH h' (c_addr c) = Some (chunk_hdr p' n' c)"
  shows "chunk_mem h' p' n' c"
proof -
  have shape: "chunk_shape c" using assms(1) by (rule chunk_mem_shape)
  have "seg h' (c_addr c) 0 (c_blks c) 0 = seg h (c_addr c) 0 (c_blks c) 0"
    using assms(2) in_chunk(3) [OF shape] by (intro seg_frame) (simp add: same_body_def)
  with assms show ?thesis
    by (auto simp: chunk_mem_def same_body_def guards_only_def)
qed

lemma chunk_mem_same_region:
  assumes "chunk_mem h p n c" and "same_region c h h'"
  shows "chunk_mem h' p n c"
proof (rule chunk_mem_relink [OF assms(1)])
  show "same_body c h h'" using assms(2) by (simp add: same_region_def same_body_def)
  have "chunk_shape c" using assms(1) by (rule chunk_mem_shape)
  then show "mmapH h' (c_addr c) = Some (chunk_hdr p n c)"
    using assms chunk_in_own_range by (simp add: chunk_mem_def same_region_def)
qed

lemma chain_frame:
  assumes "chain s p cs n" and "\<forall>c \<in> set cs. same_region c (hp s) (hp s') \<and>
     mtx s' (MBlock (c_addr c)) = mtx s (MBlock (c_addr c)) \<and>
     attrs s' (MBlock (c_addr c)) = attrs s (MBlock (c_addr c))"
  shows "chain s' p cs n"
  using assms by (induction cs arbitrary: p) (auto simp: chunk_ok_def intro: chunk_mem_same_region)

lemma chain_shape: "chain s p cs n \<Longrightarrow> c \<in> set cs \<Longrightarrow> chunk_shape c"
  by (induction cs arbitrary: p) (auto simp: chunk_ok_def chunk_mem_def)

text \<open>\<open>only_in c s s'\<close>: memory changed in the region of \<open>c\<close> only, and no user byte did.\<close>

definition only_in :: "chunk \<Rightarrow> state \<Rightarrow> state \<Rightarrow> bool" where
  "only_in c s s' \<longleftrightarrow>
     shared (hp s') = shared (hp s) \<and> bytes (hp s') = bytes (hp s) \<and>
     maps (hp s') = maps (hp s) \<and> mtx s' = mtx s \<and> attrs s' = attrs s \<and>
     self s' = self s \<and> messageLevel s' = messageLevel s \<and>
     (\<forall>x. \<not> in_range (c_addr c) (c_size c) x \<longrightarrow> mmapH (hp s') x = mmapH (hp s) x \<and>
        mallocH (hp s') x = mallocH (hp s) x \<and> prot (hp s') x = prot (hp s) x)"

lemma only_in_refl [simp]: "only_in c s s"
  by (simp add: only_in_def)

lemma only_in_trans: "only_in c s t \<Longrightarrow> only_in c t u \<Longrightarrow> only_in c s u"
  by (simp add: only_in_def)

lemma only_in_same_region:
  assumes "only_in c s s'" and "apart c d"
  shows "same_region d (hp s) (hp s')"
  using assms apart_in_range [OF assms(2)] by (auto simp: only_in_def same_region_def)

lemma only_in_chain:
  assumes "chain s p cs n" and "only_in c s s'" and "\<forall>d \<in> set cs. apart c d"
  shows "chain s' p cs n"
  using assms(1)
proof (rule chain_frame)
  show "\<forall>d\<in>set cs. same_region d (hp s) (hp s') \<and>
     mtx s' (MBlock (c_addr d)) = mtx s (MBlock (c_addr d)) \<and>
     attrs s' (MBlock (c_addr d)) = attrs s (MBlock (c_addr d))"
    using assms(2,3) only_in_same_region by (auto simp: only_in_def)
qed

section \<open>Checking a chunk\<close>

text \<open>
  The consistency check accepts a chunk that is well formed and changes nothing but, for a
  chunk smaller than \<open>mmapBlockSize\<close>, the messages.
\<close>

lemma cfgD:
  assumes "cfg s"
  shows "sh_pageSize (shared (hp s)) = 4096" "sh_mmapBlockSize (shared (hp s)) = 32768000"
    "sh_isMprotectEnabled (shared (hp s))"
  using assms by (simp_all add: cfg_def VGC_MALLOC_SYSTEM_PAGE_SIZE_def VGC_MALLOC_MMAP_PAGES_def)

lemma chunk_maxSize:
  assumes "chunk_shape c" and "b \<in> set (c_blks c)"
  shows "b_size b \<le> mm_maxSize (chunk_hdr p n c)"
proof -
  have "unat (c_size c - sizeof_mmapHeader - sizeof_mallocHeader) = unat (c_size c) - 12288"
    using chunk_size(2) [OF assms(1)] by (simp add: unat_sub_ok)
  moreover have "unat (b_size b) \<le> unat (c_size c) - 12288"
    using in_chunk(1,2) [OF assms] by simp
  ultimately show ?thesis by (simp add: chunk_hdr_def word_le_nat_alt)
qed

lemma msgs_self: "\<exists>ms. s = s\<lparr>msgs := ms\<rparr>"
  by (rule exI [of _ "msgs s"]) simp

lemma report_msgs: "\<exists>ms. report l r s = s\<lparr>msgs := ms\<rparr>"
  using msgs_self [of s] by (auto simp: report_def)

interpretation messages: frame "\<lambda>(s :: state) t. \<exists>ms. t = s\<lparr>msgs := ms\<rparr>"
proof
  fix s t u :: state
  show "\<exists>ms. s = s\<lparr>msgs := ms\<rparr>" by (rule msgs_self)
  show "\<exists>ms. t = s\<lparr>msgs := ms\<rparr> \<Longrightarrow> \<exists>ms. u = t\<lparr>msgs := ms\<rparr> \<Longrightarrow> \<exists>ms. u = s\<lparr>msgs := ms\<rparr>" by auto
qed

lemma fold_report_msgs: "\<exists>ms. fold (report l) rs s = s\<lparr>msgs := ms\<rparr>"
  by (rule messages.fold_step) (rule report_msgs)

lemma first_header:
  assumes "chunk_shape c"
  shows "firstMallocHeaderInMMAP (c_addr c) = first_addr (c_blks c) 0"
proof -
  note sh = chunk_shapeD [OF assms]
  obtain b bs where "c_blks c = b # bs" using sh(5) by (cases "c_blks c") auto
  with sh show ?thesis
    by (simp add: firstMallocHeaderInMMAP_def word_eq_unat unat_add_ok)
qed

lemma dumpMmapBlock_ok:
  assumes E: "reliable E" and shape: "chunk_shape c" and seg: "seg (hp s) (c_addr c) 0 (c_blks c) 0"
  shows "\<exists>ms. dumpMmapBlock E (c_addr c) s = Some (s\<lparr>msgs := ms\<rparr>)"
proof -
  note sh = chunk_shapeD [OF shape]
  obtain out x y z where "dumpLoop E (hp s) 0 (first_addr (c_blks c) 0) (0, 0, 0)
      [DumpHead (c_addr c)] = Some (out, x, y, z)"
    using dumpLoop_seg [OF E seg sh(6)] by fastforce
  with sh(1) show ?thesis
    using fold_report_msgs [of INFO_LEVEL "out @ [DumpTotals (sh_mmapBlockSize (shared (hp s))) x y
      (x + y) (sh_mmapBlockSize (shared (hp s)) - sizeof_mmapHeader - z)]" s]
    by (simp add: dumpMmapBlock_def first_header [OF shape] Let_def)
qed

lemma checkMmapBlock_ok:
  assumes E: "reliable E" and shape: "chunk_shape c" and seg: "seg (hp s) (c_addr c) 0 (c_blks c) 0"
    and hdr: "mmapH (hp s) (c_addr c) = Some ((chunk_hdr p n c)\<lparr>mm_elements := e\<rparr>)" and cfg: "cfg s"
  shows "\<exists>ms. checkMmapBlock E (c_addr c) s = Some (True, s\<lparr>msgs := ms\<rparr>)"
    and "c_size c = 32768000 \<Longrightarrow> checkMmapBlock E (c_addr c) s = Some (True, s)"
    and "c_size c \<noteq> 32768000 \<Longrightarrow> checkMmapBlock E (c_addr c) s =
      map_option (Pair True) (dumpMmapBlock E (c_addr c) (report ERROR_LEVEL (Rep F_checkMmapBlock S_inconsistent) s))"
proof -
  note sh = chunk_shapeD [OF shape] and sz = chunk_size [OF shape]
  have mm: "get_mm (c_addr c) s = Some ((chunk_hdr p n c)\<lparr>mm_elements := e\<rparr>)"
    using hdr by (simp add: get_mm_def)
  obtain t where t: "checkLoop (hp s) (c_addr c) (mm_maxSize (chunk_hdr p n c))
      (first_addr (c_blks c) 0) (0, 0, 0) = Some (Inr t)"
    "sums_total t = sums_total (0, 0, 0) + of_nat (span (c_blks c))"
    using checkLoop_seg [OF seg sh(6), of "mm_maxSize (chunk_hdr p n c)" "(0, 0, 0)"] sh cfgD [OF cfg]
      chunk_maxSize [OF shape] by auto
  obtain x y z where xyz: "t = (x, y, z)" by (cases t)
  obtain ms where ms: "report ERROR_LEVEL (Rep F_checkMmapBlock S_inconsistent) s = s\<lparr>msgs := ms\<rparr>"
    using report_msgs by blast
  have "seg (hp (s\<lparr>msgs := ms\<rparr>)) (c_addr c) 0 (c_blks c) 0" using seg by simp
  then obtain ms' where ms': "dumpMmapBlock E (c_addr c) (s\<lparr>msgs := ms\<rparr>) = Some (s\<lparr>msgs := ms'\<rparr>)"
    using dumpMmapBlock_ok [OF E shape] by fastforce
  show "\<exists>ms. checkMmapBlock E (c_addr c) s = Some (True, s\<lparr>msgs := ms\<rparr>)"
    using t(1) mm xyz ms ms' msgs_self [of s]
    by (auto simp: checkMmapBlock_def first_header [OF shape] Let_def)
  show "checkMmapBlock E (c_addr c) s =
      map_option (Pair True) (dumpMmapBlock E (c_addr c) (report ERROR_LEVEL (Rep F_checkMmapBlock S_inconsistent) s))"
    if other: "c_size c \<noteq> 32768000"
  proof -
    have "span (c_blks c) < 32763904"
      using sz(1) sh(4) other by (auto simp: word_eq_unat)
    then have "(of_nat (span (c_blks c)) :: size_t) \<noteq> 32763904"
      by (auto simp: word_eq_unat unat_of_nat_ok)
    then have "x + y + z \<noteq> 32763904" using t(2) xyz by (simp add: sums_total_def)
    then have "32768000 - 4096 - z \<noteq> x + y" by (auto simp: algebra_simps)
    then show ?thesis
      using t(1) mm xyz ms ms' cfgD(2) [OF cfg]
      by (simp add: checkMmapBlock_def first_header [OF shape] Let_def)
  qed
  assume "c_size c = 32768000"
  then have "span (c_blks c) = 32763904" using sz(1) by simp
  then have "x + y + z = 32763904" using t(2) xyz by (simp add: sums_total_def)
  then have "32768000 - 4096 - z = x + y" by (simp add: algebra_simps)
  then show "checkMmapBlock E (c_addr c) s = Some (True, s)"
    using t(1) mm xyz cfgD(2) [OF cfg]
    by (simp add: checkMmapBlock_def first_header [OF shape] Let_def)
qed

end
