(* ===== verification/Alloc.thy ===== *)
theory Alloc
  imports Chunks
begin

text \<open>
  The allocation path on a well formed state: what \<^verbatim>\<open>allocMallocBlock\<close>, \<^verbatim>\<open>allocMMAP\<close> and
  \<^verbatim>\<open>vgc_malloc\<close> do to the list of chunks.
\<close>

section \<open>Inside one chunk\<close>

lemma chunk_memD:
  assumes "chunk_mem h p n c"
  shows "chunk_shape c" "mmapH h (c_addr c) = Some (chunk_hdr p n c)"
    "seg h (c_addr c) 0 (c_blks c) 0" "(c_addr c, c_size c) \<in> set (maps h)" "guards_only h c"
  using assms by (simp_all add: chunk_mem_def)

lemma carve_addrs: "b \<in> set (xs @ b0 # ys) \<Longrightarrow> \<exists>b' \<in> set (xs @ carve len b0 @ ys). b_addr b' = b_addr b"
  by (auto simp: carve_def)

text \<open>The guard page \<^verbatim>\<open>carveBlock\<close> protects is that of the block it adds, in the chunk's own region.\<close>

definition carve_guard :: "size_t \<Rightarrow> blk \<Rightarrow> heap \<Rightarrow> heap \<Rightarrow> bool" where
  "carve_guard len b h h' \<longleftrightarrow>
     prot h' = (if len + sizeof_mallocHeader < b_size b
       then prot (set_prot (b_addr b + (len + sizeof_mallocHeader)) True h) else prot h)"

lemma carve_guardD:
  assumes "carve_guard len b h h'" and "prot h' x \<noteq> prot h x"
  shows "len + sizeof_mallocHeader < b_size b" "in_range (b_addr b + (len + sizeof_mallocHeader)) 4096 x"
  using assms by (auto simp: carve_guard_def set_prot_def split: if_splits)

lemma carve_guards_only:
  assumes "guards_only h c" and "c_blks c = xs @ b # ys" and "carve_guard len b h h'"
  shows "guards_only h' (with_blks c (xs @ carve len b @ ys))"
  unfolding guards_only_def
proof (intro allI impI)
  let ?c = "with_blks c (xs @ carve len b @ ys)"
  fix x assume x: "in_range (c_addr ?c) (c_size ?c) x \<and> prot h' x"
  show "\<exists>b \<in> set (c_blks ?c). in_range (b_addr b) 4096 x"
  proof (cases "prot h x")
    case True
    then obtain b' where "b' \<in> set (xs @ b # ys)" "in_range (b_addr b') 4096 x"
      using x assms(1,2) by (auto simp: guards_only_def)
    moreover from this(1) obtain b'' where "b'' \<in> set (xs @ carve len b @ ys)" "b_addr b'' = b_addr b'"
      using carve_addrs by blast
    ultimately show ?thesis by (intro bexI [of _ b'']) simp_all
  next
    case False
    with x carve_guardD [OF assms(3), of x] show ?thesis by (auto simp: carve_def)
  qed
qed

lemma carve_chunk_shape:
  assumes "chunk_shape c" and bs: "c_blks c = xs @ b # ys" and "is_free b" and len: "len \<le> b_size b"
    and pg: "4096 dvd unat len"
  shows "chunk_shape (with_blks c (xs @ carve len b @ ys))"
    and "(chunk_hdr p n c)\<lparr>mm_elements := mm_elements (chunk_hdr p n c) + 1\<rparr>
       = chunk_hdr p n (with_blks c (xs @ carve len b @ ys))"
proof -
  note sh = chunk_shapeD [OF assms(1)]
  have top: "unat (c_addr c) + unat (c_size c) < 18446744073709551616" using sh(3) by simp
  note lay = sh(6) [unfolded bs]
  show "chunk_shape (with_blks c (xs @ carve len b @ ys))"
    using sh carve_layout [OF lay top len] carve_pages [OF lay top len _ pg] bs
      carve_coalesced [of xs b ys len] \<open>is_free b\<close> by (simp add: chunk_shape_def)
  show "(chunk_hdr p n c)\<lparr>mm_elements := mm_elements (chunk_hdr p n c) + 1\<rparr>
      = chunk_hdr p n (with_blks c (xs @ carve len b @ ys))"
    using busy_carve [OF \<open>is_free b\<close>, of xs len ys] by (simp add: chunk_hdr_def bs add.commute)
qed

lemma carve_only_in:
  assumes sh: "chunk_shape c" and bs: "c_blks c = xs @ b # ys" and len: "len \<le> b_size b"
    and w: "within (c_addr c) (c_size c) s s'" and g: "carve_guard len b (hp s) (hp s')"
  shows "only_in c s s'"
proof -
  have b: "b \<in> set (c_blks c)" using bs by simp
  have top: "unat (c_addr c) + unat (c_size c) < 18446744073709551616"
    using chunk_shapeD(3) [OF sh] by simp
  note room = carve_room [OF chunk_shapeD(6) [OF sh, unfolded bs] top len]
  have "prot (hp s') x = prot (hp s) x" if "\<not> in_range (c_addr c) (c_size c) x" for x
    using that in_chunk(1,2) [OF sh b] room(2,4) carve_guardD [OF g, of x]
    by (fastforce simp: in_range_def)
  moreover have "x \<noteq> c_addr c" if "\<not> in_range (c_addr c) (c_size c) x" for x
    using that chunk_in_own_range [OF sh] by auto
  ultimately show ?thesis using w by (simp add: within_def only_in_def)
qed

lemma carve_chunk:
  assumes E: "reliable E" and cfg: "cfg s" and mem: "chunk_mem (hp s) p n c"
    and bs: "c_blks c = xs @ b # ys" and free: "is_free b" and len: "len \<le> b_size b"
    and pg: "4096 dvd unat len"
  shows "\<exists>s'. carveBlock E (c_addr c) (b_addr b) len s = Some s' \<and>
      chunk_mem (hp s') p n (with_blks c (xs @ carve len b @ ys)) \<and> only_in c s s' \<and>
      carve_guard len b (hp s) (hp s')"
proof -
  note m = chunk_memD [OF mem] and sh = chunk_shapeD [OF chunk_memD(1) [OF mem]]
  have top: "unat (c_addr c) + unat (c_size c) < 18446744073709551616"
    using sh(3) by simp
  note lay = sh(6) [unfolded bs]
  obtain s' where s': "carveBlock E (c_addr c) (b_addr b) len s = Some s'"
    "seg (hp s') (c_addr c) 0 (xs @ carve len b @ ys) 0" "within (c_addr c) (c_size c) s s'"
    "mmapH (hp s') (c_addr c)
       = Some ((chunk_hdr p n c)\<lparr>mm_elements := mm_elements (chunk_hdr p n c) + 1\<rparr>)"
    "carve_guard len b (hp s) (hp s')"
    unfolding carve_guard_def
    using carveBlock_seg [OF E, of s "c_addr c" xs b ys "c_size c" len] m sh top lay bs pg len
      cfgD(1) [OF cfg] by auto
  note shape = carve_chunk_shape [OF m(1) bs free len pg]
  have "chunk_mem (hp s') p n (with_blks c (xs @ carve len b @ ys))"
    using s'(2-4) m(4) shape carve_guards_only [OF m(5) bs s'(5)]
    by (simp add: chunk_mem_def within_def)
  then show ?thesis using s'(1,5) carve_only_in [OF m(1) bs len s'(3,5)] by blast
qed

text \<open>Saving the stack trace touches only the trace of the header.\<close>

lemma stacktrace_chunk:
  assumes mem: "chunk_mem (hp s) p n c" and b: "b \<in> set (c_blks c)"
  shows "\<exists>s'. vgc_stacktraceSave E (b_addr b) s = Some s' \<and> chunk_mem (hp s') p n c \<and>
      only_in c s s' \<and> prot (hp s') = prot (hp s)"
proof -
  note m = chunk_memD [OF mem]
  obtain xs ys where bs: "c_blks c = xs @ b # ys" using b by (auto simp: in_set_conv_decomp)
  then obtain hb where hb: "mallocH (hp s) (b_addr b) = Some hb"
    using m(3) by (auto elim: holdsE)
  let ?hb = "hb\<lparr>mb_btArray := take VGC_MALLOC_STACKTRACE_SIZE (env_backtrace E (ticks s))\<rparr>"
  let ?s = "put_mb (b_addr b) ?hb (s\<lparr>ticks := Suc (ticks s)\<rparr>)"
  have d: "distinct (map b_addr (xs @ b # ys))"
    using layout_distinct chunk_shapeD(6) [OF m(1)] bs by metis
  have out: "\<forall>x. x \<notin> {b_addr b} \<longrightarrow> mallocH (hp ?s) x = mallocH (hp s) x" by simp
  have "seg (hp ?s) (c_addr c) 0 (c_blks c) 0"
    using m(3) d seg_outside [OF out] hb bs by (auto simp: holds_def)
  then have "chunk_mem (hp ?s) p n c"
    using m by (simp add: chunk_mem_def guards_only_def)
  moreover have "only_in c s ?s"
    using in_chunk(3) [OF m(1) b] by (auto simp: only_in_def)
  ultimately show ?thesis
    using hb by (simp add: vgc_stacktraceSave_def upd_mb_Some)
qed

definition user_memory :: "size_t \<Rightarrow> addr \<Rightarrow> addr" where
  "user_memory len a = a + sizeof_mallocHeader + memory_offset 4096 len"

lemma mtx_relock:
  "mtx s i = free_mutex \<Longrightarrow>
     (mtx s)(i := (mtx s i)\<lparr>pm_lock := Locked t\<rparr>, i := \<lparr>pm_attr = vgc_pattr, pm_lock = Unlocked\<rparr>) = mtx s"
  by (simp add: fun_upd_idem)

lemma unlock_reporting_ok:
  assumes "reliable E" and "pm_lock (mtx s i) = Locked (self s)"
  shows "unlock_reporting E fn i s = Some (s\<lparr>ticks := Suc (ticks s),
     mtx := (mtx s)(i := (mtx s i)\<lparr>pm_lock := Unlocked\<rparr>)\<rparr>)"
  using assms by (simp add: unlock_reporting_def PTHREAD_mutexUnlock_held)

text \<open>\<open>quiet s s'\<close>: nothing but the call counter and the messages changed.\<close>

definition quiet :: "state \<Rightarrow> state \<Rightarrow> bool" where
  "quiet s s' \<longleftrightarrow> hp s' = hp s \<and> mtx s' = mtx s \<and> attrs s' = attrs s \<and> self s' = self s \<and>
     messageLevel s' = messageLevel s"

lemma quiet_refl [simp]: "quiet s s"
  by (simp add: quiet_def)

lemma quiet_trans: "quiet s t \<Longrightarrow> quiet t u \<Longrightarrow> quiet s u"
  by (simp add: quiet_def)

lemma quiet_report [simp]: "quiet s (report l r t) = quiet s t"
  by (simp add: quiet_def)

lemma quiet_chain: "quiet s s' \<Longrightarrow> chain s' p cs n = chain s p cs n"
  by (induction cs arbitrary: p) (simp_all add: quiet_def chunk_ok_def)

lemma only_in_msgs [simp]:
  "only_in c s (t\<lparr>msgs := ms\<rparr>) = only_in c s t" "only_in c s (report l r t) = only_in c s t"
  by (simp_all add: only_in_def)

text \<open>Where the guard page of the block after the one handed out is set.\<close>

definition guard_set :: "size_t \<Rightarrow> blk \<Rightarrow> heap \<Rightarrow> heap \<Rightarrow> bool" where
  "guard_set len b = carve_guard (page_round 4096 len) b"

text \<open>
  A mutex of the library, seen by the thread that may take it: \<open>mutex_free\<close>, with the lock free,
  and \<open>mutex_held\<close>, with the lock taken by the thread. The abstract state is a reference state
  the current one agrees with, up to the call counter and the messages.
\<close>

definition mutex_free :: "mid \<Rightarrow> state \<Rightarrow> state \<Rightarrow> bool" where
  "mutex_free i s x \<longleftrightarrow> mtx x i = free_mutex \<and> quiet x s"

definition mutex_held :: "mid \<Rightarrow> state \<Rightarrow> state \<Rightarrow> bool" where
  "mutex_held i s x \<longleftrightarrow> mtx x i = free_mutex \<and> hp s = hp x \<and> attrs s = attrs x \<and> self s = self x \<and>
     messageLevel s = messageLevel x \<and> mtx s = (mtx x)(i := free_mutex\<lparr>pm_lock := Locked (self x)\<rparr>)"

lemma mutex_free_refl: "mtx s i = free_mutex \<Longrightarrow> mutex_free i s s"
  by (simp add: mutex_free_def)

lemma mutex_heldD:
  assumes "mutex_held i s x"
  shows "hp s = hp x" "attrs s = attrs x" "self s = self x" "messageLevel s = messageLevel x"
    "mtx s = (mtx x)(i := free_mutex\<lparr>pm_lock := Locked (self x)\<rparr>)"
  using assms by (simp_all add: mutex_held_def)

interpretation mutex: guarded reliable "\<lambda>E. PTHREAD_mutexLock E i" "\<lambda>E. unlock_reporting E fn i"
    "mutex_free i" "mutex_held i"
proof unfold_locales
  fix E s x
  assume "reliable E" and "mutex_free i s x"
  then show "\<exists>t. PTHREAD_mutexLock E i s = Some (True, t) \<and> mutex_held i t x"
    by (simp add: PTHREAD_mutexLock_free mutex_free_def mutex_held_def quiet_def)
next
  fix E t x
  assume "reliable E" and "mutex_held i t x"
  then show "\<exists>s. unlock_reporting E fn i t = Some s \<and> mutex_free i s x"
    by (simp add: unlock_reporting_ok mutex_free_def mutex_held_def quiet_def fun_upd_idem)
qed

text \<open>What a body does to the memory of chunk \<open>c\<close> under a lock is what the whole section does.\<close>

lemma mutex_held_only_in:
  assumes "mutex_held i t x" and "only_in c t u"
  shows "mutex_held i u (x\<lparr>hp := hp u\<rparr>)"
  using assms by (simp add: mutex_held_def only_in_def)

lemma only_in_section:
  assumes "mutex_held i t x" and "only_in c t u" and "mutex_free i s (x\<lparr>hp := hp u\<rparr>)"
  shows "only_in c x s"
  using assms by (simp add: mutex_held_def mutex_free_def only_in_def quiet_def)

text \<open>
  The body of \<^verbatim>\<open>allocMallocBlock\<close> once the first block that fits is found: the check, the block
  carved out, its stack trace saved.
\<close>

lemma allocMallocBlock_body:
  assumes E: "reliable E" and cfg: "cfg s" and mem: "chunk_mem (hp s) p n c"
    and bs: "c_blks c = xs @ b # ys" and fit: "fits len b"
    and small: "unat len + 4096 \<le> 18446744073709551616"
  shows "\<exists>ms t u. checkMmapBlock E (c_addr c) s = Some (True, s\<lparr>msgs := ms\<rparr>) \<and>
     carveBlock E (c_addr c) (b_addr b) (page_round 4096 len) (s\<lparr>msgs := ms\<rparr>) = Some t \<and>
     vgc_stacktraceSave E (b_addr b) t = Some u \<and>
     chunk_mem (hp u) p n (with_blks c (xs @ carve (page_round 4096 len) b @ ys)) \<and>
     only_in c s u \<and> guard_set len b (hp s) (hp u)"
proof -
  let ?len = "page_round 4096 len" and ?c = "with_blks c (xs @ carve (page_round 4096 len) b @ ys)"
  note m = chunk_memD [OF mem]
  have b: "b \<in> set (c_blks c)" using bs by simp
  have "mmapH (hp s) (c_addr c) = Some ((chunk_hdr p n c)\<lparr>mm_elements := of_nat (busy (c_blks c))\<rparr>)"
    using m(2) by (simp add: chunk_hdr_def)
  then obtain ms where chk: "checkMmapBlock E (c_addr c) s = Some (True, s\<lparr>msgs := ms\<rparr>)"
    using checkMmapBlock_ok(1) [OF E m(1,3) _ cfg] by blast
  have free: "is_free b" "len \<le> b_size b" using fit by (simp_all add: fits_def)
  have le: "?len \<le> b_size b"
    using page_round_le(1) [of len "unat (b_size b)"] free(2) in_chunk(5) [OF m(1) b]
    by (simp add: word_le_nat_alt)
  have "cfg (s\<lparr>msgs := ms\<rparr>)" "chunk_mem (hp (s\<lparr>msgs := ms\<rparr>)) p n c"
    using cfg mem by (simp_all add: cfg_def)
  from carve_chunk [OF E this bs free(1) le page_round_bounds(3) [OF small]]
  obtain t where t: "carveBlock E (c_addr c) (b_addr b) ?len (s\<lparr>msgs := ms\<rparr>) = Some t"
    "chunk_mem (hp t) p n ?c" "only_in c (s\<lparr>msgs := ms\<rparr>) t" "guard_set len b (hp s) (hp t)"
    by (auto simp: guard_set_def)
  obtain b' where b': "b' \<in> set (c_blks ?c)" "b_addr b' = b_addr b"
    using carve_addrs [of b xs b ys ?len] by auto
  obtain u where u: "vgc_stacktraceSave E (b_addr b) t = Some u" "chunk_mem (hp u) p n ?c"
    "only_in ?c t u" "prot (hp u) = prot (hp t)"
    using stacktrace_chunk [OF t(2) b'(1), of E] b'(2) by auto
  have "only_in c s u" and "guard_set len b (hp s) (hp u)"
    using t(3,4) u(3,4) by (simp_all add: only_in_def guard_set_def carve_guard_def)
  with chk t(1) u(1,2) show ?thesis by blast
qed

text \<open>
  On a chunk whose lock is free, \<^verbatim>\<open>allocMallocBlock\<close> is first fit on the list of blocks, and it
  gives the lock back.
\<close>

lemma block_section:
  assumes E: "reliable E" and ok: "chunk_ok s p n c"
  shows "\<exists>t. PTHREAD_mutexLock E (MBlock (c_addr c)) s = Some (True, t) \<and>
     mutex_held (MBlock (c_addr c)) t s \<and> findFree (hp t) len (firstMallocHeaderInMMAP (c_addr c))
       = Some (case find (fits len) (c_blks c) of None \<Rightarrow> 0 | Some b \<Rightarrow> b_addr b)"
proof -
  have mem: "chunk_mem (hp s) p n c" and lk: "mtx s (MBlock (c_addr c)) = free_mutex"
    using ok by (simp_all add: chunk_ok_def)
  note m = chunk_memD [OF mem]
  obtain t where t: "PTHREAD_mutexLock E (MBlock (c_addr c)) s = Some (True, t)"
    "mutex_held (MBlock (c_addr c)) t s"
    using mutex.lock_law [OF E mutex_free_refl [OF lk]] by blast
  then show ?thesis
    using findFree_seg [OF m(3) chunk_shapeD(6) [OF m(1)]] first_header [OF m(1)]
    by (simp add: mutex_heldD(1))
qed

lemma allocMallocBlock_none:
  assumes E: "reliable E" and ok: "chunk_ok s p n c" and "find (fits len) (c_blks c) = None"
  shows "\<exists>s'. allocMallocBlock E (c_addr c) len s = Some (0, s') \<and> quiet s s'"
proof -
  obtain t where t: "PTHREAD_mutexLock E (MBlock (c_addr c)) s = Some (True, t)"
    "mutex_held (MBlock (c_addr c)) t s" "findFree (hp t) len (firstMallocHeaderInMMAP (c_addr c)) = Some 0"
    using block_section [OF E ok, of len] assms(3) by auto
  obtain s' where "unlock_reporting E F_allocMallocBlock (MBlock (c_addr c)) t = Some s'"
    "mutex_free (MBlock (c_addr c)) s' s"
    using mutex.unlock_law [OF E t(2)] by blast
  with t show ?thesis by (simp add: allocMallocBlock_def mutex_free_def)
qed

lemma allocMallocBlock_some:
  assumes E: "reliable E" and cfg: "cfg s" and ok: "chunk_ok s p n c"
    and small: "unat len + 4096 \<le> 18446744073709551616"
    and found: "find (fits len) (c_blks c) = Some b" and bs: "c_blks c = xs @ b # ys" "fits len b"
  shows "\<exists>s'. allocMallocBlock E (c_addr c) len s = Some (user_memory len (b_addr b), s') \<and>
     chunk_ok s' p n (with_blks c (xs @ carve (page_round 4096 len) b @ ys)) \<and> only_in c s s' \<and>
     guard_set len b (hp s) (hp s')"
proof -
  let ?i = "MBlock (c_addr c)" and ?c = "with_blks c (xs @ carve (page_round 4096 len) b @ ys)"
  have mem: "chunk_mem (hp s) p n c" and lk: "mtx s ?i = free_mutex" "attrs s ?i = Some vgc_pattr"
    using ok by (simp_all add: chunk_ok_def)
  have nz: "b_addr b \<noteq> 0"
    using layout_nonzero [OF chunk_shapeD(6) [OF chunk_memD(1) [OF mem]]] bs(1) by simp
  obtain t where t: "PTHREAD_mutexLock E ?i s = Some (True, t)" "mutex_held ?i t s"
    "findFree (hp t) len (firstMallocHeaderInMMAP (c_addr c)) = Some (b_addr b)"
    using block_section [OF E ok, of len] found by auto
  note hpt = mutex_heldD(1) [OF t(2)]
  have cfgt: "cfg t" using cfg hpt by (simp add: cfg_def)
  obtain ms v u where body: "checkMmapBlock E (c_addr c) t = Some (True, t\<lparr>msgs := ms\<rparr>)"
    "carveBlock E (c_addr c) (b_addr b) (page_round 4096 len) (t\<lparr>msgs := ms\<rparr>) = Some v"
    "vgc_stacktraceSave E (b_addr b) v = Some u" "chunk_mem (hp u) p n ?c" "only_in c t u"
    "guard_set len b (hp t) (hp u)"
    using allocMallocBlock_body [OF E cfgt _ bs small, of p n] mem hpt by auto
  obtain w where w: "unlock_reporting E F_allocMallocBlock ?i u = Some w"
    "mutex_free ?i w (s\<lparr>hp := hp u\<rparr>)"
    using mutex.unlock_law [OF E mutex_held_only_in [OF t(2) body(5)]] by blast
  let ?s = "report VGC_MALLOC_DEBUG_LEVEL (Rep F_vgc_malloc S_protect)
     (report VGC_MALLOC_DEBUG_LEVEL (Rep F_vgc_malloc S_malloc) w)"
  have "allocMallocBlock E (c_addr c) len s = Some (user_memory len (b_addr b), ?s)"
    using t(1,3) nz body(1-3) w(1) cfgD [OF cfgt]
    by (simp add: allocMallocBlock_def Let_def user_memory_def)
  moreover have "hp w = hp u" "mtx w = mtx s" "attrs w = attrs s"
    using w(2) by (simp_all add: mutex_free_def quiet_def)
  ultimately show ?thesis
    using body(4,6) lk hpt only_in_section [OF t(2) body(5) w(2)] by (simp add: chunk_ok_def)
qed

lemma allocMallocBlock_ok:
  assumes E: "reliable E" and cfg: "cfg s" and ok: "chunk_ok s p n c"
    and small: "unat len + 4096 \<le> 18446744073709551616"
  shows "case alloc_list len (page_round 4096 len) (c_blks c) of
      None \<Rightarrow> (\<exists>s'. allocMallocBlock E (c_addr c) len s = Some (0, s') \<and> quiet s s')
    | Some (a, bs) \<Rightarrow> (\<exists>s' b. allocMallocBlock E (c_addr c) len s = Some (user_memory len a, s') \<and>
                 chunk_ok s' p n (with_blks c bs) \<and> only_in c s s' \<and>
                 b \<in> set (c_blks c) \<and> b_addr b = a \<and> fits len b \<and> guard_set len b (hp s) (hp s'))"
proof (cases "find (fits len) (c_blks c)")
  case None
  then show ?thesis
    using allocMallocBlock_none [OF E ok] by (simp add: alloc_list_find)
next
  case (Some b)
  obtain xs ys where bs: "c_blks c = xs @ b # ys" "fits len b" and nofit: "\<forall>x \<in> set xs. \<not> fits len x"
    using find_split [OF Some] by blast
  then have "alloc_list len (page_round 4096 len) (c_blks c)
      = Some (b_addr b, xs @ carve (page_round 4096 len) b @ ys)"
    using alloc_list_hit [OF nofit bs(2)] by simp
  moreover have "b \<in> set (c_blks c)" using bs(1) by simp
  ultimately show ?thesis
    using allocMallocBlock_some [OF E cfg ok small Some bs] bs(2) by auto
qed

section \<open>Over the chunks\<close>

text \<open>First fit over the chunks: the first chunk with a block that fits.\<close>

fun alloc_chunks :: "size_t \<Rightarrow> chunk list \<Rightarrow> (addr \<times> chunk list) option" where
  "alloc_chunks len [] = None"
| "alloc_chunks len (c # cs) =
     (case alloc_list len (page_round 4096 len) (c_blks c) of
        Some (a, bs) \<Rightarrow> Some (a, with_blks c bs # cs)
      | None \<Rightarrow> map_option (\<lambda>(a, ds). (a, c # ds)) (alloc_chunks len cs))"

lemma alloc_chunks_SomeE:
  assumes "alloc_chunks len cs = Some (a, cs')"
  obtains us c vs xs b ys where "cs = us @ c # vs" "c_blks c = xs @ b # ys" "fits len b"
    "\<forall>d \<in> set us. \<forall>x \<in> set (c_blks d). \<not> fits len x" "\<forall>x \<in> set xs. \<not> fits len x"
    "a = b_addr b" "cs' = us @ with_blks c (xs @ carve (page_round 4096 len) b @ ys) # vs"
  using assms
proof (induction cs arbitrary: cs' thesis)
  case (Cons c cs)
  show ?case
  proof (cases "alloc_list len (page_round 4096 len) (c_blks c)")
    case None
    with Cons.prems(2) obtain ds where ds: "alloc_chunks len cs = Some (a, ds)" "cs' = c # ds"
      by auto
    obtain us d vs xs b ys where *: "cs = us @ d # vs" "c_blks d = xs @ b # ys" "fits len b"
      "\<forall>d \<in> set us. \<forall>x \<in> set (c_blks d). \<not> fits len x" "\<forall>x \<in> set xs. \<not> fits len x"
      "a = b_addr b" "ds = us @ with_blks d (xs @ carve (page_round 4096 len) b @ ys) # vs"
      using Cons.IH ds(1) by blast
    show ?thesis
      using * ds(2) None by (intro Cons.prems(1) [of "c # us" d vs xs b ys]) (auto simp: alloc_list_None)
  next
    case (Some r)
    with Cons.prems(2) obtain bs where bs: "alloc_list len (page_round 4096 len) (c_blks c) = Some (a, bs)"
      "cs' = with_blks c bs # cs" by (cases r) auto
    from bs(1) obtain xs b ys where "c_blks c = xs @ b # ys" "fits len b" "\<forall>x \<in> set xs. \<not> fits len x"
      "a = b_addr b" "bs = xs @ carve (page_round 4096 len) b @ ys"
      by (rule alloc_list_SomeE)
    with bs(2) show ?thesis by (intro Cons.prems(1) [of "[]" c cs xs b ys]) auto
  qed
qed simp

lemma alloc_chunks_None:
  "alloc_chunks len cs = None \<longleftrightarrow> (\<forall>c \<in> set cs. \<forall>b \<in> set (c_blks c). \<not> fits len b)"
proof (induction cs)
  case (Cons c cs)
  then show ?case
    using alloc_list_None [of len "page_round 4096 len" "c_blks c"]
    by (cases "alloc_list len (page_round 4096 len) (c_blks c)") auto
qed simp

lemma alloc_chunks_apart:
  assumes "alloc_chunks len cs = Some (a, cs')"
  shows "sorted_wrt apart (us @ cs') = sorted_wrt apart (us @ cs)" "length cs' = length cs"
    "first_chunk cs' n = first_chunk cs n"
proof -
  show "sorted_wrt apart (us @ cs') = sorted_wrt apart (us @ cs)"
    using assms by (auto elim!: alloc_chunks_SomeE simp: sorted_wrt_append)
  show "length cs' = length cs" "first_chunk cs' n = first_chunk cs n"
    using assms by (auto elim!: alloc_chunks_SomeE)
qed

lemma user_memory_unat:
  assumes "chunk_shape c" and "b \<in> set (c_blks c)"
  shows "unat (user_memory len (b_addr b)) = unat (b_addr b) + 8192 + (4096 - unat len mod 4096)"
    "user_memory len (b_addr b) \<noteq> 0"
proof -
  have "unat (b_addr b) + 12288 < 18446744073709551616"
    using in_chunk(2) [OF assms] chunk_shapeD(3) [OF assms(1)] by simp
  then show *: "unat (user_memory len (b_addr b)) = unat (b_addr b) + 8192 + (4096 - unat len mod 4096)"
    by (simp add: user_memory_def unat_add_ok memory_offset_unat)
  then show "user_memory len (b_addr b) \<noteq> 0" by (auto simp: word_eq_unat)
qed

lemma chain_update:
  assumes ch: "chain s p (us @ c # vs) n" and ap: "sorted_wrt apart (us @ c # vs)"
    and ok: "chunk_ok s' (last_chunk p us) (first_chunk vs n) (with_blks c bs)"
    and only: "only_in c s s'"
  shows "chain s' p (us @ with_blks c bs # vs) n"
proof -
  have "\<forall>d \<in> set us. apart c d" "\<forall>d \<in> set vs. apart c d"
    using apart_others [OF ap] by auto
  then show ?thesis using ch ok only_in_chain [OF _ only] by auto
qed

definition keeps :: "state \<Rightarrow> state \<Rightarrow> bool" where
  "keeps s s' \<longleftrightarrow> shared (hp s') = shared (hp s) \<and> bytes (hp s') = bytes (hp s) \<and>
     maps (hp s') = maps (hp s) \<and> mtx s' = mtx s \<and> attrs s' = attrs s \<and> self s' = self s \<and>
     messageLevel s' = messageLevel s"

lemma keeps_only_in: "only_in c s s' \<Longrightarrow> keeps s s'"
  by (simp add: keeps_def only_in_def)

lemma keeps_quiet: "quiet s t \<Longrightarrow> keeps t u \<Longrightarrow> keeps s u"
  by (simp add: keeps_def quiet_def)

text \<open>The block a call hands out, and the guard page set behind it.\<close>

definition handed_from :: "chunk list \<Rightarrow> size_t \<Rightarrow> addr \<Rightarrow> heap \<Rightarrow> heap \<Rightarrow> bool" where
  "handed_from cs len a h h' \<longleftrightarrow>
     (\<exists>c \<in> set cs. \<exists>b \<in> set (c_blks c). b_addr b = a \<and> fits len b \<and> guard_set len b h h')"

lemma handed_fromI:
  "c \<in> set cs \<Longrightarrow> b \<in> set (c_blks c) \<Longrightarrow> fits len b \<Longrightarrow> guard_set len b h h' \<Longrightarrow> handed_from cs len (b_addr b) h h'"
  by (auto simp: handed_from_def)

lemma handed_from_mono: "handed_from cs len a h h' \<Longrightarrow> set cs \<subseteq> set ds \<Longrightarrow> handed_from ds len a h h'"
  by (auto simp: handed_from_def)

definition loop_spec :: "size_t \<Rightarrow> chunk list \<Rightarrow> chunk list \<Rightarrow> state \<Rightarrow> (addr \<times> addr \<times> state) option \<Rightarrow> bool" where
  "loop_spec len xs ys s out \<longleftrightarrow>
     (case alloc_chunks len ys of
        None \<Rightarrow> (\<exists>s'. out = Some (0, last_chunk 0 (xs @ ys), s') \<and> quiet s s')
      | Some (a, ys') \<Rightarrow> (\<exists>s' l. out = Some (user_memory len a, l, s') \<and> chain s' 0 (xs @ ys') 0 \<and>
          keeps s s' \<and> handed_from ys len a (hp s) (hp s')))"

text \<open>A chunk without room is passed over, and the loop goes on as if it started behind it.\<close>

lemma mallocLoop_next:
  assumes ok: "chunk_ok s p (first_chunk cs 0) c"
    and "allocMallocBlock E (c_addr c) len s = Some (0, t)" and "quiet s t"
  shows "mallocLoop E len (c_addr c) l s = mallocLoop E len (first_chunk cs 0) (c_addr c) t"
proof -
  have "get_mm (c_addr c) t = Some (chunk_hdr p (first_chunk cs 0) c)" and "c_addr c \<noteq> 0"
    using ok assms(3) by (simp_all add: chunk_ok_def chunk_mem_def quiet_def get_mm_def chunk_shape_def)
  with assms(2) show ?thesis by (subst mallocLoop.simps) (simp add: chunk_hdr_def)
qed

lemma loop_spec_next:
  assumes "alloc_list len (page_round 4096 len) (c_blks c) = None" and "quiet s t"
    and "loop_spec len (xs @ [c]) cs t out"
  shows "loop_spec len xs (c # cs) s out"
proof -
  have hp: "hp t = hp s" using assms(2) by (simp add: quiet_def)
  show ?thesis
  proof (cases "alloc_chunks len cs")
    case None
    then show ?thesis using assms by (auto simp: loop_spec_def intro: quiet_trans)
  next
    case (Some r)
    then show ?thesis
      using assms(1,3) keeps_quiet [OF assms(2)] handed_from_mono [of cs len _ _ _ "c # cs"] hp
      by (cases r) (fastforce simp: loop_spec_def)
  qed
qed

lemma mallocLoop_ok:
  assumes E: "reliable E" and small: "unat len + 4096 \<le> 18446744073709551616"
    and "cfg s" and "chain s 0 (xs @ ys) 0" and "sorted_wrt apart (xs @ ys)"
  shows "loop_spec len xs ys s (mallocLoop E len (first_chunk ys 0) (last_chunk 0 xs) s)"
  using assms(3-)
proof (induction ys arbitrary: xs s)
  case Nil
  then show ?case by (simp add: mallocLoop.simps loop_spec_def)
next
  case (Cons c cs)
  have ok: "chunk_ok s (last_chunk 0 xs) (first_chunk cs 0) c" using Cons.prems by simp
  then have shape: "chunk_shape c" by (simp add: chunk_ok_def chunk_mem_def)
  note alloc = allocMallocBlock_ok [OF E Cons.prems(1) ok small]
  show ?case
  proof (cases "alloc_list len (page_round 4096 len) (c_blks c)")
    case None
    then obtain t where t: "allocMallocBlock E (c_addr c) len s = Some (0, t)" "quiet s t"
      using alloc by auto
    have "chain t 0 (xs @ c # cs) 0"
      using Cons.prems(2) by (simp only: quiet_chain [OF t(2)])
    moreover have "cfg t" using Cons.prems(1) t(2) by (simp add: cfg_def quiet_def)
    ultimately have "loop_spec len (xs @ [c]) cs t (mallocLoop E len (first_chunk cs 0) (last_chunk 0 (xs @ [c])) t)"
      using Cons.prems(3) by (intro Cons.IH) simp_all
    then show ?thesis
      using loop_spec_next [OF None t(2)] mallocLoop_next [OF ok t] by simp
  next
    case (Some r)
    obtain a bs where r: "r = (a, bs)" by (cases r)
    obtain t b where t: "allocMallocBlock E (c_addr c) len s = Some (user_memory len a, t)"
      "chunk_ok t (last_chunk 0 xs) (first_chunk cs 0) (with_blks c bs)" "only_in c s t"
      "b \<in> set (c_blks c)" "b_addr b = a" "fits len b" "guard_set len b (hp s) (hp t)"
      using alloc Some r by auto
    have "user_memory len a \<noteq> 0" using user_memory_unat(2) [OF shape t(4)] t(5) by simp
    then have "mallocLoop E len (first_chunk (c # cs) 0) (last_chunk 0 xs) s
        = Some (user_memory len a, last_chunk 0 xs, t)"
      using chunk_shapeD(1) [OF shape] t(1) by (subst mallocLoop.simps) simp
    moreover have "chain t 0 (xs @ with_blks c bs # cs) 0"
      using chain_update [OF Cons.prems(2,3) t(2,3)] .
    ultimately show ?thesis
      using Some r t(4-7) keeps_only_in [OF t(3)] handed_fromI [of c "c # cs" b]
      by (auto simp: loop_spec_def)
  qed
qed

end
