(* ===== verification/Fresh.thy ===== *)
theory Fresh
  imports Alloc
begin

text \<open>
  A new mmap block: what \<^verbatim>\<open>allocMMAP\<close> and \<^verbatim>\<open>mmapBlockAllocate\<close> add to the list of chunks.
\<close>

section \<open>A fresh chunk\<close>

definition fresh_chunk :: "addr \<Rightarrow> size_t \<Rightarrow> chunk" where
  "fresh_chunk a n = \<lparr>c_addr = a, c_size = n, c_blks =
     [\<lparr>b_addr = a + sizeof_mmapHeader, b_size = n - sizeof_mmapHeader - sizeof_mallocHeader,
       b_status = VGC_MALLOC_FREE\<rparr>]\<rparr>"

lemma fresh_chunk_sel [simp]:
  "c_addr (fresh_chunk a n) = a" "c_size (fresh_chunk a n) = n"
  by (simp_all add: fresh_chunk_def)

lemma fresh_chunk_shape:
  assumes "a \<noteq> 0" and "4096 dvd unat a" and "unat a + unat n \<le> 2 ^ 47"
    and "12288 \<le> unat n" and "unat n \<le> 32768000" and "4096 dvd unat n"
  shows "chunk_shape (fresh_chunk a n)"
proof -
  have "unat (a + 4096) = unat a + 4096" using assms(3,4) by (simp add: unat_add_ok)
  moreover have "unat (n - 4096 - 8192) = unat n - 12288"
    using assms(4) by (simp add: unat_sub_ok)
  moreover have "4096 dvd unat n - 12288" using assms(6) by (intro dvd_diff_nat) simp_all
  ultimately show ?thesis
    using assms by (simp add: chunk_shape_def fresh_chunk_def)
qed

text \<open>The frame of an operation that maps \<open>n\<close> bytes at \<open>a\<close>.\<close>

definition fresh_frame :: "addr \<Rightarrow> size_t \<Rightarrow> addr \<Rightarrow> state \<Rightarrow> state \<Rightarrow> bool" where
  "fresh_frame a n l s s' \<longleftrightarrow>
     maps (hp s') = (a, n) # maps (hp s) \<and>
     shared (hp s') = (shared (hp s))\<lparr>sh_mmapBlockCount := sh_mmapBlockCount (shared (hp s)) + 1\<rparr> \<and>
     (\<forall>x. \<not> in_range a n x \<longrightarrow> mallocH (hp s') x = mallocH (hp s) x \<and>
        bytes (hp s') x = bytes (hp s) x \<and> prot (hp s') x = prot (hp s) x \<and>
        mtx s' (MBlock x) = mtx s (MBlock x) \<and> attrs s' (MBlock x) = attrs s (MBlock x) \<and>
        (x \<noteq> l \<longrightarrow> mmapH (hp s') x = mmapH (hp s) x)) \<and>
     (l \<noteq> 0 \<longrightarrow> mmapH (hp s') l = map_option (\<lambda>h. h\<lparr>mm_next := a\<rparr>) (mmapH (hp s) l)) \<and>
     mtx s' MShared = mtx s MShared \<and> attrs s' MShared = attrs s MShared \<and>
     self s' = self s \<and> messageLevel s' = messageLevel s"

lemma mmap_result:
  assumes "mmap_ok E" and "env_mmap E k ms n = a" and "a \<noteq> MAP_FAILED"
  shows "a \<noteq> 0" "4096 dvd unat a" "unat a + unat n \<le> 2 ^ 47"
    "\<forall>r \<in> set ms. disjoint_regions (a, n) r"
  using assms by (auto simp: mmap_ok_def)

lemma allocMMAP_fail:
  assumes "env_mmap E (ticks s) (maps (hp s)) n = MAP_FAILED"
  shows "allocMMAP E n l s = Some (MAP_FAILED,
    report ERROR_LEVEL (Rep F_allocMMAP S_mmap) (s\<lparr>ticks := Suc (ticks s)\<rparr>))"
  using assms by (simp add: allocMMAP_def mmap_def Let_def)

text \<open>The memory after \<^verbatim>\<open>allocMMAP\<close>: the fresh page's header, hooked to the last one, and its block.\<close>

definition fresh_hdr :: "size_t \<Rightarrow> addr \<Rightarrow> VGC_mmapHeader" where
  "fresh_hdr n l = zero_mmapHeader\<lparr>mm_size := n,
     mm_maxSize := n - sizeof_mmapHeader - sizeof_mallocHeader, mm_prev := l, mm_next := 0,
     mm_elements := 0, mm_checkStart := 0xAA, mm_checkEnd := 0xAA\<rparr>"

definition fresh_mb :: "addr \<Rightarrow> size_t \<Rightarrow> VGC_mallocHeader" where
  "fresh_mb a n = zero_mallocHeader\<lparr>mb_size := n - sizeof_mmapHeader - sizeof_mallocHeader,
     mb_status := VGC_MALLOC_FREE, mb_mmapBlock := a, mb_prev := 0, mb_next := 0,
     mb_checkStart := 0xAA, mb_checkEnd := 0xAA\<rparr>"

definition fresh_links :: "addr \<Rightarrow> size_t \<Rightarrow> addr \<Rightarrow> (addr \<Rightarrow> VGC_mmapHeader option) \<Rightarrow> addr \<Rightarrow> VGC_mmapHeader option" where
  "fresh_links a n l m = (\<lambda>x. if x = a then Some (fresh_hdr n l)
     else if l \<noteq> 0 \<and> x = l then map_option (\<lambda>h. h\<lparr>mm_next := a\<rparr>) (m l) else m x)"

definition fresh_heap :: "addr \<Rightarrow> size_t \<Rightarrow> addr \<Rightarrow> heap \<Rightarrow> heap" where
  "fresh_heap a n l h =
     (let h = (clear_range a n h)\<lparr>maps := (a, n) # maps h\<rparr>
      in set_prot (a + 4096) True (h\<lparr>mmapH := fresh_links a n l (mmapH h),
           mallocH := (mallocH h)(a + 4096 \<mapsto> fresh_mb a n),
           shared := (shared h)\<lparr>sh_mmapBlockCount := sh_mmapBlockCount (shared h) + 1\<rparr>\<rparr>))"

definition fresh_locks :: "addr \<Rightarrow> size_t \<Rightarrow> (mid \<Rightarrow> pmutex) \<Rightarrow> mid \<Rightarrow> pmutex" where
  "fresh_locks a n m = (\<lambda>i. case i of MShared \<Rightarrow> m MShared
     | MBlock x \<Rightarrow> if in_range a n x then (m i)\<lparr>pm_lock := Uninit\<rparr> else m i)"

lemma fresh_locks_other [simp]:
  "fresh_locks a n m MShared = m MShared" "\<not> in_range a n x \<Longrightarrow> fresh_locks a n m (MBlock x) = m (MBlock x)"
  by (simp_all add: fresh_locks_def)

text \<open>The three stores into mmap headers.\<close>

lemma fresh_links_run:
  assumes "mmapH (hp t) a = Some zero_mmapHeader" and "l \<noteq> a" and "l \<noteq> 0 \<Longrightarrow> \<exists>h. mmapH (hp t) l = Some h"
  shows "\<exists>u v. upd_mm a (\<lambda>h. h\<lparr>mm_size := n, mm_maxSize := n - sizeof_mmapHeader - sizeof_mallocHeader,
       mm_prev := l, mm_next := 0\<rparr>) t = Some u \<and>
     (if l \<noteq> 0 then upd_mm l (\<lambda>h. h\<lparr>mm_next := a\<rparr>) u else Some u) = Some v \<and>
     upd_mm a (\<lambda>h. h\<lparr>mm_elements := 0, mm_checkStart := 0xAA, mm_checkEnd := 0xAA\<rparr>) v
       = Some (t\<lparr>hp := (hp t)\<lparr>mmapH := fresh_links a n l (mmapH (hp t))\<rparr>\<rparr>)"
  using assms
  by (cases "l = 0") (auto simp: upd_mm_Some put_mm_def fresh_links_def fresh_hdr_def fun_eq_iff)

text \<open>The mutex of the fresh page is made and taken.\<close>

lemma fresh_mutex_run:
  assumes E: "reliable E"
  shows "\<exists>t u v. PTHREAD_mutexattrInit E i s = (True, t) \<and> PTHREAD_mutexInit E i t = Some (True, u) \<and>
     PTHREAD_mutexLock E i u = Some (True, v) \<and> hp v = hp s \<and> attrs v = (attrs s)(i \<mapsto> vgc_pattr) \<and>
     self v = self s \<and> messageLevel v = messageLevel s \<and>
     mtx v = (mtx s)(i := free_mutex\<lparr>pm_lock := Locked (self s)\<rparr>)"
  using E by (simp add: PTHREAD_mutexattrInit_ok PTHREAD_mutexInit_ok PTHREAD_mutexLock_free)

lemma fresh_mapped:
  assumes "(a, n) \<in> set (maps (hp t))" and "unat a + unat n \<le> 2 ^ 47" and "12288 \<le> unat n"
  shows "mapped a 4096 t" "mapped (a + 4096) 4096 t" "mapped (a + 4096) 8192 t"
  using assms by (auto intro!: mapped_in_region simp: unat_add_ok)

text \<open>The page is mapped, its header cast and its mutex taken.\<close>

lemma fresh_page_run:
  assumes E: "reliable E" and mm: "mmap_ok E"
    and a: "env_mmap E (ticks s) (maps (hp s)) n = a" "a \<noteq> MAP_FAILED" and n: "12288 \<le> unat n"
  shows "\<exists>s1 t2 t3 t. mmap E n s = (a, s1) \<and> cast_mm a s1 = Some zero_mmapHeader \<and>
     PTHREAD_mutexattrInit E (MBlock a) (put_mm a zero_mmapHeader s1) = (True, t2) \<and>
     PTHREAD_mutexInit E (MBlock a) t2 = Some (True, t3) \<and> PTHREAD_mutexLock E (MBlock a) t3 = Some (True, t) \<and>
     hp t = (clear_range a n (hp s))\<lparr>maps := (a, n) # maps (hp s),
       mmapH := (mmapH (clear_range a n (hp s)))(a \<mapsto> zero_mmapHeader)\<rparr> \<and>
     attrs t = (attrs s)(MBlock a \<mapsto> vgc_pattr) \<and> self t = self s \<and> messageLevel t = messageLevel s \<and>
     mtx t = (fresh_locks a n (mtx s))(MBlock a := free_mutex\<lparr>pm_lock := Locked (self s)\<rparr>)"
proof -
  let ?s1 = "s\<lparr>ticks := Suc (ticks s), hp := (clear_range a n (hp s))\<lparr>maps := (a, n) # maps (hp s)\<rparr>,
    mtx := fresh_locks a n (mtx s)\<rparr>"
  note r = mmap_result [OF mm a]
  have map: "mmap E n s = (a, ?s1)"
    using a by (simp add: mmap_def fresh_locks_def Let_def cong: mid.case_cong if_cong)
  have "in_range a n a" using r(3) n by (simp add: in_range_def)
  then have "cast_mm a ?s1 = Some zero_mmapHeader"
    using fresh_mapped(1) [of a n ?s1] r(3) n by (simp add: cast_mm_def get_mm_def clear_range_def)
  with map show ?thesis
    using fresh_mutex_run [OF E, of "MBlock a" "put_mm a zero_mmapHeader ?s1"] by (auto simp: put_mm_def)
qed

lemma allocMMAP_run:
  assumes E: "reliable E" and mm: "mmap_ok E"
    and a: "env_mmap E (ticks s) (maps (hp s)) n = a" "a \<noteq> MAP_FAILED" and n: "12288 \<le> unat n"
    and ps: "sh_pageSize (shared (hp s)) = 4096"
    and l: "l \<noteq> 0 \<Longrightarrow> \<exists>h. mmapH (hp s) l = Some h" "l \<noteq> 0 \<Longrightarrow> \<not> in_range a n l"
  shows "\<exists>s'. allocMMAP E n l s = Some (a, s') \<and> hp s' = fresh_heap a n l (hp s) \<and>
     mtx s' = (fresh_locks a n (mtx s))(MBlock a := free_mutex) \<and>
     attrs s' = (attrs s)(MBlock a \<mapsto> vgc_pattr) \<and> self s' = self s \<and> messageLevel s' = messageLevel s"
proof -
  let ?b = "a + 4096" and ?h = "(clear_range a n (hp s))\<lparr>maps := (a, n) # maps (hp s)\<rparr>"
  note r = mmap_result [OF mm a]
  have inr: "in_range a n a" "in_range a n ?b"
    using r(3) n by (simp_all add: in_range_def unat_add_ok)
  have la: "l \<noteq> a" using l(2) inr r(1) by (cases "l = 0") auto
  obtain s1 t2 t3 t where page: "mmap E n s = (a, s1)" "cast_mm a s1 = Some zero_mmapHeader"
    "PTHREAD_mutexattrInit E (MBlock a) (put_mm a zero_mmapHeader s1) = (True, t2)"
    "PTHREAD_mutexInit E (MBlock a) t2 = Some (True, t3)" "PTHREAD_mutexLock E (MBlock a) t3 = Some (True, t)"
    and t: "hp t = ?h\<lparr>mmapH := (mmapH ?h)(a \<mapsto> zero_mmapHeader)\<rparr>" "attrs t = (attrs s)(MBlock a \<mapsto> vgc_pattr)"
    "self t = self s" "messageLevel t = messageLevel s"
    "mtx t = (fresh_locks a n (mtx s))(MBlock a := free_mutex\<lparr>pm_lock := Locked (self s)\<rparr>)"
    using fresh_page_run [OF E mm a n] by auto
  have "l \<noteq> 0 \<Longrightarrow> \<exists>h. mmapH (hp t) l = Some h" using l la t(1) by (simp add: clear_range_def)
  define y where "y = t\<lparr>hp := (hp t)\<lparr>mmapH := fresh_links a n l (mmapH (hp t))\<rparr>\<rparr>"
  obtain u v where links: "upd_mm a (\<lambda>h. h\<lparr>mm_size := n, mm_maxSize := n - 12288, mm_prev := l, mm_next := 0\<rparr>) t = Some u"
     "(if l \<noteq> 0 then upd_mm l (\<lambda>h. h\<lparr>mm_next := a\<rparr>) u else Some u) = Some v"
     "upd_mm a (\<lambda>h. h\<lparr>mm_elements := 0, mm_checkStart := 0xAA, mm_checkEnd := 0xAA\<rparr>) v = Some y"
    using fresh_links_run [of t a l n] la t(1) \<open>l \<noteq> 0 \<Longrightarrow> \<exists>h. mmapH (hp t) l = Some h\<close>
    by (auto simp: y_def)
  define w where "w = report VGC_MALLOC_DEBUG_LEVEL (Rep F_vgc_malloc S_new_mmap) y"
  have hpw: "hp w = ?h\<lparr>mmapH := fresh_links a n l (mmapH ?h)\<rparr>" "mtx w = mtx t" "self w = self t"
    "attrs w = attrs t" "messageLevel w = messageLevel t"
    using t(1) la by (auto simp: w_def y_def fresh_links_def fun_eq_iff)
  have cb: "cast_mb ?b w = Some zero_mallocHeader" and mmw: "get_mm a w = Some (fresh_hdr n l)"
    using fresh_mapped(3) [of a n w] inr r(3) n hpw(1)
    by (simp_all add: cast_mb_def get_mb_def get_mm_def clear_range_def fresh_links_def)
  let ?x = "put_mb ?b (fresh_mb a n) w"
  have vp: "VGC_mprotect E ?b ?x = (True, ?x\<lparr>ticks := Suc (ticks ?x), hp := set_prot ?b True (hp ?x)\<rparr>)"
    using fresh_mapped(2) [of a n ?x] r(2,3) n ps hpw(1)
    by (intro VGC_mprotect_ok [OF E]) (simp_all add: unat_add_ok)
  have eqb: "put_mb ?b (zero_mallocHeader\<lparr>mb_size := mm_maxSize (fresh_hdr n l), mb_status := VGC_MALLOC_FREE,
      mb_mmapBlock := a, mb_prev := 0, mb_next := 0, mb_checkStart := 170, mb_checkEnd := 170\<rparr>) w = ?x"
    by (simp add: fresh_hdr_def fresh_mb_def)
  show ?thesis
    using E r(1) a(2) links t hpw
    by (simp add: allocMMAP_def page w_def [symmetric] firstMallocHeaderInMMAP_def cb mmw eqb vp
        PTHREAD_mutexUnlock_held Let_def)
      (simp add: fresh_heap_def set_prot_def put_mb_def upd_shared_def t Let_def)
qed

lemma fresh_chunk_ok:
  assumes shape: "chunk_shape (fresh_chunk a n)" and hp: "hp s' = fresh_heap a n l h"
    and "mtx s' (MBlock a) = free_mutex" "attrs s' (MBlock a) = Some vgc_pattr"
  shows "chunk_ok s' l 0 (fresh_chunk a n)"
  using shape assms(3,4)
  by (simp add: chunk_ok_def chunk_mem_def hp fresh_heap_def fresh_links_def set_prot_def guards_only_def
      fresh_chunk_def holds_def fresh_mb_def fresh_hdr_def chunk_hdr_def zero_mmapHeader_def clear_range_def Let_def)

lemma allocMMAP_ok:
  assumes E: "reliable E" and mm: "mmap_ok E"
    and a: "env_mmap E (ticks s) (maps (hp s)) n = a" "a \<noteq> MAP_FAILED"
    and n: "12288 \<le> unat n" "unat n \<le> 32768000" "4096 dvd unat n"
    and ps: "sh_pageSize (shared (hp s)) = 4096"
    and l: "l \<noteq> 0 \<Longrightarrow> \<exists>h. mmapH (hp s) l = Some h" "l \<noteq> 0 \<Longrightarrow> \<not> in_range a n l"
  shows "\<exists>s'. allocMMAP E n l s = Some (a, s') \<and>
     chunk_ok s' l 0 (fresh_chunk a n) \<and> fresh_frame a n l s s'"
proof -
  note r = mmap_result [OF mm a]
  have inr: "in_range a n a" "in_range a n (a + 4096)"
    using r(3) n by (simp_all add: in_range_def unat_add_ok)
  obtain s' where s': "allocMMAP E n l s = Some (a, s')" "hp s' = fresh_heap a n l (hp s)"
    "mtx s' = (fresh_locks a n (mtx s))(MBlock a := free_mutex)"
    "attrs s' = (attrs s)(MBlock a \<mapsto> vgc_pattr)" "self s' = self s" "messageLevel s' = messageLevel s"
    using allocMMAP_run [OF E mm a n(1) ps l] by blast
  have "chunk_ok s' l 0 (fresh_chunk a n)"
    using fresh_chunk_ok [OF _ s'(2)] fresh_chunk_shape r n s'(3,4) by simp
  moreover have "in_range (a + 4096) 4096 x \<Longrightarrow> in_range a n x" for x
    using r(3) n by (simp add: in_range_def unat_add_ok)
  then have "fresh_frame a n l s s'"
    unfolding fresh_frame_def s'(2)
    using s'(3-6) inr l r(1)
    by (auto simp: fresh_heap_def fresh_links_def set_prot_def clear_range_def Let_def)
  ultimately show ?thesis using s'(1) by blast
qed

lemma chunk_maps: "chain s p cs n \<Longrightarrow> c \<in> set cs \<Longrightarrow> (c_addr c, c_size c) \<in> set (maps (hp s))"
  by (induction cs arbitrary: p) (auto simp: chunk_ok_def chunk_mem_def)

text \<open>A chain that a fresh chunk was hooked to.\<close>

lemma chain_fresh:
  assumes ch: "chain s 0 cs 0" and ap: "sorted_wrt apart cs"
    and new: "\<forall>c \<in> set cs. apart (fresh_chunk a n) c"
    and fr: "fresh_frame a n (last_chunk 0 cs) s s'"
    and ok: "chunk_ok s' (last_chunk 0 cs) 0 (fresh_chunk a n)"
  shows "chain s' 0 (cs @ [fresh_chunk a n]) 0"
proof (cases cs rule: rev_cases)
  case Nil
  then show ?thesis using ok by simp
next
  case (snoc ds d)
  have shapes: "chunk_shape c" if "c \<in> set cs" for c
    using chain_shape [OF ch that] .
  have out: "\<not> in_range a n x" if "c \<in> set cs" "in_range (c_addr c) (c_size c) x" for c x
    using apart_in_range [of "fresh_chunk a n" c x] new that by auto
  have ds: "chain s' 0 ds (c_addr d)"
  proof (rule chain_frame)
    show "chain s 0 ds (c_addr d)" using ch snoc by simp
    show "\<forall>c\<in>set ds. same_region c (hp s) (hp s') \<and>
        mtx s' (MBlock (c_addr c)) = mtx s (MBlock (c_addr c)) \<and>
        attrs s' (MBlock (c_addr c)) = attrs s (MBlock (c_addr c))"
    proof (intro ballI)
      fix c assume c: "c \<in> set ds"
      then have ac: "apart c d" and cs: "c \<in> set cs" using ap snoc by (auto simp: sorted_wrt_append)
      have "in_range (c_addr c) (c_size c) x \<Longrightarrow> x \<noteq> c_addr d" for x
        using apart_in_range [OF ac chunk_in_own_range] shapes [of d] snoc by auto
      then show "same_region c (hp s) (hp s') \<and>
        mtx s' (MBlock (c_addr c)) = mtx s (MBlock (c_addr c)) \<and>
        attrs s' (MBlock (c_addr c)) = attrs s (MBlock (c_addr c))"
        using fr out [OF cs] chunk_in_own_range [OF shapes [OF cs]] snoc
        by (simp add: fresh_frame_def same_region_def)
    qed
  qed
  have d: "d \<in> set cs" using snoc by simp
  have dok: "chunk_ok s (last_chunk 0 ds) 0 d" using ch snoc by simp
  have "same_body d (hp s) (hp s')"
    using fr out [OF d] by (simp add: fresh_frame_def same_body_def)
  moreover have "mmapH (hp s') (c_addr d) = Some (chunk_hdr (last_chunk 0 ds) a d)"
    using fr dok snoc chunk_shapeD(1) [OF shapes [OF d]]
    by (simp add: fresh_frame_def chunk_ok_def chunk_mem_def chunk_hdr_def)
  ultimately have "chunk_mem (hp s') (last_chunk 0 ds) a d"
    using dok by (auto simp: chunk_ok_def intro: chunk_mem_relink)
  then have "chunk_ok s' (last_chunk 0 ds) a d"
    using dok fr out [OF d] chunk_in_own_range [OF shapes [OF d]]
    by (simp add: chunk_ok_def fresh_frame_def)
  then show ?thesis using ds ok snoc by simp
qed

text \<open>
  \<^verbatim>\<open>mmapBlockAllocate\<close>: a chunk of the full size, or one of a tenth of it, or none.
\<close>

definition chunk_sizes :: "size_t list" where
  "chunk_sizes = [32768000, 3276800]"

lemma chunk_sizes:
  assumes "n \<in> set chunk_sizes"
  shows "12288 \<le> unat n" "unat n \<le> 32768000" "4096 dvd unat n"
  using assms by (auto simp: chunk_sizes_def)

definition shared_part :: "state \<Rightarrow> state \<Rightarrow> bool" where
  "shared_part s s' \<longleftrightarrow> mtx s' MShared = mtx s MShared \<and> attrs s' MShared = attrs s MShared \<and>
     self s' = self s \<and> messageLevel s' = messageLevel s"

lemma last_chunk_in:
  assumes ch: "chain t 0 cs 0" and new: "\<forall>c \<in> set cs. apart (fresh_chunk a n) c" and "last_chunk 0 cs \<noteq> 0"
  shows "\<exists>h. mmapH (hp t) (last_chunk 0 cs) = Some h" "\<not> in_range a n (last_chunk 0 cs)"
proof -
  obtain ds d where cs: "cs = ds @ [d]" using assms(3) by (cases cs rule: rev_cases) auto
  then have d: "d \<in> set cs" and "chunk_ok t (last_chunk 0 ds) 0 d" using ch by auto
  then show "\<exists>h. mmapH (hp t) (last_chunk 0 cs) = Some h" "\<not> in_range a n (last_chunk 0 cs)"
    using cs new apart_in_range [of "fresh_chunk a n" d "c_addr d"]
      chunk_in_own_range [OF chain_shape [OF ch d]]
    by (auto simp: chunk_ok_def chunk_mem_def)
qed

text \<open>One successful \<^verbatim>\<open>allocMMAP\<close>, after steps that changed nothing.\<close>

definition chunk_added :: "chunk list \<Rightarrow> addr \<Rightarrow> size_t \<Rightarrow> state \<Rightarrow> state \<Rightarrow> bool" where
  "chunk_added cs a n s s' \<longleftrightarrow> a \<noteq> MAP_FAILED \<and> n \<in> set chunk_sizes \<and>
     chain s' 0 (cs @ [fresh_chunk a n]) 0 \<and> sorted_wrt apart (cs @ [fresh_chunk a n]) \<and>
     fresh_frame a n (last_chunk 0 cs) s s'"

lemma allocMMAP_chain:
  assumes E: "reliable E" and mm: "mmap_ok E" and cfg: "cfg s"
    and ch: "chain s 0 cs 0" and ap: "sorted_wrt apart cs" and q: "quiet s t"
    and n: "n \<in> set chunk_sizes" and a: "env_mmap E (ticks t) (maps (hp t)) n = a" "a \<noteq> MAP_FAILED"
  shows "\<exists>s'. allocMMAP E n (last_chunk 0 cs) t = Some (a, s') \<and> chunk_added cs a n s s'"
proof -
  have cht: "chain t 0 cs 0" using ch quiet_chain [OF q] by simp
  have new: "\<forall>c \<in> set cs. apart (fresh_chunk a n) c"
    using mmap_result(4) [OF mm a] chunk_maps [OF cht] by (auto simp: apart_def)
  have "sh_pageSize (shared (hp t)) = 4096"
    using cfgD(1) [OF cfg] q by (simp add: quiet_def)
  then obtain s' where s': "allocMMAP E n (last_chunk 0 cs) t = Some (a, s')"
    "chunk_ok s' (last_chunk 0 cs) 0 (fresh_chunk a n)" "fresh_frame a n (last_chunk 0 cs) t s'"
    using allocMMAP_ok [OF E mm a chunk_sizes [OF n], of "last_chunk 0 cs"] last_chunk_in [OF cht new]
    by (cases "last_chunk 0 cs = 0") auto
  moreover have "fresh_frame a n (last_chunk 0 cs) s s'"
    using s'(3) q by (simp add: fresh_frame_def quiet_def)
  ultimately show ?thesis
    using chain_fresh [OF cht ap new s'(3,2)] ap new a(2) n
    by (auto simp: chunk_added_def sorted_wrt_append intro: apart_sym)
qed

lemma mmapBlockAllocate_ok:
  assumes E: "reliable E" and mm: "mmap_ok E" and cfg: "cfg s"
    and ch: "chain s 0 cs 0" and ap: "sorted_wrt apart cs"
  shows "(\<exists>s'. mmapBlockAllocate E 32768000 (last_chunk 0 cs) s = Some (MAP_FAILED, s') \<and> quiet s s') \<or>
    (\<exists>s' a n. mmapBlockAllocate E 32768000 (last_chunk 0 cs) s = Some (a, s') \<and> chunk_added cs a n s s')"
proof -
  note one = allocMMAP_chain [OF E mm cfg ch ap]
  have sizes: "32768000 \<in> set chunk_sizes" "(32768000 :: size_t) div 10 \<in> set chunk_sizes"
    by (simp_all add: chunk_sizes_def)
  show ?thesis
  proof (cases "env_mmap E (ticks s) (maps (hp s)) 32768000 = MAP_FAILED")
    case False
    then show ?thesis
      using one [OF quiet_refl sizes(1) refl False] by (auto simp: mmapBlockAllocate_def chunk_added_def)
  next
    case True
    define t where "t = report ERROR_LEVEL (Rep F_allocMMAP S_mmap) (s\<lparr>ticks := Suc (ticks s)\<rparr>)"
    have f1: "allocMMAP E 32768000 (last_chunk 0 cs) s = Some (MAP_FAILED, t)" and q: "quiet s t"
      using allocMMAP_fail [OF True] by (simp_all add: t_def quiet_def)
    show ?thesis
    proof (cases "env_mmap E (ticks t) (maps (hp t)) (32768000 div 10) = MAP_FAILED")
      case True
      then show ?thesis
        using f1 allocMMAP_fail [OF True, of "last_chunk 0 cs"] q
        by (intro disjI1) (simp add: mmapBlockAllocate_def quiet_def)
    next
      case False
      then show ?thesis
        using f1 one [OF q sizes(2) refl False] by (auto simp: mmapBlockAllocate_def chunk_added_def)
    qed
  qed
qed

end
