(* ===== verification/Malloc_Spec.thy ===== *)
theory Malloc_Spec
  imports Fresh
begin

text \<open>
  \<^verbatim>\<open>vgc_malloc\<close> as an operation on the list of chunks: \<open>malloc_spec\<close>, and the proof that the
  code implements it and keeps the invariant.
\<close>

section \<open>vgc_malloc\<close>

text \<open>
  What a call computes on the abstract state; \<open>new\<close> is the chunk the environment provides if
  one is asked for. The limit is the \<open>maxSize\<close> of the first chunk.
\<close>

definition max_request :: "chunk list \<Rightarrow> size_t" where
  "max_request cs = c_size (hd cs) - sizeof_mmapHeader - sizeof_mallocHeader"

definition malloc_spec :: "size_t \<Rightarrow> chunk option \<Rightarrow> chunk list \<Rightarrow> addr \<times> chunk list" where
  "malloc_spec sz new cs =
     (if sz = 0 \<or> max_request cs \<le> sz then (0, cs)
      else case alloc_chunks sz cs of
        Some (a, cs') \<Rightarrow> (user_memory sz a, cs')
      | None \<Rightarrow>
          (case new of
             None \<Rightarrow> (0, cs)
           | Some c \<Rightarrow>
               (case alloc_chunks sz [c] of
                  None \<Rightarrow> (0, cs @ [c])
                | Some (a, ds) \<Rightarrow> (user_memory sz a, cs @ ds))))"

definition is_fresh :: "chunk option \<Rightarrow> bool" where
  "is_fresh new \<longleftrightarrow> (\<forall>c. new = Some c \<longrightarrow> chunk_shape c \<and>
     (\<exists>a. \<exists>n \<in> set chunk_sizes. c = fresh_chunk a n))"

text \<open>The user's bytes in the chunks \<open>cs\<close> are as they were.\<close>

definition bytes_kept :: "chunk list \<Rightarrow> state \<Rightarrow> state \<Rightarrow> bool" where
  "bytes_kept cs s s' \<longleftrightarrow> (\<forall>c \<in> set cs. \<forall>x. in_range (c_addr c) (c_size c) x \<longrightarrow>
     bytes (hp s') x = bytes (hp s) x)"

text \<open>No page of theirs was made accessible.\<close>

definition guards_kept :: "chunk list \<Rightarrow> state \<Rightarrow> state \<Rightarrow> bool" where
  "guards_kept cs s s' \<longleftrightarrow> (\<forall>c \<in> set cs. \<forall>x. in_range (c_addr c) (c_size c) x \<longrightarrow>
     prot (hp s) x \<longrightarrow> prot (hp s') x)"

lemma guards_kept_refl [simp]: "guards_kept cs s s"
  by (simp add: guards_kept_def)

lemma guards_kept_trans: "guards_kept cs s t \<Longrightarrow> guards_kept cs t u \<Longrightarrow> guards_kept cs s u"
  by (simp add: guards_kept_def)

text \<open>
  The chunks a block can come from, and the page that is protected after the block: the guard
  page of what was left of it.
\<close>

definition pool :: "chunk option \<Rightarrow> chunk list \<Rightarrow> chunk list" where
  "pool new cs = cs @ (case new of None \<Rightarrow> [] | Some c \<Rightarrow> [c])"

definition guarded_end :: "chunk list \<Rightarrow> size_t \<Rightarrow> addr \<Rightarrow> state \<Rightarrow> bool" where
  "guarded_end cs sz p s \<longleftrightarrow> (\<exists>c \<in> set cs. \<exists>b \<in> set (c_blks c). fits sz b \<and> p = user_memory sz (b_addr b) \<and>
     (page_round 4096 sz + sizeof_mallocHeader < b_size b \<longrightarrow>
       (\<forall>x. in_range (b_addr b + (page_round 4096 sz + sizeof_mallocHeader)) 4096 x \<longrightarrow> prot (hp s) x)))"

lemma guard_setD: "guard_set len b h h' \<Longrightarrow> page_round 4096 len + sizeof_mallocHeader < b_size b \<Longrightarrow>
    in_range (b_addr b + (page_round 4096 len + sizeof_mallocHeader)) 4096 x \<Longrightarrow> prot h' x"
  by (simp add: guard_set_def carve_guard_def set_prot_def)

lemma heap_okD:
  assumes "heap_ok s cs"
  shows "cfg s" "sh_mmapBlockFirst (shared (hp s)) = first_chunk cs 0"
    "sh_mmapBlockCount (shared (hp s)) = int (length cs)" "chain s 0 cs 0"
    "sorted_wrt apart cs" "mtx s MShared = free_mutex" "attrs s MShared = Some vgc_pattr"
  using assms by (simp_all add: heap_ok_def)

lemma wf_keeps:
  assumes "heap_ok s cs" and "chain s' 0 cs' 0" and "keeps s s'" and "sorted_wrt apart cs'"
    and "length cs' = length cs" and "first_chunk cs' 0 = first_chunk cs 0"
  shows "heap_ok s' cs'"
  using assms by (simp add: heap_ok_def keeps_def cfg_def)

lemma max_request_small:
  assumes "heap_ok s cs" and "cs \<noteq> []" and "\<not> max_request cs \<le> sz"
  shows "unat sz + 4096 \<le> 18446744073709551616"
proof -
  have "chunk_shape (hd cs)"
    using chain_shape [OF heap_okD(4) [OF assms(1)]] assms(2) by simp
  then have "unat (max_request cs) \<le> 32768000"
    using chunk_size(2) [of "hd cs"] chunk_shapeD(4) [of "hd cs"]
    by (simp add: max_request_def unat_sub_ok)
  then show ?thesis using assms(3) by (simp add: word_le_nat_alt)
qed

lemma chain_hp:
  assumes "chain s p cs n" and "hp s' = hp s" and "\<forall>x. mtx s' (MBlock x) = mtx s (MBlock x)"
    and "attrs s' = attrs s"
  shows "chain s' p cs n"
  using assms by (intro chain_frame [OF assms(1)]) (simp add: same_region_def)

lemma fresh_frame_bytes:
  assumes "fresh_frame a n l s s'" and "\<forall>c \<in> set cs. apart (fresh_chunk a n) c"
  shows "bytes_kept cs s s'" "guards_kept cs s s'"
  using assms apart_in_range [of "fresh_chunk a n"] by (auto simp: bytes_kept_def guards_kept_def fresh_frame_def)

text \<open>The lock on the shared record is taken for the search and given back.\<close>

lemma unlock_shared_ok:
  assumes E: "reliable E" and "mtx s MShared = free_mutex\<lparr>pm_lock := Locked (self s)\<rparr>"
  shows "\<exists>s'. unlock_reporting E fn MShared s = Some s' \<and> hp s' = hp s \<and> attrs s' = attrs s \<and>
     self s' = self s \<and> messageLevel s' = messageLevel s \<and> mtx s' = (mtx s)(MShared := free_mutex)"
  using assms unlock_reporting_ok [OF E, of s MShared fn] by simp

lemma chain_unlocked:
  assumes "chain s p cs n" and "hp s' = hp s" and "attrs s' = attrs s"
    and "mtx s' = (mtx s)(MShared := m)"
  shows "chain s' p cs n"
  using assms by (intro chain_hp [OF assms(1)]) simp_all

text \<open>Neither taking nor giving back a lock touches memory.\<close>

lemma lock_hp: "PTHREAD_mutexLock E i s = Some (ok, t) \<Longrightarrow> hp t = hp s"
  using PTHREAD_mutexLock_core by (simp add: same_core_def)

lemma unlock_hp: "unlock_reporting E fn i s = Some t \<Longrightarrow> hp t = hp s"
  by (auto simp: unlock_reporting_def same_core_def dest: PTHREAD_mutexUnlock_core split: Option.bind_splits)

text \<open>The invariant while the calling thread holds the shared lock.\<close>

definition wf_held :: "state \<Rightarrow> chunk list \<Rightarrow> bool" where
  "wf_held s cs \<longleftrightarrow> cfg s \<and> sh_mmapBlockFirst (shared (hp s)) = first_chunk cs 0 \<and>
     sh_mmapBlockCount (shared (hp s)) = int (length cs) \<and>
     chain s 0 cs 0 \<and> sorted_wrt apart cs \<and>
     mtx s MShared = free_mutex\<lparr>pm_lock := Locked (self s)\<rparr> \<and> attrs s MShared = Some vgc_pattr"

lemma lock_shared:
  assumes "reliable E" and "heap_ok s cs"
  shows "\<exists>s'. PTHREAD_mutexLock E MShared s = Some (True, s') \<and> wf_held s' cs \<and> hp s' = hp s \<and>
     self s' = self s \<and> attrs s' = attrs s \<and> messageLevel s' = messageLevel s \<and>
     mtx s' = (mtx s)(MShared := free_mutex\<lparr>pm_lock := Locked (self s)\<rparr>)"
proof -
  note w = heap_okD [OF assms(2)]
  let ?s = "s\<lparr>ticks := Suc (ticks s),
     mtx := (mtx s)(MShared := (mtx s MShared)\<lparr>pm_lock := Locked (self s)\<rparr>)\<rparr>"
  have "PTHREAD_mutexLock E MShared s = Some (True, ?s)"
    using assms(1) w(6) by (simp add: PTHREAD_mutexLock_free)
  moreover have "wf_held ?s cs"
    using w chain_hp [OF w(4), of ?s] by (simp add: wf_held_def cfg_def)
  ultimately show ?thesis using w(6) by (intro exI [of _ ?s]) simp
qed

lemma unlock_shared:
  assumes "reliable E" and "wf_held s cs"
  shows "\<exists>s'. unlock_reporting E fn MShared s = Some s' \<and> heap_ok s' cs \<and> hp s' = hp s"
proof -
  obtain s' where "unlock_reporting E fn MShared s = Some s'" "hp s' = hp s" "attrs s' = attrs s"
    "mtx s' = (mtx s)(MShared := free_mutex)"
    using unlock_shared_ok [OF assms(1), of s fn] assms(2) by (auto simp: wf_held_def)
  then show ?thesis
    using assms(2) chain_unlocked [of s 0 cs 0 s'] by (simp add: wf_held_def heap_ok_def cfg_def)
qed

interpretation shared_lock: guarded reliable "\<lambda>E. PTHREAD_mutexLock E MShared"
    "\<lambda>E. unlock_reporting E fn MShared" heap_ok wf_held
proof unfold_locales
  fix E s x
  assume "reliable E" and "heap_ok s x"
  then show "\<exists>t. PTHREAD_mutexLock E MShared s = Some (True, t) \<and> wf_held t x"
    using lock_shared by blast
next
  fix E t x
  assume "reliable E" and "wf_held t x"
  then show "\<exists>s. unlock_reporting E fn MShared t = Some s \<and> heap_ok s x"
    using unlock_shared by blast
qed

lemma wf_held_keeps:
  assumes "wf_held s cs" and "chain s' 0 cs' 0" and "keeps s s'" and "sorted_wrt apart cs'"
    and "length cs' = length cs" and "first_chunk cs' 0 = first_chunk cs 0"
  shows "wf_held s' cs'"
  using assms by (simp add: wf_held_def keeps_def cfg_def)

lemma wf_heldD:
  assumes "wf_held s cs"
  shows "cfg s" "sh_mmapBlockFirst (shared (hp s)) = first_chunk cs 0" "chain s 0 cs 0"
    "sorted_wrt apart cs"
  using assms by (simp_all add: wf_held_def)

lemma wf_held_quiet: "wf_held s cs \<Longrightarrow> quiet s s' \<Longrightarrow> wf_held s' cs"
  using quiet_chain [of s s' 0 cs 0] by (simp add: wf_held_def quiet_def cfg_def)

lemma wf_held_fresh:
  assumes "wf_held s cs" and "cs \<noteq> []" and "fresh_frame a n l s s'"
    and "chain s' 0 (cs @ [fresh_chunk a n]) 0" and "sorted_wrt apart (cs @ [fresh_chunk a n])"
  shows "wf_held s' (cs @ [fresh_chunk a n])"
  using assms by (cases cs) (auto simp: wf_held_def fresh_frame_def cfg_def)

text \<open>
  The part of \<^verbatim>\<open>vgc_malloc\<close> under the lock, and \<^verbatim>\<open>vgc_malloc\<close> as a critical section around it once
  the tests on the size are passed.
\<close>

definition search_body :: "env \<Rightarrow> size_t \<Rightarrow> state \<Rightarrow> (addr \<times> state) option" where
  "search_body E sz s = do {
     (memory, mmapBlockLast, s) \<leftarrow> mallocLoop E sz (sh_mmapBlockFirst (shared (hp s))) 0 s;
     if memory \<noteq> 0 then Some (memory, s)
     else do {
       (next, s) \<leftarrow> mmapBlockAllocate E (sh_mmapBlockSize (shared (hp s))) mmapBlockLast s;
       if next = MAP_FAILED then Some (0, s) else allocMallocBlock E next sz s } }"

lemma vgc_malloc_section:
  assumes ok: "heap_ok s cs" and ne: "cs \<noteq> []" and sz: "sz \<noteq> 0" "\<not> max_request cs \<le> sz"
  shows "vgc_malloc E sz s = (do {
     (ok, s) \<leftarrow> PTHREAD_mutexLock E MShared s;
     if \<not> ok then Some (0, report ERROR_LEVEL (Rep F_vgc_malloc S_mutexLock) s)
     else do { (r, s) \<leftarrow> search_body E sz s; s \<leftarrow> unlock_reporting E F_vgc_malloc MShared s; Some (r, s) } })"
proof -
  note w = heap_okD [OF ok]
  have first: "sh_mmapBlockFirst (shared (hp s)) = c_addr (hd cs)"
    using w(2) ne by (cases cs) auto
  have "\<exists>n. chunk_ok s 0 n (hd cs)" using w(4) ne by (cases cs) auto
  then have "c_addr (hd cs) \<noteq> 0" and
    "\<exists>h. get_mm (c_addr (hd cs)) s = Some h \<and> mm_maxSize h = max_request cs"
    by (auto simp: chunk_ok_def chunk_mem_def get_mm_def chunk_hdr_def max_request_def chunk_shape_def)
  then show ?thesis
    using first sz cfgD(3) [OF w(1)]
    by (auto simp: vgc_malloc_def search_body_def Let_def case_prod_unfold
        if_distrib [where f = "\<lambda>m. Option.bind m k" for k] cong: if_cong)
qed

text \<open>What a call promises besides its result and the invariant.\<close>

definition new_region :: "chunk option \<Rightarrow> (addr \<times> size_t) list" where
  "new_region new = (case new of None \<Rightarrow> [] | Some c \<Rightarrow> [(c_addr c, c_size c)])"

text \<open>A region is mapped only when no chunk has a block for the request.\<close>

definition mapped_for :: "size_t \<Rightarrow> chunk option \<Rightarrow> chunk list \<Rightarrow> state \<Rightarrow> state \<Rightarrow> bool" where
  "mapped_for sz new cs s s' \<longleftrightarrow> maps (hp s') = new_region new @ maps (hp s) \<and>
     (new = None \<or> alloc_chunks sz cs = None)"

definition step_ok :: "size_t \<Rightarrow> chunk option \<Rightarrow> chunk list \<Rightarrow> state \<Rightarrow> state \<Rightarrow> bool" where
  "step_ok sz new cs s s' \<longleftrightarrow> is_fresh new \<and> bytes_kept cs s s' \<and> guards_kept cs s s' \<and> mapped_for sz new cs s s' \<and>
     (\<forall>c. new = Some c \<longrightarrow> (\<forall>d \<in> set cs. apart c d)) \<and>
     (fst (malloc_spec sz new cs) \<noteq> 0 \<longrightarrow> guarded_end (pool new cs) sz (fst (malloc_spec sz new cs)) s')"

lemma guarded_end_handed:
  "handed_from cs sz a h (hp s) \<Longrightarrow> guarded_end cs sz (user_memory sz a) s"
  by (fastforce simp: handed_from_def guarded_end_def dest: guard_setD)

lemma guard_set_kept: "guard_set sz b (hp s) (hp s') \<Longrightarrow> guards_kept cs s s'"
  by (auto simp: guards_kept_def guard_set_def carve_guard_def set_prot_def)

lemma handed_from_kept: "handed_from cs sz a (hp s) (hp s') \<Longrightarrow> guards_kept ds s s'"
  by (auto simp: handed_from_def intro: guard_set_kept)

text \<open>The search finds a block in a chunk that is there.\<close>

lemma search_found:
  assumes E: "reliable E" and held: "wf_held s cs" and sz: "sz \<noteq> 0" "\<not> max_request cs \<le> sz"
    and small: "unat sz + 4096 \<le> 18446744073709551616" and al: "alloc_chunks sz cs = Some (a, cs')"
  shows "\<exists>u. search_body E sz s = Some (fst (malloc_spec sz None cs), u) \<and>
     wf_held u (snd (malloc_spec sz None cs)) \<and> step_ok sz None cs s u"
proof -
  note w = wf_heldD [OF held]
  note loop = mallocLoop_ok [OF E small w(1), of "[]" cs, simplified, OF w(3,4)]
  obtain u l where u: "mallocLoop E sz (first_chunk cs 0) 0 s = Some (user_memory sz a, l, u)"
    "chain u 0 cs' 0" "keeps s u" "handed_from cs sz a (hp s) (hp u)"
    using loop al by (auto simp: loop_spec_def)
  have spec: "malloc_spec sz None cs = (user_memory sz a, cs')"
    using sz al by (simp add: malloc_spec_def)
  have "user_memory sz a \<noteq> 0"
    using u(4) user_memory_unat(2) chain_shape [OF w(3)] by (auto simp: handed_from_def)
  moreover have "wf_held u cs'"
    using wf_held_keeps [OF held u(2,3)] alloc_chunks_apart(1) [OF al, of "[]"]
      alloc_chunks_apart(2,3) [OF al] w(4) by simp
  ultimately show ?thesis
    using u(1,3) w(2) guarded_end_handed [OF u(4)] handed_from_kept [OF u(4)]
    by (simp add: search_body_def spec step_ok_def is_fresh_def bytes_kept_def keeps_def pool_def
        mapped_for_def new_region_def)
qed

text \<open>The search in the chunk that was added.\<close>

lemma search_fresh:
  assumes E: "reliable E" and held: "wf_held s cs" and ne: "cs \<noteq> []"
    and sz: "sz \<noteq> 0" "\<not> max_request cs \<le> sz" and small: "unat sz + 4096 \<le> 18446744073709551616"
    and none: "alloc_chunks sz cs = None" and new: "chunk_added cs p n s t"
  shows "\<exists>u. allocMallocBlock E p sz t = Some (fst (malloc_spec sz (Some (fresh_chunk p n)) cs), u) \<and>
     wf_held u (snd (malloc_spec sz (Some (fresh_chunk p n)) cs)) \<and> step_ok sz (Some (fresh_chunk p n)) cs s u"
proof -
  let ?f = "fresh_chunk p n" and ?new = "Some (fresh_chunk p n)"
  have t: "n \<in> set chunk_sizes" "chain t 0 (cs @ [?f]) 0" "sorted_wrt apart (cs @ [?f])"
    "fresh_frame p n (last_chunk 0 cs) s t"
    using new by (simp_all add: chunk_added_def)
  note ht = wf_held_fresh [OF held ne t(4,2,3)]
  have ap: "\<forall>c \<in> set cs. apart ?f c" using t(3) by (auto simp: sorted_wrt_append intro: apart_sym)
  have fok: "chunk_ok t (last_chunk 0 cs) 0 ?f" using t(2) by simp
  have fresh: "is_fresh ?new" using t(1) fok by (auto simp: is_fresh_def chunk_ok_def chunk_mem_def)
  note bk = fresh_frame_bytes [OF t(4) ap]
  have mp: "mapped_for sz ?new cs s t" using t(4) none by (simp add: mapped_for_def new_region_def fresh_frame_def)
  note alloc = allocMallocBlock_ok [OF E wf_heldD(1) [OF ht] fok small, simplified]
  show ?thesis
  proof (cases "alloc_list sz (page_round 4096 sz) (c_blks ?f)")
    case None
    then obtain u where u: "allocMallocBlock E p sz t = Some (0, u)" "quiet t u" using alloc by auto
    have "malloc_spec sz ?new cs = (0, cs @ [?f])" using none None sz by (simp add: malloc_spec_def)
    then show ?thesis
      using u wf_held_quiet [OF ht u(2)] fresh ap bk mp
      by (simp add: step_ok_def bytes_kept_def guards_kept_def quiet_def mapped_for_def)
  next
    case (Some r)
    obtain a bs where r: "r = (a, bs)" by (cases r)
    obtain u b where u: "allocMallocBlock E p sz t = Some (user_memory sz a, u)"
      "chunk_ok u (last_chunk 0 cs) 0 (with_blks ?f bs)" "only_in ?f t u"
      "b \<in> set (c_blks ?f)" "b_addr b = a" "fits sz b" "guard_set sz b (hp t) (hp u)"
      using alloc Some r by auto
    have "chain u 0 (cs @ with_blks ?f bs # []) 0"
      using t(2,3) u(2,3) by (intro chain_update [where s = t]) simp_all
    then have "wf_held u (cs @ [with_blks ?f bs])"
      using t(3) keeps_only_in [OF u(3)] sorted_wrt_apart_with_blks [where xs = cs and c = ?f and bs = bs and ys = "[]"]
      by (intro wf_held_keeps [OF ht]) simp_all
    moreover have "malloc_spec sz ?new cs = (user_memory sz a, cs @ [with_blks ?f bs])"
      using none Some sz r by (simp add: malloc_spec_def)
    moreover have "handed_from (pool ?new cs) sz a (hp t) (hp u)"
      using handed_fromI [of ?f "pool ?new cs", OF _ u(4,6,7)] u(5) by (simp add: pool_def)
    moreover have "bytes_kept cs s u" using bk(1) u(3) by (simp add: bytes_kept_def only_in_def)
    moreover have "guards_kept cs s u" using guards_kept_trans [OF bk(2) guard_set_kept [OF u(7)]] .
    moreover have "mapped_for sz ?new cs s u" using mp u(3) by (simp add: mapped_for_def only_in_def)
    ultimately show ?thesis
      using u(1) fresh ap guarded_end_handed by (auto simp: step_ok_def)
  qed
qed

lemma search_ok:
  assumes E: "reliable E" and mm: "mmap_ok E" and held: "wf_held s cs" and ne: "cs \<noteq> []"
    and sz: "sz \<noteq> 0" "\<not> max_request cs \<le> sz" and small: "unat sz + 4096 \<le> 18446744073709551616"
  shows "\<exists>new u. search_body E sz s = Some (fst (malloc_spec sz new cs), u) \<and>
     wf_held u (snd (malloc_spec sz new cs)) \<and> step_ok sz new cs s u"
proof (cases "alloc_chunks sz cs")
  case (Some r)
  then show ?thesis using search_found [OF E held sz small] by (cases r) blast
next
  case None
  note w = wf_heldD [OF held]
  obtain t where t: "mallocLoop E sz (first_chunk cs 0) 0 s = Some (0, last_chunk 0 cs, t)" "quiet s t"
    using mallocLoop_ok [OF E small w(1), of "[]" cs] w(3,4) None by (auto simp: loop_spec_def)
  note ht = wf_held_quiet [OF held t(2)]
  note wt = wf_heldD [OF ht]
  have body: "search_body E sz s = (do {
      (next, u) \<leftarrow> mmapBlockAllocate E 32768000 (last_chunk 0 cs) t;
      if next = MAP_FAILED then Some (0, u) else allocMallocBlock E next sz u })"
    using t(1) w(2) cfgD(2) [OF wt(1)] by (simp add: search_body_def)
  from mmapBlockAllocate_ok [OF E mm wt(1,3,4)] show ?thesis
  proof (elim disjE exE conjE)
    fix u assume u: "mmapBlockAllocate E 32768000 (last_chunk 0 cs) t = Some (MAP_FAILED, u)" "quiet t u"
    have "malloc_spec sz None cs = (0, cs)" using None by (simp add: malloc_spec_def)
    then show ?thesis
      using body u t(2) wf_held_quiet [OF ht u(2)]
      by (intro exI [of _ None] exI [of _ u]) (simp add: step_ok_def is_fresh_def bytes_kept_def guards_kept_def quiet_def
          mapped_for_def new_region_def)
  next
    fix u p n assume u: "mmapBlockAllocate E 32768000 (last_chunk 0 cs) t = Some (p, u)" "chunk_added cs p n t u"
    have "step_ok sz new cs t v \<Longrightarrow> step_ok sz new cs s v" for new v
      using t(2) by (simp add: step_ok_def bytes_kept_def guards_kept_def quiet_def mapped_for_def)
    with search_fresh [OF E ht ne sz small None u(2)] show ?thesis
      using body u by (auto simp: chunk_added_def intro!: exI [of _ "Some (fresh_chunk p n)"])
  qed
qed

lemma step_ok_hp:
  assumes "hp t = hp s" and "hp s' = hp u" and "step_ok sz new cs t u"
  shows "step_ok sz new cs s s'"
  using assms by (simp add: step_ok_def bytes_kept_def guards_kept_def guarded_end_def mapped_for_def)

text \<open>The whole call.\<close>

lemma vgc_malloc_step:
  assumes E: "reliable E" and mm: "mmap_ok E" and ok: "heap_ok s cs" and ne: "cs \<noteq> []"
    and sz: "sz \<noteq> 0" "\<not> max_request cs \<le> sz"
  shows "\<exists>new s'. vgc_malloc E sz s = Some (fst (malloc_spec sz new cs), s') \<and>
     heap_ok s' (snd (malloc_spec sz new cs)) \<and> step_ok sz new cs s s'"
proof -
  let ?P = "\<lambda>t r u y. \<exists>new. r = fst (malloc_spec sz new cs) \<and> y = snd (malloc_spec sz new cs) \<and> step_ok sz new cs t u"
  have body: "\<exists>r u y. search_body E sz t = Some (r, u) \<and> wf_held u y \<and> ?P t r u y" if "wf_held t cs" for t
    using search_ok [OF E mm that ne sz max_request_small [OF ok ne sz(2)]] by blast
  note crit = shared_lock.critical_section [where P = ?P and body = "search_body E sz" and fn = F_vgc_malloc
      and refused = "\<lambda>s. Some (0, report ERROR_LEVEL (Rep F_vgc_malloc S_mutexLock) s)", OF E ok body,
      folded vgc_malloc_section [OF ok ne sz]]
  then obtain r t u y s' where *: "vgc_malloc E sz s = Some (r, s')" "heap_ok s' y"
    "PTHREAD_mutexLock E MShared s = Some (True, t)" "?P t r u y"
    "unlock_reporting E F_vgc_malloc MShared u = Some s'"
    by blast
  have "hp t = hp s" using *(3) lock_hp by blast
  moreover have "hp s' = hp u" using *(5) unlock_hp by blast
  ultimately show ?thesis using * step_ok_hp by blast
qed

end
