(* ===== verification/Release.thy ===== *)
theory Release
  imports Malloc_Spec
begin

unbundle bit_operations_syntax

text \<open>
  \<^verbatim>\<open>vgc_free\<close> on a well formed state: the block a pointer belongs to is found, marked free and
  unified with its neighbours; a chunk that is all free afterwards is unmapped.
\<close>

section \<open>From the pointer to the header\<close>

lemma and_not_page: "(x :: 64 word) AND NOT (4096 - 1) = x div 4096 * 4096"
proof -
  have "x AND NOT (mask 12) = push_bit 12 (drop_bit 12 x)"
    by (rule bit_word_eqI) (auto simp: bit_simps)
  then show ?thesis
    by (simp add: push_bit_eq_mult drop_bit_eq_div mask_eq_exp_minus_1)
qed

text \<open>\<open>ptr\<close> lies in the first page of the bytes of \<open>b\<close>, where \<^verbatim>\<open>vgc_malloc\<close> puts its results.\<close>

definition points_to :: "addr \<Rightarrow> blk \<Rightarrow> bool" where
  "points_to ptr b \<longleftrightarrow> unat (b_addr b) + 8192 \<le> unat ptr \<and> unat ptr < unat (b_addr b) + 12288 \<and>
     4096 \<le> unat (b_size b)"

lemma points_to_page:
  assumes "points_to ptr b" and "4096 dvd unat (b_addr b)"
  shows "unat ptr div 4096 * 4096 = unat (b_addr b) + 8192"
proof -
  obtain k where k: "unat (b_addr b) = 4096 * k" using assms(2) by (auto elim: dvdE)
  obtain q r where "unat ptr = q * 4096 + r" "r < 4096" "unat ptr div 4096 = q"
    "unat ptr mod 4096 = r" by (rule div_mod_4096)
  moreover from this k have "q = k + 2" using assms(1) by (simp add: points_to_def)
  ultimately show ?thesis using k by simp
qed

lemma page_floor_unat: "unat (p div 4096 * 4096 :: 64 word) = unat p div 4096 * 4096"
proof -
  have "unat p div 4096 * 4096 \<le> unat p" by simp
  then have "unat p div 4096 * 4096 < 18446744073709551616"
    using unat_lt64 [of p] by linarith
  then show ?thesis by (simp add: unat_word_ariths unat_div_4096)
qed

lemma header_of_points_to:
  assumes "cfg s" and "points_to ptr b" and "4096 dvd unat (b_addr b)"
  shows "header_of ptr s = b_addr b"
proof -
  have "unat (ptr div 4096 * 4096) = unat (b_addr b) + 8192"
    using points_to_page [OF assms(2,3)] by (simp add: page_floor_unat)
  then have "unat (ptr div 4096 * 4096 - 8192) = unat (b_addr b)" by (simp add: unat_sub_ok)
  then have "ptr div 4096 * 4096 - 8192 = b_addr b" by (simp only: word_eq_unat)
  then show ?thesis
    using cfgD [OF assms(1)] and_not_page [of ptr] by (simp add: header_of_def)
qed

lemma isInLoop_chain:
  assumes "chain s p cs 0" and "cfg s" and "c \<in> set cs"
    and "unat (c_addr c) < unat ptr" and "unat ptr < unat (c_addr c) + unat (c_size c)"
  shows "isInLoop (hp s) ptr (first_chunk cs 0) = Some True"
  using assms(1,3)
proof (induction cs arbitrary: p)
  case (Cons d ds)
  have shape: "chunk_shape d" and hdr: "mmapH (hp s) (c_addr d) = Some (chunk_hdr p (first_chunk ds 0) d)"
    using Cons.prems(1) by (auto simp: chunk_ok_def chunk_mem_def)
  note sh = chunk_shapeD [OF shape]
  have top: "unat (c_addr d + 32768000) = unat (c_addr d) + 32768000"
    using sh(3) by (simp add: unat_add_ok)
  show ?case
  proof (cases "c = d")
    case True
    then have "c_addr d < ptr" "ptr < c_addr d + 32768000"
      using assms(4,5) sh(4) top by (simp_all add: word_less_nat_alt)
    then show ?thesis using sh(1) cfgD(2) [OF assms(2)] by (subst isInLoop.simps) simp
  next
    case False
    then have "isInLoop (hp s) ptr (first_chunk ds 0) = Some True"
      using Cons.IH [of "c_addr d"] Cons.prems False by simp
    then show ?thesis using sh(1) hdr by (subst isInLoop.simps) (simp add: chunk_hdr_def)
  qed
qed simp

lemma isInMmapBlock_points_to:
  assumes "wf_held s cs" and "c \<in> set cs" and "b \<in> set (c_blks c)" and "points_to ptr b"
  shows "isInMmapBlock ptr s = Some True"
proof -
  note w = wf_heldD [OF assms(1)]
  have "chunk_shape c" using chain_shape [OF w(3) assms(2)] .
  then show ?thesis
    using isInLoop_chain [OF w(3,1) assms(2), of ptr] in_chunk(1,2) [OF _ assms(3)] assms(4) w(2)
    by (auto simp: isInMmapBlock_def points_to_def)
qed

section \<open>Page rights while releasing\<close>

lemma upd_mb_prot: "upd_mb a f s = Some s' \<Longrightarrow> prot (hp s') = prot (hp s)"
  by (auto simp: upd_mb_def)

lemma VGC_munprotect_prot:
  "prot (hp (snd (VGC_munprotect E a s))) x \<Longrightarrow> prot (hp s) x"
  by (auto simp: VGC_munprotect_def do_mprotect_def mprotect_def sys_def
      split: option.splits if_splits prod.splits bool.splits)

lemma freeBlocksPrev_prot:
  assumes "freeBlocksPrev E a s = Some s'" and "prot (hp s') x"
  shows "prot (hp s) x"
  using assms
  by (auto simp: freeBlocksPrev_def Let_def dest!: upd_mb_prot intro: VGC_munprotect_prot
      split: Option.bind_splits if_splits)

lemma freeBlocksNext_prot:
  assumes run: "freeBlocksNext E a s = Some s'" and x: "prot (hp s') x"
  shows "prot (hp s) x"
    and "reliable E \<Longrightarrow> get_mb a s = Some b \<Longrightarrow> mb_next b \<noteq> 0 \<Longrightarrow> get_mb (mb_next b) s = Some n \<Longrightarrow>
      mb_status n = VGC_MALLOC_FREE \<Longrightarrow> 4096 dvd unat (mb_next b) \<Longrightarrow> mapped (mb_next b) 4096 s \<Longrightarrow>
      sh_pageSize (shared (hp s)) = 4096 \<Longrightarrow> \<not> in_range (mb_next b) 4096 x"
proof -
  show "prot (hp s) x"
    using run x
    by (auto simp: freeBlocksNext_def Let_def dest!: upd_mb_prot intro: VGC_munprotect_prot
        split: Option.bind_splits if_splits)
  assume *: "reliable E" "get_mb a s = Some b" "mb_next b \<noteq> 0" "get_mb (mb_next b) s = Some n"
    "mb_status n = VGC_MALLOC_FREE" "4096 dvd unat (mb_next b)" "mapped (mb_next b) 4096 s"
    "sh_pageSize (shared (hp s)) = 4096"
  have "snd (VGC_munprotect E (mb_next b) s)
      = s\<lparr>ticks := Suc (ticks s), hp := set_prot (mb_next b) False (hp s)\<rparr>"
    using * by (simp add: VGC_munprotect_ok)
  then show "\<not> in_range (mb_next b) 4096 x"
    using run x * by (auto simp: freeBlocksNext_def Let_def dest!: upd_mb_prot
      split: Option.bind_splits if_splits)
qed

text \<open>Only the pages of the block and of the one after it change.\<close>

lemma VGC_munprotect_out:
  "sh_pageSize (shared (hp s)) = 4096 \<Longrightarrow> \<not> in_range a 4096 x \<Longrightarrow>
     prot (hp (snd (VGC_munprotect E a s))) x = prot (hp s) x"
  by (auto simp: VGC_munprotect_def do_mprotect_def mprotect_def sys_def
      split: option.splits if_splits prod.splits bool.splits)

lemma upd_mb_frame:
  "upd_mb a f s = Some s' \<Longrightarrow> prot (hp s') = prot (hp s) \<and> shared (hp s') = shared (hp s)"
  by (auto simp: upd_mb_def)

lemma VGC_munprotect_shared: "shared (hp (snd (VGC_munprotect E a s))) = shared (hp s)"
  using VGC_munprotect_same [of E a s] by (cases "VGC_munprotect E a s") (simp add: same_objects_def)

lemma freeBlocksPrev_out:
  assumes "freeBlocksPrev E a s = Some s'" and "sh_pageSize (shared (hp s)) = 4096"
    and "\<not> in_range a 4096 x"
  shows "prot (hp s') x = prot (hp s) x"
  using assms
  by (auto simp: freeBlocksPrev_def Let_def VGC_munprotect_out dest!: upd_mb_prot
      split: Option.bind_splits if_splits)

lemma freeBlocksNext_out:
  assumes "freeBlocksNext E a s = Some s'" and "get_mb a s = Some b"
    and "sh_pageSize (shared (hp s)) = 4096" and "mb_next b \<noteq> 0 \<longrightarrow> \<not> in_range (mb_next b) 4096 x"
  shows "prot (hp s') x = prot (hp s) x" "shared (hp s') = shared (hp s)"
  using assms
  by (auto simp: freeBlocksNext_def Let_def VGC_munprotect_out VGC_munprotect_shared
      dest!: upd_mb_frame split: Option.bind_splits if_splits)

lemma release_block_out:
  assumes ps: "sh_pageSize (shared (hp s)) = 4096"
    and seg: "seg (hp s) m 0 (xs @ b # ys) 0"
    and run: "release_block E (b_addr b) s = Some s'"
    and x: "\<not> in_range (b_addr b) 4096 x" "ys \<noteq> [] \<longrightarrow> \<not> in_range (b_addr (hd ys)) 4096 x"
  shows "prot (hp s') x = prot (hp s) x"
proof -
  obtain hb where hb: "mallocH (hp s) (b_addr b) = Some hb" "mb_next hb = first_addr ys 0"
    using seg by (auto elim: holdsE)
  let ?s1 = "put_mb (b_addr b) (hb\<lparr>mb_status := VGC_MALLOC_FREE\<rparr>) s"
  let ?s2 = "snd (VGC_munprotect E (b_addr b) ?s1)"
  from run obtain s3 where s3: "freeBlocksNext E (b_addr b) ?s2 = Some s3"
    "freeBlocksPrev E (b_addr b) s3 = Some s'"
    using hb by (auto simp: release_block_def upd_mb_Some split: Option.bind_splits)
  have "same_objects ?s1 ?s2" using VGC_munprotect_same by (metis surjective_pairing)
  then have g: "get_mb (b_addr b) ?s2 = Some (hb\<lparr>mb_status := VGC_MALLOC_FREE\<rparr>)"
    and ps2: "sh_pageSize (shared (hp ?s2)) = 4096"
    using ps by (simp_all add: get_mb_def same_objects_def)
  have "prot (hp s3) x = prot (hp ?s2) x" "shared (hp s3) = shared (hp ?s2)"
    using freeBlocksNext_out [OF s3(1) g ps2, of x] hb(2) x(2) by (cases ys; auto)+
  then show ?thesis
    using freeBlocksPrev_out [OF s3(2), of x] ps2 x(1) VGC_munprotect_out [of ?s1 "b_addr b" x E] ps
    by simp
qed

text \<open>After a release no guard page is left of the block or of the one it absorbed.\<close>

lemma release_block_prot:
  assumes E: "reliable E" and ps: "sh_pageSize (shared (hp s)) = 4096"
    and seg: "seg (hp s) m 0 (xs @ b # ys) 0" and lay: "layout a (xs @ b # ys) e" "0 < a"
    and pg: "\<forall>c \<in> set (b # ys). 4096 dvd unat (b_addr c) \<and> mapped (b_addr c) 4096 s"
    and run: "release_block E (b_addr b) s = Some s'" and x: "prot (hp s') x"
  shows "prot (hp s) x" "\<not> in_range (b_addr b) 4096 x"
    "ys \<noteq> [] \<Longrightarrow> is_free (hd ys) \<Longrightarrow> \<not> in_range (b_addr (hd ys)) 4096 x"
proof -
  obtain hb where hb: "mallocH (hp s) (b_addr b) = Some hb" "mb_next hb = first_addr ys 0"
    using seg by (auto elim: holdsE)
  let ?s1 = "put_mb (b_addr b) (hb\<lparr>mb_status := VGC_MALLOC_FREE\<rparr>) s"
  let ?s2 = "?s1\<lparr>ticks := Suc (ticks s), hp := set_prot (b_addr b) False (hp ?s1)\<rparr>"
  have "snd (VGC_munprotect E (b_addr b) ?s1) = ?s2"
    using VGC_munprotect_ok [OF E, of "b_addr b" ?s1] pg ps by (simp add: mapped_def)
  with run obtain s3 where s3: "freeBlocksNext E (b_addr b) ?s2 = Some s3"
    "freeBlocksPrev E (b_addr b) s3 = Some s'"
    using hb by (auto simp: release_block_def upd_mb_Some split: Option.bind_splits)
  have x3: "prot (hp s3) x" using freeBlocksPrev_prot [OF s3(2) x] .
  have x2: "prot (hp ?s2) x" using freeBlocksNext_prot(1) [OF s3(1) x3] .
  then show "prot (hp s) x" "\<not> in_range (b_addr b) 4096 x" by (auto split: if_splits)
  assume y: "ys \<noteq> []" "is_free (hd ys)"
  then obtain y zs where ys: "ys = y # zs" by (cases ys) auto
  obtain hy where hy: "mallocH (hp s) (b_addr y) = Some hy" "mb_status hy = VGC_MALLOC_FREE"
    using seg y ys by (auto elim: holdsE)
  have "b_addr y \<noteq> b_addr b" using layout_addr_inj [OF lay(1), of y] ys by simp
  moreover have "b_addr y \<noteq> 0" using layout_nonzero [OF lay, of y] ys by simp
  ultimately show "\<not> in_range (b_addr (hd ys)) 4096 x"
    using freeBlocksNext_prot(2) [OF s3(1) x3 E, of "hb\<lparr>mb_status := VGC_MALLOC_FREE\<rparr>" hy]
      hb hy ys pg ps by (simp add: get_mb_def mapped_def)
qed

lemma release_addrs:
  assumes "d \<in> set (xs @ b # ys)" and "d \<noteq> b"
    and "\<not> (ys \<noteq> [] \<and> is_free (hd ys) \<and> d = hd ys)"
  shows "\<exists>d' \<in> set (release xs b ys). b_addr d' = b_addr d"
proof -
  let ?zs = "absorb (b\<lparr>b_status := VGC_MALLOC_FREE\<rparr>) ys"
  obtain z zs where z: "?zs = z # zs" by (cases ?zs) auto
  have ys: "\<exists>d' \<in> set zs. b_addr d' = b_addr d" if "d \<in> set ys"
    using that assms(3) z by (cases ys) (auto split: if_splits)
  show ?thesis
  proof (cases "xs = [] \<or> \<not> is_free (last xs)")
    case True
    then show ?thesis using assms z ys by (auto simp: release_def unify_prev_def)
  next
    case False
    then have "is_free z" "is_free (last xs)" "xs \<noteq> []"
      using z by (cases ys; auto split: if_splits)+
    then have r: "release xs b ys = butlast xs @
        (last xs)\<lparr>b_size := b_size (last xs) + (b_size z + sizeof_mallocHeader)\<rparr> # zs"
      using z by (simp add: release_def unify_prev_def)
    have "set xs = insert (last xs) (set (butlast xs))"
      using False by (metis append_butlast_last_id list.simps(15) rotate1.simps(2) set_rotate1)
    then show ?thesis using assms(1,2) ys unfolding r by auto
  qed
qed

lemma chunk_pages:
  assumes "chunk_shape c" and "(c_addr c, c_size c) \<in> set (maps (hp s))" and "d \<in> set (c_blks c)"
  shows "4096 dvd unat (b_addr d) \<and> mapped (b_addr d) 4096 s"
  using in_chunk(1,2,4) [OF assms(1,3)] mapped_in_region [OF assms(2), of "b_addr d" 4096] by simp

text \<open>The guard pages left are those of the blocks left, and nothing outside the chunk changed.\<close>

lemma release_guards:
  assumes E: "reliable E" and cfg: "cfg s" and shape: "chunk_shape c"
    and seg: "seg (hp s) (c_addr c) 0 (c_blks c) 0" and reg: "(c_addr c, c_size c) \<in> set (maps (hp s))"
    and g: "guards_only (hp s) c" and bs: "c_blks c = xs @ b # ys"
    and run: "release_block E (b_addr b) s = Some s'"
  shows "guards_only (hp s') (with_blks c (release xs b ys))"
  unfolding guards_only_def
proof (intro allI impI)
  let ?r = "with_blks c (release xs b ys)"
  fix x assume x: "in_range (c_addr ?r) (c_size ?r) x \<and> prot (hp s') x"
  have pgs: "\<forall>d \<in> set (b # ys). 4096 dvd unat (b_addr d) \<and> mapped (b_addr d) 4096 s"
    using chunk_pages [OF shape reg] bs by simp
  note px = release_block_prot [OF E cfgD(1) [OF cfg] seg [unfolded bs]
      chunk_shapeD(6) [OF shape, unfolded bs] _ pgs run conjunct2 [OF x], simplified]
  obtain d where d: "d \<in> set (xs @ b # ys)" "in_range (b_addr d) 4096 x"
    using g x px(1) bs by (auto simp: guards_only_def)
  obtain d' where "d' \<in> set (release xs b ys)" "b_addr d' = b_addr d"
    using release_addrs [of d xs b ys] d px by auto
  with d(2) show "\<exists>b \<in> set (c_blks ?r). in_range (b_addr b) 4096 x"
    by (intro bexI [of _ d']) simp_all
qed

lemma release_only_in:
  assumes cfg: "cfg s" and shape: "chunk_shape c" and seg: "seg (hp s) (c_addr c) 0 (c_blks c) 0"
    and bs: "c_blks c = xs @ b # ys" and run: "release_block E (b_addr b) s = Some s'"
    and ho: "headers_only (b_addr ` set (xs @ b # ys)) s s'"
  shows "only_in c s s'"
proof -
  have out: "\<not> in_range (c_addr c) (c_size c) x \<Longrightarrow> d \<in> set (c_blks c) \<Longrightarrow>
      \<not> in_range (b_addr d) 4096 x \<and> x \<noteq> b_addr d" for x d
    using in_chunk(1-3) [OF shape, of d] by (auto simp: in_range_def)
  have "prot (hp s') x = prot (hp s) x" if x: "\<not> in_range (c_addr c) (c_size c) x" for x
    using release_block_out [OF cfgD(1) [OF cfg] seg [unfolded bs] run, of x] out [OF x] bs
    by (cases ys) auto
  moreover have "mallocH (hp s') x = mallocH (hp s) x" if "\<not> in_range (c_addr c) (c_size c) x" for x
    using ho out [OF that] bs unfolding headers_only_def by (metis imageE)
  ultimately show ?thesis using ho by (simp add: headers_only_def only_in_def)
qed

text \<open>The guard page of the block is open; of the others at most that of the next block has changed.\<close>

definition opened :: "blk \<Rightarrow> blk list \<Rightarrow> heap \<Rightarrow> heap \<Rightarrow> bool" where
  "opened b ys h h' \<longleftrightarrow> (\<forall>x. (in_range (b_addr b) 4096 x \<longrightarrow> \<not> prot h' x) \<and>
     (\<not> in_range (b_addr b) 4096 x \<longrightarrow> (ys \<noteq> [] \<longrightarrow> \<not> in_range (b_addr (hd ys)) 4096 x) \<longrightarrow> prot h' x = prot h x))"

lemma release_opened:
  assumes E: "reliable E" and cfg: "cfg s" and shape: "chunk_shape c"
    and seg: "seg (hp s) (c_addr c) 0 (c_blks c) 0" and reg: "(c_addr c, c_size c) \<in> set (maps (hp s))"
    and bs: "c_blks c = xs @ b # ys" and run: "release_block E (b_addr b) s = Some s'"
  shows "opened b ys (hp s) (hp s')"
proof -
  have pgs: "\<forall>d \<in> set (b # ys). 4096 dvd unat (b_addr d) \<and> mapped (b_addr d) 4096 s"
    using chunk_pages [OF shape reg] bs by simp
  show ?thesis
    using release_block_prot(2) [OF E cfgD(1) [OF cfg] seg [unfolded bs] chunk_shapeD(6) [OF shape, unfolded bs] _ pgs run]
      release_block_out [OF cfgD(1) [OF cfg] seg [unfolded bs] run]
    by (auto simp: opened_def)
qed

lemma release_chunk:
  assumes E: "reliable E" and cfg: "cfg s" and shape: "chunk_shape c"
    and seg: "seg (hp s) (c_addr c) 0 (c_blks c) 0" and reg: "(c_addr c, c_size c) \<in> set (maps (hp s))"
    and g: "guards_only (hp s) c" and bs: "c_blks c = xs @ b # ys" and "\<not> is_free b"
    and hdr: "mmapH (hp s) (c_addr c) = Some (chunk_hdr p n (with_blks c (release xs b ys)))"
  shows "\<exists>s'. release_block E (b_addr b) s = Some s' \<and>
     chunk_mem (hp s') p n (with_blks c (release xs b ys)) \<and> only_in c s s' \<and> opened b ys (hp s) (hp s')"
proof -
  let ?r = "release xs b ys"
  note sh = chunk_shapeD [OF shape]
  note lay = sh(6) [unfolded bs]
  have top: "unat (c_addr c) + unat (c_size c) < 18446744073709551616" using sh(3) by simp
  obtain s' where s': "release_block E (b_addr b) s = Some s'"
    "seg (hp s') (c_addr c) 0 ?r 0" "headers_only (b_addr ` set (xs @ b # ys)) s s'"
    using release_block_seg [OF seg [unfolded bs] lay _ top] by auto
  have "chunk_shape (with_blks c ?r)"
    using sh release_layout [OF lay top] release_pages [OF lay top] release_coalesced [of xs b ys] bs
      \<open>\<not> is_free b\<close>
    by (auto simp: chunk_shape_def release_def unify_prev_def)
  then show ?thesis
    using s' hdr reg release_guards [OF E cfg shape seg reg g bs s'(1)]
      release_only_in [OF cfg shape seg bs s'(1,3)] release_opened [OF E cfg shape seg reg bs s'(1)]
    by (auto simp: chunk_mem_def headers_only_def)
qed

end
