(* ===== verification/Free_Spec.thy ===== *)
theory Free_Spec
  imports Release
begin

text \<open>
  \<^verbatim>\<open>vgc_free\<close> as an operation on the list of chunks.
\<close>

section \<open>Up to the release of the block\<close>

definition held_mutex :: "nat \<Rightarrow> pmutex" where
  "held_mutex t = \<lparr>pm_attr = vgc_pattr, pm_lock = Locked t\<rparr>"

lemma wf_split:
  assumes "heap_ok s (us @ c # vs)"
  shows "chunk_ok s (last_chunk 0 us) (first_chunk vs 0) c" "chunk_shape c"
    "chunk_mem (hp s) (last_chunk 0 us) (first_chunk vs 0) c" "c_addr c \<noteq> 0"
  using heap_okD(4) [OF assms] by (auto simp: chunk_ok_def chunk_mem_def chunk_shape_def)

text \<open>
  \<open>mid\<close> is the state in which \<^verbatim>\<open>vgc_free\<close> decides whether the chunk goes: the block is
  released, and both locks are held.
\<close>

definition free_mid :: "chunk list \<Rightarrow> chunk \<Rightarrow> chunk list \<Rightarrow> state \<Rightarrow> state \<Rightarrow> bool" where
  "free_mid us c vs s t \<longleftrightarrow>
     chunk_mem (hp t) (last_chunk 0 us) (first_chunk vs 0) c \<and>
     only_in c (s\<lparr>mtx := (mtx s)(MShared := held_mutex (self s),
       MBlock (c_addr c) := held_mutex (self s))\<rparr>) t"

definition free_tail :: "env \<Rightarrow> addr \<Rightarrow> state \<Rightarrow> state option" where
  "free_tail E mmapBlock s = do {
      first \<leftarrow> get_mb (firstMallocHeaderInMMAP mmapBlock) s;
      if mb_next first = 0 then do {
        (ok, s) \<leftarrow> unhookNext E mmapBlock s;
        if \<not> ok then Some s
        else do {
        (ok, s) \<leftarrow> unhookPrev E mmapBlock s;
        if \<not> ok then Some s
        else do {
        s \<leftarrow> unlock_reporting E F_vgc_free (MBlock mmapBlock) s;
        (ok, s) \<leftarrow> PTHREAD_mutexDestroy E (MBlock mmapBlock) s;
        let s = (if ok then s else report ERROR_LEVEL (Rep F_vgc_free S_mutexDestroy) s);
        let (ok, s) = PTHREAD_mutexattrDestroy E (MBlock mmapBlock) s;
        let s = (if ok then s else report ERROR_LEVEL (Rep F_vgc_free S_mutexattrDestroy) s);
        s \<leftarrow> freeMMAP E mmapBlock s;
        unlock_reporting E F_vgc_free MShared s } } }
      else do {
        s \<leftarrow> unlock_reporting E F_vgc_free (MBlock mmapBlock) s;
        unlock_reporting E F_vgc_free MShared s } }"

text \<open>What \<^verbatim>\<open>vgc_free\<close> finds under the shared lock: the headers of the block and of its chunk.\<close>

lemma free_lookup:
  assumes E: "reliable E" and heap_ok: "heap_ok s (us @ c # vs)" and bs: "c_blks c = xs @ b # ys"
    and ptr: "points_to ptr b"
  shows "\<exists>s1 hb. PTHREAD_mutexLock E MShared s = Some (True, s1) \<and> mutex_held MShared s1 s \<and>
     isInMmapBlock ptr s1 = Some True \<and> header_of ptr s1 = b_addr b \<and> get_mb (b_addr b) s1 = Some hb \<and>
     mb_checkStart hb = 0xAA \<and> mb_checkEnd hb = 0xAA \<and> mb_mmapBlock hb = c_addr c \<and>
     get_mm (c_addr c) s1 = Some (chunk_hdr (last_chunk 0 us) (first_chunk vs 0) c)"
proof -
  note w = heap_okD [OF heap_ok] and sp = wf_split [OF heap_ok]
  note mem = chunk_memD [OF sp(3)]
  have b: "b \<in> set (c_blks c)" using bs by simp
  obtain s1 where s1: "PTHREAD_mutexLock E MShared s = Some (True, s1)" "wf_held s1 (us @ c # vs)"
    "hp s1 = hp s" "mutex_held MShared s1 s"
    using lock_shared [OF E heap_ok] w(6) by (auto simp: mutex_held_def)
  obtain hb where hb: "get_mb (b_addr b) s1 = Some hb" "mb_checkStart hb = 0xAA"
    "mb_checkEnd hb = 0xAA" "mb_mmapBlock hb = c_addr c"
    using mem(3) bs s1(3) by (auto elim!: holdsE simp: get_mb_def)
  show ?thesis
    using s1 hb mem(2) isInMmapBlock_points_to [OF s1(2) _ b ptr]
      header_of_points_to [OF wf_heldD(1) [OF s1(2)] ptr] in_chunk(4) [OF sp(2) b]
    by (auto simp: get_mm_def)
qed

text \<open>The counter of the chunk goes down, its lock is taken and its blocks are checked.\<close>

lemma release_hdr:
  assumes "c_blks c = xs @ b # ys" and "\<not> is_free b"
  shows "(chunk_hdr p n c)\<lparr>mm_elements := mm_elements (chunk_hdr p n c) - 1\<rparr>
     = chunk_hdr p n (with_blks c (release xs b ys))"
proof -
  have "of_nat (busy (c_blks c)) = (of_nat (busy (release xs b ys)) + 1 :: size_t)"
    using busy_release [OF assms(2), of xs ys] assms(1) by (metis add.commute of_nat_Suc)
  then show ?thesis by (simp add: chunk_hdr_def)
qed

lemma free_count_check:
  assumes E: "reliable E" and ok: "chunk_ok s p n c" and cfg: "cfg s" and bs: "c_blks c = xs @ b # ys"
    and busy: "\<not> is_free b" and held: "mutex_held MShared s1 s"
  shows "\<exists>s2 s3 ms. upd_mm (c_addr c) (\<lambda>h. h\<lparr>mm_elements := mm_elements h - 1\<rparr>) s1 = Some s2 \<and>
     PTHREAD_mutexLock E (MBlock (c_addr c)) (report VGC_MALLOC_DEBUG_LEVEL (Rep F_vgc_free S_free) s2)
       = Some (True, s3) \<and>
     checkMmapBlock E (c_addr c) s3 = Some (True, s3\<lparr>msgs := ms\<rparr>) \<and> cfg s3 \<and>
     hp s3 = (hp s)\<lparr>mmapH := (mmapH (hp s))(c_addr c \<mapsto> chunk_hdr p n (with_blks c (release xs b ys)))\<rparr> \<and>
     mtx s3 = (mtx s)(MShared := held_mutex (self s), MBlock (c_addr c) := held_mutex (self s)) \<and>
     self s3 = self s \<and> attrs s3 = attrs s \<and> messageLevel s3 = messageLevel s"
proof -
  let ?m = "c_addr c" and ?h = "chunk_hdr p n (with_blks c (release xs b ys))"
  note h = mutex_heldD [OF held]
  have mem: "chunk_mem (hp s) p n c" and lk: "mtx s (MBlock ?m) = free_mutex" using ok by (simp_all add: chunk_ok_def)
  note mem = chunk_memD [OF mem]
  have u: "upd_mm ?m (\<lambda>h. h\<lparr>mm_elements := mm_elements h - 1\<rparr>) s1 = Some (put_mm ?m ?h s1)"
    using mem(2) h(1) release_hdr [OF bs busy] by (simp add: upd_mm_Some)
  let ?s2 = "report VGC_MALLOC_DEBUG_LEVEL (Rep F_vgc_free S_free) (put_mm ?m ?h s1)"
  have "mutex_free (MBlock ?m) ?s2 ?s2" using lk h(5) by (intro mutex_free_refl) simp
  from mutex.lock_law [OF E this]
  obtain s3 where s3: "PTHREAD_mutexLock E (MBlock ?m) ?s2 = Some (True, s3)" "mutex_held (MBlock ?m) s3 ?s2"
    by blast
  have hp3: "hp s3 = (hp s)\<lparr>mmapH := (mmapH (hp s))(?m \<mapsto> ?h)\<rparr>"
    using mutex_heldD(1) [OF s3(2)] h(1) by (simp add: put_mm_def)
  have "seg (hp s3) ?m 0 (c_blks c) 0"
    using mem(3) by (subst seg_frame [where h = "hp s"]) (simp_all add: hp3)
  moreover have "mmapH (hp s3) ?m = Some ((chunk_hdr p n c)\<lparr>mm_elements := mm_elements ?h\<rparr>)"
    by (simp add: hp3 chunk_hdr_def)
  moreover have "cfg s3" using cfg by (simp add: cfg_def hp3)
  ultimately obtain ms where "checkMmapBlock E ?m s3 = Some (True, s3\<lparr>msgs := ms\<rparr>)" "cfg s3"
    using checkMmapBlock_ok(1) [OF E mem(1)] by blast
  then show ?thesis
    using u s3(1) hp3 mutex_heldD(2-5) [OF s3(2)] h(2-5) by (auto simp: held_mutex_def)
qed

lemma vgc_free_head:
  assumes E: "reliable E" and heap_ok: "heap_ok s (us @ c # vs)" and bs: "c_blks c = xs @ b # ys"
    and busy: "\<not> is_free b" and ptr: "points_to ptr b"
  shows "\<exists>t. vgc_free E ptr s = free_tail E (c_addr c) t \<and>
     free_mid us (with_blks c (release xs b ys)) vs s t \<and> opened b ys (hp s) (hp t)"
proof -
  let ?m = "c_addr c" and ?p = "last_chunk 0 us" and ?n = "first_chunk vs 0"
  let ?r = "with_blks c (release xs b ys)"
  note w = heap_okD [OF heap_ok] and sp = wf_split [OF heap_ok]
  note mem = chunk_memD [OF sp(3)]
  obtain s1 hb where s1: "PTHREAD_mutexLock E MShared s = Some (True, s1)" "mutex_held MShared s1 s"
    "isInMmapBlock ptr s1 = Some True" "header_of ptr s1 = b_addr b" "get_mb (b_addr b) s1 = Some hb"
    "mb_checkStart hb = 0xAA" "mb_checkEnd hb = 0xAA" "mb_mmapBlock hb = ?m" "get_mm ?m s1 = Some (chunk_hdr ?p ?n c)"
    using free_lookup [OF E heap_ok bs ptr] by blast
  obtain s2 s3 ms where s3: "upd_mm ?m (\<lambda>h. h\<lparr>mm_elements := mm_elements h - 1\<rparr>) s1 = Some s2"
    "PTHREAD_mutexLock E (MBlock ?m) (report VGC_MALLOC_DEBUG_LEVEL (Rep F_vgc_free S_free) s2) = Some (True, s3)"
    "checkMmapBlock E ?m s3 = Some (True, s3\<lparr>msgs := ms\<rparr>)" "cfg s3"
    "hp s3 = (hp s)\<lparr>mmapH := (mmapH (hp s))(?m \<mapsto> chunk_hdr ?p ?n ?r)\<rparr>"
    "mtx s3 = (mtx s)(MShared := held_mutex (self s), MBlock ?m := held_mutex (self s))"
    "self s3 = self s" "attrs s3 = attrs s" "messageLevel s3 = messageLevel s"
    using free_count_check [OF E sp(1) w(1) bs busy s1(2)] by blast
  let ?s4 = "report VGC_MALLOC_DEBUG_LEVEL (Rep F_vgc_free S_unprotect) (s3\<lparr>msgs := ms\<rparr>)"
  have "seg (hp ?s4) ?m 0 (c_blks c) 0" "guards_only (hp ?s4) c" "cfg ?s4"
    using mem(3,5) s3(4,5) seg_frame [where h = "hp s" and h' = "hp ?s4"]
    by (simp_all add: guards_only_def cfg_def)
  then obtain t where t: "release_block E (b_addr b) ?s4 = Some t" "chunk_mem (hp t) ?p ?n ?r" "only_in c ?s4 t"
    "opened b ys (hp ?s4) (hp t)"
    using release_chunk [OF E _ sp(2), of ?s4 xs b ys ?p ?n] mem(4) bs busy s3(5) by auto
  have "ptr \<noteq> 0" using ptr by (auto simp: points_to_def word_eq_unat)
  then have "vgc_free E ptr s = free_tail E ?m t"
    using s1 s3(1-3) t(1) cfgD(3) [OF s3(4)]
    by (simp add: vgc_free_def free_tail_def Let_def) (simp add: chunk_hdr_def)
  moreover have "free_mid us ?r vs s t"
    using t(2,3) s3(5-9) chunk_in_own_range [OF sp(2)] by (auto simp: free_mid_def only_in_def)
  moreover have "opened b ys (hp s) (hp t)" using t(4) s3(5) by (simp add: opened_def)
  ultimately show ?thesis by blast
qed

section \<open>The chunk stays\<close>

lemma first_header_next:
  assumes "chunk_mem (hp t) p n c"
  shows "\<exists>h. get_mb (firstMallocHeaderInMMAP (c_addr c)) t = Some h \<and>
     (mb_next h = 0 \<longleftrightarrow> tl (c_blks c) = [])"
proof -
  note m = chunk_memD [OF assms] and sh = chunk_shapeD [OF chunk_memD(1) [OF assms]]
  obtain b bs where bs: "c_blks c = b # bs" using sh(5) by (cases "c_blks c") auto
  then obtain h where "mallocH (hp t) (b_addr b) = Some h" "mb_next h = first_addr bs 0"
    using m(3) by (auto elim: holdsE)
  moreover have "layout (unat (c_addr c) + 4096 + 8192 + unat (b_size b)) bs (unat (c_addr c) + unat (c_size c))"
    using sh(6) bs by simp
  then have "first_addr bs 0 = 0 \<longleftrightarrow> bs = []"
    by (rule first_addr_eq_0) simp
  ultimately show ?thesis
    using first_header [OF m(1)] bs by (simp add: get_mb_def)
qed

lemma free_tail_keep:
  assumes E: "reliable E" and heap_ok: "heap_ok s (us @ c # vs)"
    and mid: "free_mid us (with_blks c bs) vs s t" and more: "tl bs \<noteq> []"
  shows "\<exists>s'. free_tail E (c_addr c) t = Some s' \<and> heap_ok s' (us @ with_blks c bs # vs) \<and>
     bytes (hp s') = bytes (hp s) \<and> prot (hp s') = prot (hp t)"
proof -
  let ?c = "with_blks c bs" and ?i = "MBlock (c_addr c)"
  note w = heap_okD [OF heap_ok] and sp = wf_split [OF heap_ok]
  have mem: "chunk_mem (hp t) (last_chunk 0 us) (first_chunk vs 0) ?c"
    and t: "only_in ?c (s\<lparr>mtx := (mtx s)(MShared := held_mutex (self s), ?i := held_mutex (self s))\<rparr>) t"
    using mid by (simp_all add: free_mid_def)
  have lk: "mtx s ?i = free_mutex" "attrs s ?i = Some vgc_pattr"
    using sp(1) by (simp_all add: chunk_ok_def)
  obtain h where h: "get_mb (firstMallocHeaderInMMAP (c_addr c)) t = Some h" "mb_next h \<noteq> 0"
    using first_header_next [OF mem] more by auto
  define u where "u = t\<lparr>ticks := Suc (ticks t), mtx := (mtx t)(?i := (mtx t ?i)\<lparr>pm_lock := Unlocked\<rparr>)\<rparr>"
  have ul: "unlock_reporting E F_vgc_free ?i t = Some u"
    using t E by (simp add: unlock_reporting_ok only_in_def held_mutex_def u_def)
  define s0 where "s0 = s\<lparr>mtx := (mtx s)(MShared := held_mutex (self s))\<rparr>"
  have "mtx u = mtx s0"
    using t lk by (auto simp: u_def s0_def only_in_def held_mutex_def fun_eq_iff)
  then have only: "only_in c s0 u"
    using t by (simp add: only_in_def u_def s0_def)
  have ch0: "chain s0 0 (us @ c # vs) 0"
    by (rule chain_hp [OF w(4)]) (simp_all add: s0_def)
  have "mtx u ?i = free_mutex" "attrs u ?i = Some vgc_pattr"
    using only lk by (simp_all add: only_in_def s0_def)
  then have ok: "chunk_ok u (last_chunk 0 us) (first_chunk vs 0) ?c"
    using mem by (simp add: chunk_ok_def u_def)
  note ch = chain_update [OF ch0 w(5) ok only]
  have held: "wf_held s0 (us @ c # vs)"
    using w ch0 by (simp add: wf_held_def s0_def held_mutex_def cfg_def)
  have "wf_held u (us @ ?c # vs)"
    using ch keeps_only_in [OF only] w(5) by (intro wf_held_keeps [OF held]) simp_all
  then obtain s' where "unlock_reporting E F_vgc_free MShared u = Some s'" "heap_ok s' (us @ ?c # vs)"
    "hp s' = hp u"
    using unlock_shared [OF E] by blast
  moreover have "bytes (hp u) = bytes (hp s)" "prot (hp u) = prot (hp t)"
    using only by (simp_all add: only_in_def s0_def u_def)
  ultimately show ?thesis
    using h ul by (intro exI [of _ s']) (simp add: free_tail_def)
qed

section \<open>The chunk goes\<close>

text \<open>What the chunks around a chunk that goes must keep.\<close>

definition kept :: "chunk \<Rightarrow> state \<Rightarrow> state \<Rightarrow> bool" where
  "kept d s s' \<longleftrightarrow> same_body d (hp s) (hp s') \<and> mtx s' (MBlock (c_addr d)) = mtx s (MBlock (c_addr d)) \<and>
     attrs s' (MBlock (c_addr d)) = attrs s (MBlock (c_addr d))"

lemma chunk_ok_kept:
  assumes "chunk_ok s p n d" and "kept d s s'"
    and "mmapH (hp s') (c_addr d) = map_option f (mmapH (hp s) (c_addr d))"
    and "f (chunk_hdr p n d) = chunk_hdr p' n' d"
  shows "chunk_ok s' p' n' d"
proof -
  have mem: "chunk_mem (hp s) p n d" using assms(1) by (simp add: chunk_ok_def)
  have "mmapH (hp s') (c_addr d) = Some (chunk_hdr p' n' d)"
    using assms(3,4) chunk_memD(2) [OF mem] by simp
  then have "chunk_mem (hp s') p' n' d"
    using assms(2) mem by (intro chunk_mem_relink [OF mem]) (simp_all add: kept_def)
  then show ?thesis using assms(1,2) by (simp add: chunk_ok_def kept_def)
qed

lemma chain_kept:
  assumes "chain s p ds n" and "\<forall>d \<in> set ds. kept d s s' \<and> mmapH (hp s') (c_addr d) = mmapH (hp s) (c_addr d)"
  shows "chain s' p ds n"
  using assms
proof (induction ds arbitrary: p)
  case (Cons d ds)
  then have "chunk_ok s p (first_chunk ds n) d" by simp
  then have "chunk_ok s' p (first_chunk ds n) d"
    using Cons.prems(2) by (elim chunk_ok_kept [where f = id]) (simp_all add: option.map_id)
  moreover have "chain s' (c_addr d) ds n" using Cons.IH Cons.prems by simp
  ultimately show ?case by simp
qed simp

lemma chain_kept_last:
  assumes "chain s p ds n" and "\<forall>d \<in> set ds. kept d s s'"
    and "\<forall>d \<in> set (butlast ds). mmapH (hp s') (c_addr d) = mmapH (hp s) (c_addr d)"
    and "ds \<noteq> [] \<Longrightarrow> mmapH (hp s') (c_addr (last ds)) =
      map_option (\<lambda>h. h\<lparr>mm_next := n'\<rparr>) (mmapH (hp s) (c_addr (last ds)))"
  shows "chain s' p ds n'"
proof (cases ds rule: rev_cases)
  case (snoc es d)
  have "chunk_ok s (last_chunk p es) n d" using assms(1) snoc by simp
  then have "chunk_ok s' (last_chunk p es) n' d"
    using assms(2,4) snoc
    by (elim chunk_ok_kept [where f = "\<lambda>h. h\<lparr>mm_next := n'\<rparr>"]) (simp_all add: chunk_hdr_def)
  then show ?thesis
    using chain_kept [of s p es "c_addr d" s'] assms snoc by simp
qed simp

lemma chain_kept_first:
  assumes "chain s p ds n" and "\<forall>d \<in> set ds. kept d s s'"
    and "\<forall>d \<in> set (tl ds). mmapH (hp s') (c_addr d) = mmapH (hp s) (c_addr d)"
    and "ds \<noteq> [] \<Longrightarrow> mmapH (hp s') (c_addr (hd ds)) =
      map_option (\<lambda>h. h\<lparr>mm_prev := p'\<rparr>) (mmapH (hp s) (c_addr (hd ds)))"
  shows "chain s' p' ds n"
proof (cases ds)
  case (Cons d es)
  then have "chunk_ok s p (first_chunk es n) d" using assms(1) by simp
  then have "chunk_ok s' p' (first_chunk es n) d"
    using assms(2,4) Cons
    by (elim chunk_ok_kept [where f = "\<lambda>h. h\<lparr>mm_prev := p'\<rparr>"]) (simp_all add: chunk_hdr_def)
  then show ?thesis
    using chain_kept [of s "c_addr d" es n s'] assms Cons by simp
qed simp

definition same_locks :: "state \<Rightarrow> state \<Rightarrow> bool" where
  "same_locks s s' \<longleftrightarrow> mtx s' = mtx s \<and> attrs s' = attrs s \<and> self s' = self s \<and>
     messageLevel s' = messageLevel s"

definition relink :: "addr \<Rightarrow> (VGC_mmapHeader \<Rightarrow> VGC_mmapHeader) \<Rightarrow> heap \<Rightarrow> heap" where
  "relink a f h = (if a = 0 then h else h\<lparr>mmapH := (mmapH h)(a := map_option f (mmapH h a))\<rparr>)"

lemma relink_sel [simp]:
  "shared (relink a f h) = shared h" "mallocH (relink a f h) = mallocH h"
  "bytes (relink a f h) = bytes h" "prot (relink a f h) = prot h" "maps (relink a f h) = maps h"
  "mmapH (relink a f h) x = (if a \<noteq> 0 \<and> x = a then map_option f (mmapH h a) else mmapH h x)"
  by (simp_all add: relink_def)

lemma relink_other: "\<not> (a \<noteq> 0 \<and> x = a) \<Longrightarrow> mmapH (relink a f h) x = mmapH h x"
  by auto

lemma lock_upd_unlock:
  assumes E: "reliable E" and "mtx t (MBlock a) = free_mutex" and "mmapH (hp t) a = Some h" and "a \<noteq> 0"
  shows "\<exists>t1 t2 t3. PTHREAD_mutexLock E (MBlock a) t = Some (True, t1) \<and> upd_mm a f t1 = Some t2 \<and>
     unlock_reporting E fn (MBlock a) t2 = Some t3 \<and> hp t3 = relink a f (hp t) \<and> same_locks t t3"
proof -
  define t1 where "t1 = t\<lparr>ticks := Suc (ticks t),
     mtx := (mtx t)(MBlock a := (mtx t (MBlock a))\<lparr>pm_lock := Locked (self t)\<rparr>)\<rparr>"
  define t2 where "t2 = put_mm a (f h) t1"
  define t3 where "t3 = t2\<lparr>ticks := Suc (ticks t2),
     mtx := (mtx t2)(MBlock a := (mtx t2 (MBlock a))\<lparr>pm_lock := Unlocked\<rparr>)\<rparr>"
  have "PTHREAD_mutexLock E (MBlock a) t = Some (True, t1)"
    using assms by (simp add: PTHREAD_mutexLock_free t1_def)
  moreover have "upd_mm a f t1 = Some t2" using assms by (simp add: upd_mm_Some t1_def t2_def)
  moreover have "unlock_reporting E fn (MBlock a) t2 = Some t3"
    using assms by (simp add: unlock_reporting_ok t2_def t1_def t3_def)
  moreover have "hp t3 = relink a f (hp t)"
    using assms by (simp add: t3_def t2_def t1_def relink_def put_mm_def)
  moreover have "same_locks t t3"
    using assms by (simp add: same_locks_def t3_def t2_def t1_def fun_upd_idem)
  ultimately show ?thesis by blast
qed

lemma unhookNext_ok:
  assumes E: "reliable E" and h: "get_mm m t = Some h"
    and nx: "mm_next h \<noteq> 0 \<Longrightarrow> mtx t (MBlock (mm_next h)) = free_mutex \<and> mmapH (hp t) (mm_next h) \<noteq> None"
  shows "\<exists>t'. unhookNext E m t = Some (True, t') \<and> same_locks t t' \<and>
     hp t' = relink (mm_next h) (\<lambda>g. g\<lparr>mm_prev := mm_prev h\<rparr>) (hp t)"
proof (cases "mm_next h = 0")
  case False
  with nx lock_upd_unlock [OF E, of t "mm_next h" _ "\<lambda>g. g\<lparr>mm_prev := mm_prev h\<rparr>" F_vgc_free]
  obtain t1 t2 t3 where "PTHREAD_mutexLock E (MBlock (mm_next h)) t = Some (True, t1)"
    "upd_mm (mm_next h) (\<lambda>g. g\<lparr>mm_prev := mm_prev h\<rparr>) t1 = Some t2"
    "unlock_reporting E F_vgc_free (MBlock (mm_next h)) t2 = Some t3"
    "hp t3 = relink (mm_next h) (\<lambda>g. g\<lparr>mm_prev := mm_prev h\<rparr>) (hp t)" "same_locks t t3"
    by auto
  then show ?thesis using h False by (simp add: unhookNext_def)
qed (use h in \<open>simp add: unhookNext_def relink_def same_locks_def\<close>)

lemma unhookPrev_ok:
  assumes E: "reliable E" and h: "get_mm m t = Some h"
    and pv: "mm_prev h \<noteq> 0 \<Longrightarrow> mtx t (MBlock (mm_prev h)) = free_mutex \<and> mmapH (hp t) (mm_prev h) \<noteq> None"
  shows "\<exists>t'. unhookPrev E m t = Some (True, t') \<and> same_locks t t' \<and>
     hp t' = relink (mm_prev h) (\<lambda>g. g\<lparr>mm_next := mm_next h\<rparr>) (hp t)"
proof (cases "mm_prev h = 0")
  case False
  with pv lock_upd_unlock [OF E, of t "mm_prev h" _ "\<lambda>g. g\<lparr>mm_next := mm_next h\<rparr>" F_vgc_free]
  obtain t1 t2 t3 where "PTHREAD_mutexLock E (MBlock (mm_prev h)) t = Some (True, t1)"
    "upd_mm (mm_prev h) (\<lambda>g. g\<lparr>mm_next := mm_next h\<rparr>) t1 = Some t2"
    "unlock_reporting E F_vgc_free (MBlock (mm_prev h)) t2 = Some t3"
    "hp t3 = relink (mm_prev h) (\<lambda>g. g\<lparr>mm_next := mm_next h\<rparr>) (hp t)" "same_locks t t3"
    by auto
  then show ?thesis using h False by (simp add: unhookPrev_def)
qed (use h in \<open>simp add: unhookPrev_def relink_def same_locks_def\<close>)

text \<open>The end of the chunk itself: its lock, its attributes, its memory.\<close>

definition unmapped :: "addr \<Rightarrow> size_t \<Rightarrow> state \<Rightarrow> state \<Rightarrow> bool" where
  "unmapped m n s s' \<longleftrightarrow>
     shared (hp s') = (shared (hp s))\<lparr>sh_mmapBlockCount := sh_mmapBlockCount (shared (hp s)) - 1,
        sh_mmapBlockFirst := (if m = sh_mmapBlockFirst (shared (hp s)) then 0
                              else sh_mmapBlockFirst (shared (hp s)))\<rparr> \<and>
     (\<forall>x. \<not> in_range m n x \<longrightarrow> mmapH (hp s') x = mmapH (hp s) x \<and> mallocH (hp s') x = mallocH (hp s) x \<and>
        prot (hp s') x = prot (hp s) x \<and> bytes (hp s') x = bytes (hp s) x) \<and>
     (\<forall>r \<in> set (maps (hp s)). disjoint_regions (m, n) r \<longrightarrow> 0 < unat (snd r) \<longrightarrow> r \<in> set (maps (hp s'))) \<and>
     (m, n) \<notin> set (maps (hp s')) \<and>
     (\<forall>i. i \<noteq> MBlock m \<longrightarrow> mtx s' i = mtx s i \<and> attrs s' i = attrs s i) \<and>
     self s' = self s \<and> messageLevel s' = messageLevel s"

lemma close_chunk:
  assumes E: "reliable E" and h: "mmapH (hp t) m = Some h" "mm_size h \<noteq> 0"
    and lk: "mtx t (MBlock m) = held_mutex (self t)" "attrs t (MBlock m) = Some vgc_pattr"
  shows "\<exists>t1 t2 t3 t4. unlock_reporting E F_vgc_free (MBlock m) t = Some t1 \<and>
     PTHREAD_mutexDestroy E (MBlock m) t1 = Some (True, t2) \<and>
     PTHREAD_mutexattrDestroy E (MBlock m) t2 = (True, t3) \<and>
     freeMMAP E m t3 = Some t4 \<and> unmapped m (mm_size h) t t4"
proof -
  define t1 where "t1 = t\<lparr>ticks := Suc (ticks t), mtx := (mtx t)(MBlock m := free_mutex)\<rparr>"
  define t2 where "t2 = t1\<lparr>ticks := Suc (ticks t1),
     mtx := (mtx t1)(MBlock m := free_mutex\<lparr>pm_lock := Uninit\<rparr>)\<rparr>"
  define t3 where "t3 = t2\<lparr>ticks := Suc (ticks t2), attrs := (attrs t2)(MBlock m := None)\<rparr>"
  have a: "unlock_reporting E F_vgc_free (MBlock m) t = Some t1"
    using E lk(1) by (simp add: unlock_reporting_ok held_mutex_def t1_def)
  have b: "PTHREAD_mutexDestroy E (MBlock m) t1 = Some (True, t2)"
    using E by (simp add: PTHREAD_mutexDestroy_free t1_def t2_def)
  have c: "PTHREAD_mutexattrDestroy E (MBlock m) t2 = (True, t3)"
    using E lk(2) by (simp add: PTHREAD_mutexattrDestroy_def sys_reliable t1_def t2_def t3_def)
  have g: "get_mm m t3 = Some h" using h by (simp add: get_mm_def t1_def t2_def t3_def)
  have "\<exists>t4. freeMMAP E m t3 = Some t4 \<and> unmapped m (mm_size h) t3 t4"
    using E g h(2)
    by (auto simp: freeMMAP_def unmap_reporting_def munmap_def sys_reliable get_mm_def upd_shared_def
        unmapped_def clear_range_def disjoint_regions_def word_eq_unat Let_def)
  then obtain t4 where d: "freeMMAP E m t3 = Some t4" "unmapped m (mm_size h) t3 t4" by blast
  have "unmapped m (mm_size h) t t4"
    using d(2) by (simp add: unmapped_def t1_def t2_def t3_def)
  then show ?thesis using a b c d(1) by blast
qed

text \<open>
  The invariant with the head pointer apart: \<open>wf_at s f cs\<close> says that the chain of \<open>cs\<close> is intact,
  while \<open>mmapBlockFirst\<close> is \<open>f\<close>.
\<close>

definition wf_at :: "state \<Rightarrow> addr \<Rightarrow> chunk list \<Rightarrow> bool" where
  "wf_at s f cs \<longleftrightarrow> cfg s \<and> sh_mmapBlockFirst (shared (hp s)) = f \<and>
     sh_mmapBlockCount (shared (hp s)) = int (length cs) \<and>
     chain s 0 cs 0 \<and> sorted_wrt apart cs \<and>
     mtx s MShared = free_mutex \<and> attrs s MShared = Some vgc_pattr"

lemma wf_at_wf: "wf_at s (first_chunk cs 0) cs = heap_ok s cs"
  by (simp add: wf_at_def heap_ok_def)

lemma unmapped_kept:
  assumes un: "unmapped (c_addr c) (c_size c) s s'" and ap: "apart c d"
    and c: "chunk_shape c" and d: "chunk_shape d"
  shows "kept d s s'" "mmapH (hp s') (c_addr d) = mmapH (hp s) (c_addr d)"
proof -
  have out: "\<not> in_range (c_addr c) (c_size c) x" if "in_range (c_addr d) (c_size d) x" for x
    using apart_in_range [OF ap that] .
  have "c_addr d \<noteq> c_addr c"
    using apart_addr [OF ap c d] by simp
  then show "kept d s s'"
    using un out ap chunk_size(2) [OF d]
    by (simp add: kept_def unmapped_def same_body_def apart_def)
  show "mmapH (hp s') (c_addr d) = mmapH (hp s) (c_addr d)"
    using un out [OF chunk_in_own_range [OF d]] by (simp add: unmapped_def)
qed

lemma last_chunk_cases: "last_chunk 0 us \<noteq> 0 \<Longrightarrow> us \<noteq> [] \<and> last_chunk 0 us = c_addr (last us)"
  by (auto simp: last_chunk_def split: if_splits)

lemma first_chunk_cases: "first_chunk vs 0 \<noteq> 0 \<Longrightarrow> vs \<noteq> [] \<and> first_chunk vs 0 = c_addr (hd vs)"
  by (cases vs) auto

lemma chain_ok_at: "chain s p cs n \<Longrightarrow> d \<in> set cs \<Longrightarrow> \<exists>p' n'. chunk_ok s p' n' d"
  by (induction cs arbitrary: p) auto

lemma chunks_distinct:
  "sorted_wrt apart ds \<Longrightarrow> \<forall>d \<in> set ds. chunk_shape d \<Longrightarrow> distinct (map c_addr ds)"
proof (induction ds)
  case (Cons d ds)
  then have "\<forall>e \<in> set ds. c_addr d \<noteq> c_addr e" using apart_addr by auto
  with Cons show ?case by auto
qed simp

text \<open>The two links that change are those of different chunks.\<close>

lemma links_distinct:
  assumes dist: "distinct (map c_addr (us @ vs))" and nz: "\<forall>d \<in> set (us @ vs). c_addr d \<noteq> 0"
  shows "d \<in> set us \<Longrightarrow> c_addr d \<noteq> first_chunk vs 0" "d \<in> set vs \<Longrightarrow> c_addr d \<noteq> last_chunk 0 us"
    "d \<in> set (butlast us) \<Longrightarrow> c_addr d \<noteq> last_chunk 0 us"
    "d \<in> set (tl vs) \<Longrightarrow> c_addr d \<noteq> first_chunk vs 0"
proof -
  show "d \<in> set us \<Longrightarrow> c_addr d \<noteq> first_chunk vs 0"
    using dist nz by (cases vs) (auto simp: image_iff)
  show "d \<in> set vs \<Longrightarrow> c_addr d \<noteq> last_chunk 0 us"
    using dist nz by (cases us rule: rev_cases) (auto simp: image_iff)
  show "d \<in> set (butlast us) \<Longrightarrow> c_addr d \<noteq> last_chunk 0 us"
    using dist by (cases us rule: rev_cases) (auto simp: image_iff)
  show "d \<in> set (tl vs) \<Longrightarrow> c_addr d \<noteq> first_chunk vs 0"
    using dist by (cases vs) (auto simp: image_iff)
qed

text \<open>Taking a chunk out of the chain: the links of its neighbours, then its memory.\<close>

definition neighbour_hdr ::
    "chunk list \<Rightarrow> chunk list \<Rightarrow> (addr \<Rightarrow> VGC_mmapHeader option) \<Rightarrow> chunk \<Rightarrow> VGC_mmapHeader option" where
  "neighbour_hdr us vs m d =
     (if c_addr d = last_chunk 0 us then map_option (\<lambda>g. g\<lparr>mm_next := first_chunk vs 0\<rparr>) (m (c_addr d))
      else if c_addr d = first_chunk vs 0 then map_option (\<lambda>g. g\<lparr>mm_prev := last_chunk 0 us\<rparr>) (m (c_addr d))
      else m (c_addr d))"

text \<open>No mmap header outside the chunks is touched.\<close>

definition headers_kept :: "chunk list \<Rightarrow> state \<Rightarrow> state \<Rightarrow> bool" where
  "headers_kept cs s s' \<longleftrightarrow>
     (\<forall>x. (\<forall>d \<in> set cs. \<not> in_range (c_addr d) (c_size d) x) \<longrightarrow> mmapH (hp s') x = mmapH (hp s) x)"

definition unlinked :: "chunk list \<Rightarrow> chunk \<Rightarrow> chunk list \<Rightarrow> state \<Rightarrow> state \<Rightarrow> bool" where
  "unlinked us c vs s t2 \<longleftrightarrow> headers_kept (us @ c # vs) s t2 \<and>
     (\<forall>d \<in> set us \<union> set vs. same_body d (hp s) (hp t2) \<and>
        mmapH (hp t2) (c_addr d) = neighbour_hdr us vs (mmapH (hp s)) d) \<and>
     (\<forall>x. x \<noteq> c_addr c \<longrightarrow> mtx t2 (MBlock x) = mtx s (MBlock x) \<and> attrs t2 (MBlock x) = attrs s (MBlock x))"

text \<open>What that leaves of the chunks around it once its memory is gone too.\<close>

definition closed_up :: "chunk list \<Rightarrow> chunk list \<Rightarrow> state \<Rightarrow> state \<Rightarrow> bool" where
  "closed_up us vs s s' \<longleftrightarrow>
     (\<forall>d \<in> set us \<union> set vs. kept d s s' \<and>
        mmapH (hp s') (c_addr d) = neighbour_hdr us vs (mmapH (hp s)) d)"

lemma closed_upI:
  assumes ch: "chain s 0 (us @ c # vs) 0" and ap: "sorted_wrt apart (us @ c # vs)"
    and ul: "unlinked us c vs s t2" and un: "unmapped (c_addr c) (c_size c) t2 s'"
  shows "closed_up us vs s s'"
  unfolding closed_up_def
proof (intro ballI)
  fix d assume d: "d \<in> set us \<union> set vs"
  have o: "apart c d" "chunk_shape d" and cs: "chunk_shape c"
    using apart_others [OF ap d] chain_shape [OF ch] d by auto
  note k = unmapped_kept [OF un o(1) cs o(2)]
  have "c_addr d \<noteq> c_addr c" using apart_addr [OF o(1) cs o(2)] by simp
  then have "kept d s s'"
    using ul k(1) d by (simp add: unlinked_def kept_def same_body_def)
  then show "kept d s s' \<and> mmapH (hp s') (c_addr d) = neighbour_hdr us vs (mmapH (hp s)) d"
    using ul k(2) d by (simp add: unlinked_def)
qed

lemma chain_before:
  assumes ch: "chain s 0 us n" and up: "closed_up us vs s s'"
    and dist: "distinct (map c_addr (us @ vs))" and nz: "\<forall>d \<in> set (us @ vs). c_addr d \<noteq> 0"
  shows "chain s' 0 us (first_chunk vs 0)"
proof (rule chain_kept_last [OF ch])
  note ld = links_distinct [OF dist nz]
  show "\<forall>d\<in>set us. kept d s s'" using up by (simp add: closed_up_def)
  show "\<forall>d\<in>set (butlast us). mmapH (hp s') (c_addr d) = mmapH (hp s) (c_addr d)"
    using up ld(1,3) in_set_butlastD [of _ us] by (simp add: closed_up_def neighbour_hdr_def)
  assume us: "us \<noteq> []"
  then have "last us \<in> set us" "c_addr (last us) = last_chunk 0 us" by (simp_all add: last_chunk_def)
  then show "mmapH (hp s') (c_addr (last us)) =
     map_option (\<lambda>h. h\<lparr>mm_next := first_chunk vs 0\<rparr>) (mmapH (hp s) (c_addr (last us)))"
    using up [unfolded closed_up_def, THEN bspec, of "last us"] by (simp add: neighbour_hdr_def)
qed

lemma chain_after:
  assumes ch: "chain s p vs 0" and up: "closed_up us vs s s'"
    and dist: "distinct (map c_addr (us @ vs))" and nz: "\<forall>d \<in> set (us @ vs). c_addr d \<noteq> 0"
  shows "chain s' (last_chunk 0 us) vs 0"
proof (rule chain_kept_first [OF ch])
  note ld = links_distinct [OF dist nz]
  show "\<forall>d\<in>set vs. kept d s s'" using up by (simp add: closed_up_def)
  show "\<forall>d\<in>set (tl vs). mmapH (hp s') (c_addr d) = mmapH (hp s) (c_addr d)"
    using up ld(2,4) by (cases vs) (auto simp: closed_up_def neighbour_hdr_def)
  assume vs: "vs \<noteq> []"
  then have "hd vs \<in> set vs" "c_addr (hd vs) = first_chunk vs 0"
    by (simp_all add: first_chunk_def split: list.splits)
  then show "mmapH (hp s') (c_addr (hd vs)) =
     map_option (\<lambda>h. h\<lparr>mm_prev := last_chunk 0 us\<rparr>) (mmapH (hp s) (c_addr (hd vs)))"
    using up [unfolded closed_up_def, THEN bspec, of "hd vs"] ld(2) [of "hd vs"] by (simp add: neighbour_hdr_def)
qed

lemma chain_unlink:
  assumes ch: "chain s 0 (us @ c # vs) 0" and ap: "sorted_wrt apart (us @ c # vs)"
    and ul: "unlinked us c vs s t2" and un: "unmapped (c_addr c) (c_size c) t2 s'"
  shows "chain s' 0 (us @ vs) 0"
proof -
  note up = closed_upI [OF ch ap ul un]
  have sh: "chunk_shape d" if "d \<in> set (us @ vs)" for d
    using chain_shape [OF ch, of d] that by auto
  then have nz: "\<forall>d \<in> set (us @ vs). c_addr d \<noteq> 0" by (simp add: chunk_shape_def)
  have dist: "distinct (map c_addr (us @ vs))"
    using sh by (intro chunks_distinct [OF sorted_wrt_drop [OF ap]]) auto
  show ?thesis
    using ch chain_before [OF _ up dist nz, of "c_addr c"] chain_after [OF _ up dist nz, of "c_addr c"] by simp
qed

text \<open>The neighbours of the chunk can be locked, and their headers are there.\<close>

lemma neighbour_ok:
  assumes heap_ok: "heap_ok s (us @ c # vs)"
    and only: "only_in c (s\<lparr>mtx := (mtx s)(MShared := m1, MBlock (c_addr c) := m2)\<rparr>) t"
    and a: "a \<noteq> 0" "a = first_chunk vs 0 \<or> a = last_chunk 0 us"
  shows "mtx t (MBlock a) = free_mutex" "mmapH (hp t) a \<noteq> None" "a \<noteq> c_addr c"
proof -
  note w = heap_okD [OF heap_ok]
  obtain d where d: "d \<in> set us \<union> set vs" "a = c_addr d"
    using a last_chunk_cases [of us] first_chunk_cases [of vs] by (metis UnI1 UnI2 hd_in_set last_in_set)
  have o: "apart c d" "chunk_shape d" "chunk_shape c"
    using apart_others [OF w(5) d(1)] chain_shape [OF w(4)] d(1) by auto
  obtain p n where ok: "chunk_ok s p n d"
    using chain_ok_at [OF w(4), of d] d(1) by auto
  show ne: "a \<noteq> c_addr c" using apart_addr [OF o(1,3,2)] d(2) by simp
  have "mmapH (hp t) (c_addr d) = mmapH (hp s) (c_addr d)"
    using only_in_same_region [OF only o(1)] chunk_in_own_range [OF o(2)] by (simp add: same_region_def)
  then show "mtx t (MBlock a) = free_mutex" "mmapH (hp t) a \<noteq> None"
    using ok only d(2) ne by (auto simp: chunk_ok_def chunk_mem_def only_in_def)
qed

lemma unhook_both:
  assumes E: "reliable E" and heap_ok: "heap_ok s (us @ c # vs)"
    and mid: "free_mid us (with_blks c bs) vs s t"
  shows "\<exists>t1 t2. unhookNext E (c_addr c) t = Some (True, t1) \<and> unhookPrev E (c_addr c) t1 = Some (True, t2) \<and>
     same_locks t t2 \<and> mmapH (hp t2) (c_addr c) = mmapH (hp t) (c_addr c) \<and>
     hp t2 = relink (last_chunk 0 us) (\<lambda>g. g\<lparr>mm_next := first_chunk vs 0\<rparr>)
       (relink (first_chunk vs 0) (\<lambda>g. g\<lparr>mm_prev := last_chunk 0 us\<rparr>) (hp t))"
proof -
  let ?p = "last_chunk 0 us" and ?n = "first_chunk vs 0"
  let ?h = "chunk_hdr ?p ?n (with_blks c bs)"
  have h: "mm_next ?h = ?n" "mm_prev ?h = ?p" by (simp_all add: chunk_hdr_def)
  have only: "only_in c (s\<lparr>mtx := (mtx s)(MShared := held_mutex (self s), MBlock (c_addr c) := held_mutex (self s))\<rparr>) t"
    and mem: "chunk_mem (hp t) ?p ?n (with_blks c bs)"
    using mid by (simp_all add: free_mid_def only_in_def)
  note nb = neighbour_ok [OF heap_ok only]
  have ht: "get_mm (c_addr c) t = Some ?h" using chunk_memD(2) [OF mem] by (simp add: get_mm_def)
  obtain t1 where t1: "unhookNext E (c_addr c) t = Some (True, t1)" "same_locks t t1"
    "hp t1 = relink ?n (\<lambda>g. g\<lparr>mm_prev := ?p\<rparr>) (hp t)"
    using unhookNext_ok [OF E ht] nb [of ?n] unfolding h by auto
  have np: "\<not> (?n \<noteq> 0 \<and> c_addr c = ?n)" "\<not> (?p \<noteq> 0 \<and> c_addr c = ?p)"
    using nb(3) [of ?n] nb(3) [of ?p] by auto
  have ht1: "get_mm (c_addr c) t1 = Some ?h" using ht t1(3) by (simp add: get_mm_def np)
  have "?p \<noteq> 0 \<Longrightarrow> mtx t1 (MBlock ?p) = free_mutex \<and> mmapH (hp t1) ?p \<noteq> None"
    using nb(1,2) [of ?p] t1(2,3) by (auto simp: same_locks_def)
  then obtain t2 where t2: "unhookPrev E (c_addr c) t1 = Some (True, t2)" "same_locks t1 t2"
    "hp t2 = relink ?p (\<lambda>g. g\<lparr>mm_next := ?n\<rparr>) (hp t1)"
    using unhookPrev_ok [OF E ht1] unfolding h by auto
  then show ?thesis using t1 np by (auto simp: same_locks_def)
qed

lemma unlinkedI:
  assumes heap_ok: "heap_ok s (us @ c # vs)"
    and only: "only_in c (s\<lparr>mtx := (mtx s)(MShared := m1, MBlock (c_addr c) := m2)\<rparr>) t"
    and lk: "same_locks t t2"
    and t2: "hp t2 = relink (last_chunk 0 us) (\<lambda>g. g\<lparr>mm_next := first_chunk vs 0\<rparr>)
       (relink (first_chunk vs 0) (\<lambda>g. g\<lparr>mm_prev := last_chunk 0 us\<rparr>) (hp t))"
  shows "unlinked us c vs s t2"
proof -
  note w = heap_okD [OF heap_ok]
  have others: "apart c d" "chunk_shape d" if "d \<in> set us \<union> set vs" for d
    using apart_others [OF w(5) that] chain_shape [OF w(4), of d] that by auto
  have same: "same_region d (hp s) (hp t)" if "d \<in> set us \<union> set vs" for d
    using only_in_same_region [OF only others(1) [OF that]] by simp
  have dist: "distinct (map c_addr (us @ vs))"
    using others(2) by (intro chunks_distinct [OF sorted_wrt_drop [OF w(5)]]) auto
  have nz: "\<forall>d \<in> set (us @ vs). c_addr d \<noteq> 0" using others(2) by (auto simp: chunk_shape_def)
  have ne: "last_chunk 0 us = first_chunk vs 0 \<Longrightarrow> last_chunk 0 us = 0"
    using links_distinct(1) [OF dist nz, of "last us"] last_chunk_cases [of us] by (metis last_in_set)
  show ?thesis
    unfolding unlinked_def
  proof (intro conjI ballI)
    show "headers_kept (us @ c # vs) s t2"
      unfolding headers_kept_def
    proof (intro allI impI)
      fix x assume out: "\<forall>d \<in> set (us @ c # vs). \<not> in_range (c_addr d) (c_size d) x"
      then have "x \<noteq> c_addr d" if "d \<in> set us \<union> set vs" for d
        using chunk_in_own_range [OF others(2) [OF that]] that by auto
      then have "\<not> (last_chunk 0 us \<noteq> 0 \<and> x = last_chunk 0 us)" "\<not> (first_chunk vs 0 \<noteq> 0 \<and> x = first_chunk vs 0)"
        using last_chunk_cases [of us] first_chunk_cases [of vs] by (metis UnI1 last_in_set, metis UnI2 hd_in_set)
      then have "mmapH (hp t2) x = mmapH (hp t) x"
        unfolding t2 by (metis relink_other)
      then show "mmapH (hp t2) x = mmapH (hp s) x" using out only by (simp add: only_in_def)
    qed
  next
    fix d assume d: "d \<in> set us \<union> set vs"
    show "same_body d (hp s) (hp t2)" using same [OF d] t2 by (simp add: same_region_def same_body_def)
    have "mmapH (hp t) (c_addr d) = mmapH (hp s) (c_addr d)" "c_addr d \<noteq> 0"
      using same [OF d] chunk_in_own_range [OF others(2) [OF d]] nz d by (auto simp: same_region_def)
    then show "mmapH (hp t2) (c_addr d) = neighbour_hdr us vs (mmapH (hp s)) d"
      using ne t2 by (auto simp: neighbour_hdr_def)
  qed (use only lk in \<open>simp add: only_in_def same_locks_def\<close>)
qed

text \<open>The whole removal: the neighbours, the chunk's lock, its memory.\<close>

lemma remove_chunk:
  assumes E: "reliable E" and heap_ok: "heap_ok s (us @ c # vs)"
    and mid: "free_mid us (with_blks c bs) vs s t"
  shows "\<exists>t1 t2 u1 u2 u3 u4. unhookNext E (c_addr c) t = Some (True, t1) \<and>
     unhookPrev E (c_addr c) t1 = Some (True, t2) \<and> unlock_reporting E F_vgc_free (MBlock (c_addr c)) t2 = Some u1 \<and>
     PTHREAD_mutexDestroy E (MBlock (c_addr c)) u1 = Some (True, u2) \<and>
     PTHREAD_mutexattrDestroy E (MBlock (c_addr c)) u2 = (True, u3) \<and> freeMMAP E (c_addr c) u3 = Some u4 \<and>
     unmapped (c_addr c) (c_size c) t2 u4 \<and> unlinked us c vs s t2 \<and> shared (hp t2) = shared (hp s) \<and>
     bytes (hp t2) = bytes (hp s) \<and> mtx t2 MShared = held_mutex (self s) \<and> attrs t2 = attrs s \<and> self t2 = self s \<and>
     prot (hp t2) = prot (hp t)"
proof -
  let ?i = "MBlock (c_addr c)" and ?h = "chunk_hdr (last_chunk 0 us) (first_chunk vs 0) (with_blks c bs)"
  note sp = wf_split [OF heap_ok]
  have only: "only_in c (s\<lparr>mtx := (mtx s)(MShared := held_mutex (self s), ?i := held_mutex (self s))\<rparr>) t"
    and mem: "chunk_mem (hp t) (last_chunk 0 us) (first_chunk vs 0) (with_blks c bs)"
    using mid by (simp_all add: free_mid_def only_in_def)
  obtain t1 t2 where t: "unhookNext E (c_addr c) t = Some (True, t1)" "unhookPrev E (c_addr c) t1 = Some (True, t2)"
    "same_locks t t2" "mmapH (hp t2) (c_addr c) = mmapH (hp t) (c_addr c)"
    "hp t2 = relink (last_chunk 0 us) (\<lambda>g. g\<lparr>mm_next := first_chunk vs 0\<rparr>)
       (relink (first_chunk vs 0) (\<lambda>g. g\<lparr>mm_prev := last_chunk 0 us\<rparr>) (hp t))"
    using unhook_both [OF E heap_ok mid] by blast
  have locks: "mtx t2 MShared = held_mutex (self s)" "mtx t2 ?i = held_mutex (self t2)" "attrs t2 = attrs s" "self t2 = self s"
    using t(3) only by (simp_all add: same_locks_def only_in_def)
  have "mmapH (hp t2) (c_addr c) = Some ?h" using t(4) chunk_memD(2) [OF mem] by simp
  moreover have h: "mm_size ?h = c_size c" by (simp add: chunk_hdr_def)
  moreover have "c_size c \<noteq> 0" using chunk_size(2) [OF sp(2)] by auto
  moreover have "attrs t2 ?i = Some vgc_pattr" using sp(1) locks(3) by (simp add: chunk_ok_def)
  ultimately obtain u1 u2 u3 u4 where "unlock_reporting E F_vgc_free ?i t2 = Some u1"
    "PTHREAD_mutexDestroy E ?i u1 = Some (True, u2)" "PTHREAD_mutexattrDestroy E ?i u2 = (True, u3)"
    "freeMMAP E (c_addr c) u3 = Some u4" "unmapped (c_addr c) (c_size c) t2 u4"
    using close_chunk [OF E, of t2 "c_addr c" ?h] locks(2) by auto
  moreover have "shared (hp t2) = shared (hp s)" "bytes (hp t2) = bytes (hp s)" "prot (hp t2) = prot (hp t)"
    using t(5) only by (simp_all add: only_in_def)
  ultimately show ?thesis using t(1,2) locks unlinkedI [OF heap_ok only t(3,5)] by blast
qed

lemma gone_first:
  assumes heap_ok: "heap_ok s (us @ c # vs)" and un: "unmapped (c_addr c) n t2 u" and sh: "shared (hp t2) = shared (hp s)"
  shows "sh_mmapBlockFirst (shared (hp u)) = (if us = [] then 0 else first_chunk (us @ vs) 0)"
proof (cases us)
  case (Cons d ds)
  have "apart d c" "chunk_shape d" "chunk_shape c"
    using heap_okD(5) [OF heap_ok] chain_shape [OF heap_okD(4) [OF heap_ok]] Cons by auto
  then have "c_addr d \<noteq> c_addr c" using apart_addr by blast
  then show ?thesis using un sh heap_okD(2) [OF heap_ok] Cons by (auto simp: unmapped_def)
qed (use un sh heap_okD(2) [OF heap_ok] in \<open>auto simp: unmapped_def\<close>)

lemma free_tail_gone:
  assumes E: "reliable E" and heap_ok: "heap_ok s (us @ c # vs)"
    and mid: "free_mid us (with_blks c bs) vs s t" and single: "tl bs = []"
  shows "\<exists>s'. free_tail E (c_addr c) t = Some s' \<and>
     wf_at s' (if us = [] then 0 else first_chunk (us @ vs) 0) (us @ vs) \<and>
     bytes_kept (us @ vs) s s' \<and> (c_addr c, c_size c) \<notin> set (maps (hp s')) \<and> headers_kept (us @ c # vs) s s' \<and>
     guards_kept (us @ vs) s s'"
proof -
  note w = heap_okD [OF heap_ok]
  obtain t1 t2 u1 u2 u3 u4 where u: "unhookNext E (c_addr c) t = Some (True, t1)"
    "unhookPrev E (c_addr c) t1 = Some (True, t2)" "unlock_reporting E F_vgc_free (MBlock (c_addr c)) t2 = Some u1"
    "PTHREAD_mutexDestroy E (MBlock (c_addr c)) u1 = Some (True, u2)"
    "PTHREAD_mutexattrDestroy E (MBlock (c_addr c)) u2 = (True, u3)" "freeMMAP E (c_addr c) u3 = Some u4"
    and un: "unmapped (c_addr c) (c_size c) t2 u4" and ul: "unlinked us c vs s t2"
    and t2: "shared (hp t2) = shared (hp s)" "bytes (hp t2) = bytes (hp s)" "mtx t2 MShared = held_mutex (self s)"
      "attrs t2 = attrs s" "self t2 = self s" "prot (hp t2) = prot (hp t)"
    using remove_chunk [OF E heap_ok mid] by blast
  obtain f where f: "get_mb (firstMallocHeaderInMMAP (c_addr c)) t = Some f" "mb_next f = 0"
    using first_header_next [of t _ _ "with_blks c bs"] mid single by (auto simp: free_mid_def)
  have u4: "mtx u4 MShared = held_mutex (self u4)" "attrs u4 MShared = attrs s MShared"
    using un t2(3-5) by (simp_all add: unmapped_def)
  obtain u5 where u5: "unlock_reporting E F_vgc_free MShared u4 = Some u5" "hp u5 = hp u4"
    "attrs u5 = attrs u4" "mtx u5 = (mtx u4)(MShared := free_mutex)"
    using unlock_shared_ok [OF E, of u4 F_vgc_free] u4(1) by (auto simp: held_mutex_def)
  have out: "\<not> in_range (c_addr c) (c_size c) x" if "d \<in> set (us @ vs)" "in_range (c_addr d) (c_size d) x" for d x
    using that apart_in_range [of c d] apart_others [OF w(5), of d] by auto
  have "free_tail E (c_addr c) t = Some u5"
    using f u u5(1) by (simp add: free_tail_def)
  moreover have "wf_at u5 (if us = [] then 0 else first_chunk (us @ vs) 0) (us @ vs)"
    using gone_first [OF heap_ok un t2(1)] chain_unlocked [OF chain_unlink [OF w(4,5) ul un] u5(2-4)]
      w sorted_wrt_drop [OF w(5)] un u5(2-4) u4(2) t2(1)
    by (simp add: wf_at_def unmapped_def cfg_def)
  moreover have "bytes_kept (us @ vs) s u5"
    using out u5(2) un t2(2) by (simp add: bytes_kept_def unmapped_def)
  moreover have "guards_kept (us @ vs) s u5"
    using out u5(2) un t2(6) mid by (simp add: guards_kept_def unmapped_def free_mid_def only_in_def)
  moreover have "(c_addr c, c_size c) \<notin> set (maps (hp u5))"
    using un u5(2) by (simp add: unmapped_def)
  moreover have "headers_kept (us @ c # vs) s u5"
    using ul un u5(2) by (simp add: unlinked_def headers_kept_def unmapped_def)
  ultimately show ?thesis by blast
qed

text \<open>The whole of \<^verbatim>\<open>vgc_free\<close>.\<close>

lemma vgc_free_keep:
  assumes E: "reliable E" and heap_ok: "heap_ok s (us @ c # vs)" and bs: "c_blks c = xs @ b # ys"
    and busy: "\<not> is_free b" and ptr: "points_to ptr b" and more: "tl (release xs b ys) \<noteq> []"
  shows "\<exists>s'. vgc_free E ptr s = Some s' \<and> heap_ok s' (us @ with_blks c (release xs b ys) # vs) \<and>
     bytes (hp s') = bytes (hp s) \<and> opened b ys (hp s) (hp s')"
  using vgc_free_head [OF E heap_ok bs busy ptr] free_tail_keep [OF E heap_ok _ more] by (fastforce simp: opened_def)

lemma vgc_free_gone:
  assumes E: "reliable E" and heap_ok: "heap_ok s (us @ c # vs)" and bs: "c_blks c = xs @ b # ys"
    and busy: "\<not> is_free b" and ptr: "points_to ptr b" and single: "tl (release xs b ys) = []"
  shows "\<exists>s'. vgc_free E ptr s = Some s' \<and>
     wf_at s' (if us = [] then 0 else first_chunk (us @ vs) 0) (us @ vs) \<and>
     bytes_kept (us @ vs) s s' \<and> (c_addr c, c_size c) \<notin> set (maps (hp s')) \<and> headers_kept (us @ c # vs) s s' \<and>
     guards_kept (us @ vs) s s'"
  using vgc_free_head [OF E heap_ok bs busy ptr] free_tail_gone [OF E heap_ok _ single] by auto

end
