(* ===== verification/Malloc_Top.thy ===== *)
theory Malloc_Top
  imports Free_Spec
begin

text \<open>
  The statements about \<^verbatim>\<open>vgc_malloc\<close> as a whole: the call that makes the first chunk, the calls
  that are refused, and every other call.
\<close>

lemma wf_quiet: "heap_ok s cs \<Longrightarrow> quiet s s' \<Longrightarrow> heap_ok s' cs"
  using quiet_chain [of s s' 0 cs 0] by (simp add: heap_ok_def quiet_def cfg_def)

interpretation calm: protecting quiet heap_ok
  by unfold_locales (simp, rule quiet_trans, assumption+, rule wf_quiet)

lemma head_chunk:
  assumes "heap_ok s cs" and "cs \<noteq> []"
  shows "sh_mmapBlockFirst (shared (hp s)) = c_addr (hd cs)" "c_addr (hd cs) \<noteq> 0"
    "\<exists>h. get_mm (c_addr (hd cs)) s = Some h \<and> mm_maxSize h = max_request cs"
proof -
  note w = heap_okD [OF assms(1)]
  show "sh_mmapBlockFirst (shared (hp s)) = c_addr (hd cs)"
    using w(2) assms(2) by (cases cs) auto
  have "\<exists>n. chunk_ok s 0 n (hd cs)" using w(4) assms(2) by (cases cs) auto
  then show "c_addr (hd cs) \<noteq> 0" "\<exists>h. get_mm (c_addr (hd cs)) s = Some h \<and> mm_maxSize h = max_request cs"
    by (auto simp: chunk_ok_def chunk_mem_def get_mm_def chunk_hdr_def max_request_def chunk_shape_def)
qed

lemma vgc_malloc_refused:
  assumes heap_ok: "heap_ok s cs" and ne: "cs \<noteq> []" and sz: "sz = 0 \<or> max_request cs \<le> sz"
  shows "\<exists>r. vgc_malloc E sz s = Some (0, report ERROR_LEVEL (Rep F_vgc_malloc r) s)"
  using head_chunk [OF heap_ok ne] sz cfgD(3) [OF heap_okD(1) [OF heap_ok]]
  by (auto simp: vgc_malloc_def Let_def)

lemma vgc_malloc_all:
  assumes E: "reliable E" and mm: "mmap_ok E" and heap_ok: "heap_ok s cs" and ne: "cs \<noteq> []"
  shows "\<exists>new s'. vgc_malloc E sz s = Some (fst (malloc_spec sz new cs), s') \<and>
     heap_ok s' (snd (malloc_spec sz new cs)) \<and> is_fresh new \<and> bytes_kept cs s s' \<and> guards_kept cs s s' \<and>
     mapped_for sz new cs s s' \<and> (\<forall>c. new = Some c \<longrightarrow> (\<forall>d \<in> set cs. apart c d)) \<and>
     (fst (malloc_spec sz new cs) \<noteq> 0 \<longrightarrow> guarded_end (pool new cs) sz (fst (malloc_spec sz new cs)) s')"
proof (cases "sz = 0 \<or> max_request cs \<le> sz")
  case True
  then obtain r where r: "vgc_malloc E sz s = Some (0, report ERROR_LEVEL (Rep F_vgc_malloc r) s)"
    using vgc_malloc_refused [OF heap_ok ne] by blast
  have "malloc_spec sz None cs = (0, cs)" using True by (simp add: malloc_spec_def)
  then show ?thesis
    using r wf_quiet [OF heap_ok, of "report ERROR_LEVEL (Rep F_vgc_malloc r) s"]
    by (intro exI [of _ None] exI [of _ "report ERROR_LEVEL (Rep F_vgc_malloc r) s"])
      (simp add: is_fresh_def bytes_kept_def guards_kept_def mapped_for_def new_region_def)
next
  case False
  then show ?thesis using vgc_malloc_step [OF E mm heap_ok ne] by (simp add: step_ok_def)
qed

text \<open>\<^verbatim>\<open>mmapBlockAllocate\<close> fails only when there is room for neither size.\<close>

definition room :: "env \<Rightarrow> state \<Rightarrow> bool" where
  "room E s \<longleftrightarrow> env_mmap E (ticks s) (maps (hp s)) 32768000 \<noteq> MAP_FAILED \<or>
     env_mmap E (Suc (ticks s)) (maps (hp s)) 3276800 \<noteq> MAP_FAILED"

lemma mmapBlockAllocate_room:
  assumes E: "reliable E" and mm: "mmap_ok E" and ps: "sh_pageSize (shared (hp s)) = 4096"
    and "room E s"
  shows "mmapBlockAllocate E 32768000 0 s \<noteq> Some (MAP_FAILED, s')"
proof (cases "env_mmap E (ticks s) (maps (hp s)) 32768000 = MAP_FAILED")
  case False
  then show ?thesis
    using allocMMAP_ok [OF E mm refl False _ _ _ ps, of 0] by (auto simp: mmapBlockAllocate_def)
next
  case True
  define t where "t = report ERROR_LEVEL (Rep F_allocMMAP S_mmap) (s\<lparr>ticks := Suc (ticks s)\<rparr>)"
  have t: "ticks t = Suc (ticks s)" "hp t = hp s" by (simp_all add: t_def)
  have ps': "sh_pageSize (shared (hp t)) = 4096" using ps t by simp
  have f: "env_mmap E (ticks t) (maps (hp t)) 3276800 \<noteq> MAP_FAILED"
    using assms(4) True t by (simp add: room_def)
  obtain u where "allocMMAP E 3276800 0 t = Some (env_mmap E (ticks t) (maps (hp t)) 3276800, u)"
    using allocMMAP_ok [OF E mm refl f _ _ _ ps', of 0] by auto
  moreover have "allocMMAP E 32768000 0 s = Some (MAP_FAILED, t)"
    using allocMMAP_fail [OF True, of 0] by (simp add: t_def)
  ultimately show ?thesis using f by (simp add: mmapBlockAllocate_def)
qed

text \<open>The first call makes a chunk, then goes on as if the chunk had been there.\<close>

lemma vgc_malloc_first:
  assumes E: "reliable E" and mm: "mmap_ok E" and heap_ok: "heap_ok s []"
    and room: "room E s"
  shows "\<exists>a n s1. n \<in> set chunk_sizes \<and> heap_ok s1 [fresh_chunk a n] \<and>
     maps (hp s1) = (a, n) # maps (hp s) \<and> vgc_malloc E sz s = vgc_malloc E sz s1"
proof -
  note w = heap_okD [OF heap_ok]
  have alloc: "(\<exists>s'. mmapBlockAllocate E 32768000 0 s = Some (MAP_FAILED, s')) \<or>
    (\<exists>s' a n. mmapBlockAllocate E 32768000 0 s = Some (a, s') \<and> a \<noteq> MAP_FAILED \<and>
       n \<in> set chunk_sizes \<and> chain s' 0 [fresh_chunk a n] 0 \<and> fresh_frame a n 0 s s')"
    using mmapBlockAllocate_ok [OF E mm w(1) w(4) w(5)] by (auto simp: chunk_added_def)
  with mmapBlockAllocate_room [OF E mm cfgD(1) [OF w(1)] room] obtain s1 a n where s1: "mmapBlockAllocate E 32768000 0 s = Some (a, s1)" "a \<noteq> MAP_FAILED"
    "n \<in> set chunk_sizes" "chain s1 0 [fresh_chunk a n] 0" "fresh_frame a n 0 s s1"
    by blast
  define s2 where "s2 = upd_shared (\<lambda>h. h\<lparr>sh_mmapBlockFirst := a\<rparr>) s1"
  have a0: "a \<noteq> 0" using s1(4) by (simp add: chunk_ok_def chunk_mem_def chunk_shape_def)
  have "chain s2 0 [fresh_chunk a n] 0"
    using s1(4) by (rule chain_frame) (simp add: s2_def upd_shared_def same_region_def)
  then have "heap_ok s2 [fresh_chunk a n]"
    using w s1(5) by (simp add: heap_ok_def s2_def upd_shared_def fresh_frame_def cfg_def)
  moreover have "vgc_malloc E sz s = vgc_malloc E sz s2"
    using w(2) s1(1,2) a0 cfgD(2) [OF w(1)]
    by (simp add: vgc_malloc_def s2_def upd_shared_def)
  moreover have "maps (hp s2) = (a, n) # maps (hp s)"
    using s1(5) by (simp add: s2_def upd_shared_def fresh_frame_def)
  ultimately show ?thesis using s1(3) by blast
qed

end
