(* ===== verification/Startup.thy ===== *)
theory Startup
  imports Malloc_Top
begin

text \<open>
  Loading and unloading the library, from \<^verbatim>\<open>src/vgc_malloc.c\<close>: \<^verbatim>\<open>createShared\<close>,
  \<^verbatim>\<open>initialiseMutex\<close>, \<^verbatim>\<open>initializeShared\<close> and \<^verbatim>\<open>mallocCleanup\<close>; and \<^verbatim>\<open>vgc_mallocCheckMMAP\<close>, the
  debugging entry point that checks and dumps every mmap block.

  The global pointer \<^verbatim>\<open>shared\<close> is an argument: the address the record was mapped at. The page
  size \<^verbatim>\<open>sysconf\<close> reports is an argument too.
\<close>

section \<open>Loading\<close>

text \<open>
  The size of \<^verbatim>\<open>VGC_shared\<close> on x86-64 Linux, in the default build. The size is the argument \<open>n\<close> of the functions
  ending in \<open>_sized\<close>, since the record of the multi-process build is larger.
\<close>

abbreviation sizeof_VGC_shared :: size_t where
  "sizeof_VGC_shared \<equiv> 96"

text \<open>
  The source compares the result of \<^verbatim>\<open>mmap\<close> with 0, not with \<open>MAP_FAILED\<close>; the stores through
  a pointer that maps nothing are \<open>None\<close>.
\<close>

definition createShared_sized :: "env \<Rightarrow> size_t \<Rightarrow> size_t \<Rightarrow> state \<Rightarrow> (addr \<times> state) option" where
  "createShared_sized E n pageSize s =
     (let (a, s) = mmap E n s in
      if a = 0 then Some (0, report ERROR_LEVEL (Rep F_createShared S_mmap) s)
      else if \<not> mapped a (unat n) s then None
      else Some (a, upd_shared (\<lambda>h. h\<lparr>sh_pageSize := pageSize, sh_mmapBlockCount := 0,
             sh_mmapBlockFirst := 0, sh_mmapBlockSize := VGC_MALLOC_MMAP_PAGES * pageSize,
             sh_isMprotectEnabled := True\<rparr>) s))"

definition createShared :: "env \<Rightarrow> size_t \<Rightarrow> state \<Rightarrow> (addr \<times> state) option" where
  "createShared E pageSize s = createShared_sized E sizeof_VGC_shared pageSize s"

definition initialiseMutex :: "env \<Rightarrow> state \<Rightarrow> (bool \<times> state) option" where
  "initialiseMutex E s =
     (let (ok, s) = PTHREAD_mutexattrInit E MShared s in
      if \<not> ok then Some (False, report ERROR_LEVEL (Rep F_initialiseMutex S_mutexattrInit) s)
      else do {
        (ok, s) \<leftarrow> PTHREAD_mutexInit E MShared s;
        if \<not> ok then do {
          let (ok, s) = PTHREAD_mutexattrDestroy E MShared
                          (report ERROR_LEVEL (Rep F_initialiseMutex S_mutexInit) s);
          Some (False, if ok then s else report ERROR_LEVEL (Rep F_initialiseMutex S_mutexattrDestroy) s) }
        else Some (True, s) })"

definition initializeShared_sized :: "env \<Rightarrow> size_t \<Rightarrow> size_t \<Rightarrow> state \<Rightarrow> (addr \<times> bool \<times> state) option" where
  "initializeShared_sized E n pageSize s = do {
     (a, s) \<leftarrow> createShared_sized E n pageSize s;
     if a = 0 then Some (a, False, s)
     else do {
       (ok, s) \<leftarrow> initialiseMutex E s;
       Some (a, ok, s) } }"

definition initializeShared :: "env \<Rightarrow> size_t \<Rightarrow> state \<Rightarrow> (addr \<times> bool \<times> state) option" where
  "initializeShared E pageSize s = initializeShared_sized E sizeof_VGC_shared pageSize s"

section \<open>Unloading\<close>

text \<open>
  Only the first mmap block is dumped as a leak. The multi-process build stops its threads between
  the two halves of \<^verbatim>\<open>mallocCleanup\<close>.
\<close>

definition cleanupLocks :: "env \<Rightarrow> state \<Rightarrow> state option" where
  "cleanupLocks E s = do {
     s \<leftarrow> (let first = sh_mmapBlockFirst (shared (hp s)) in
          if first \<noteq> 0
          then do { mm \<leftarrow> get_mm first s;
                    dumpMmapBlock E first (report INFO_LEVEL (Rep F_mallocCleanup S_leak) s) }
          else Some s);
     let (ok, s) = PTHREAD_mutexattrDestroy E MShared s;
     let s = (if ok then s else report ERROR_LEVEL (Rep F_mallocCleanup S_mutexattrDestroy) s);
     (ok, s) \<leftarrow> PTHREAD_mutexDestroy E MShared s;
     Some (if ok then s else report ERROR_LEVEL (Rep F_mallocCleanup S_mutexDestroy) s) }"

definition unmapShared_sized :: "env \<Rightarrow> size_t \<Rightarrow> addr \<Rightarrow> state \<Rightarrow> state" where
  "unmapShared_sized E n a s =
     (case munmap E a n s of
        (None, s) \<Rightarrow> s
      | (Some e, s) \<Rightarrow> report ERROR_LEVEL (RepErr F_mallocCleanup S_munmap e) s)"

definition unmapShared :: "env \<Rightarrow> addr \<Rightarrow> state \<Rightarrow> state" where
  "unmapShared E a s = unmapShared_sized E sizeof_VGC_shared a s"

definition mallocCleanup :: "env \<Rightarrow> addr \<Rightarrow> state \<Rightarrow> state option" where
  "mallocCleanup E a s =
     (if a = 0 then Some s
      else do { s \<leftarrow> cleanupLocks E s; Some (unmapShared E a s) })"

section \<open>The debugging entry point\<close>

text \<open>The code goes on after a lock it did not get.\<close>

partial_function (option) checkMMAPLoop :: "env \<Rightarrow> addr \<Rightarrow> state \<Rightarrow> state option" where
  "checkMMAPLoop E mmapBlock s =
     (if mmapBlock = 0 then Some s
      else do {
        (ok, s) \<leftarrow> PTHREAD_mutexLock E (MBlock mmapBlock) s;
        let s = (if ok then s else report ERROR_LEVEL (Rep F_vgc_mallocCheckMMAP S_mutexLock) s);
        (sane, s) \<leftarrow> checkMmapBlock E mmapBlock s;
        let s = (if sane then s else report ERROR_LEVEL (Rep F_vgc_mallocCheckMMAP S_memory_problem) s);
        s \<leftarrow> dumpMmapBlock E mmapBlock s;
        s \<leftarrow> unlock_reporting E F_vgc_mallocCheckMMAP (MBlock mmapBlock) s;
        mm \<leftarrow> get_mm mmapBlock s;
        checkMMAPLoop E (mm_next mm) s })"

definition vgc_mallocCheckMMAP :: "env \<Rightarrow> addr \<Rightarrow> state \<Rightarrow> state option" where
  "vgc_mallocCheckMMAP E a s =
     (if a = 0 then Some s
      else do {
        (ok, s) \<leftarrow> PTHREAD_mutexLock E MShared s;
        let s = (if ok then s else report ERROR_LEVEL (Rep F_vgc_mallocCheckMMAP S_mutexLock) s);
        s \<leftarrow> checkMMAPLoop E (sh_mmapBlockFirst (shared (hp s))) s;
        unlock_reporting E F_vgc_mallocCheckMMAP MShared s })"

section \<open>What they establish\<close>

lemma initializeShared_sized_ok:
  assumes E: "reliable E" and "env_mmap E (ticks s) (maps (hp s)) n = a"
    and "a \<noteq> MAP_FAILED" and "a \<noteq> 0"
  shows "\<exists>s'. initializeShared_sized E n 4096 s = Some (a, True, s') \<and> heap_ok s' [] \<and>
     maps (hp s') = (a, n) # maps (hp s)"
proof -
  obtain s1 where s1: "mmap E n s = (a, s1)" "maps (hp s1) = (a, n) # maps (hp s)"
    using assms(2,3) by (simp add: mmap_def Let_def)
  have "mapped a (unat n) s1"
    using mapped_in_region [of a n s1 a "unat n"] s1(2) by simp
  then show ?thesis
    using s1 assms(1,4)
    by (simp add: initializeShared_sized_def createShared_sized_def initialiseMutex_def PTHREAD_mutexattrInit_ok
        PTHREAD_mutexInit_ok heap_ok_def cfg_def upd_shared_def VGC_MALLOC_SYSTEM_PAGE_SIZE_def)
qed

lemma initializeShared_ok:
  assumes E: "reliable E" and "env_mmap E (ticks s) (maps (hp s)) sizeof_VGC_shared = a"
    and "a \<noteq> MAP_FAILED" and "a \<noteq> 0"
  shows "\<exists>s'. initializeShared E 4096 s = Some (a, True, s') \<and> heap_ok s' [] \<and>
     maps (hp s') = (a, sizeof_VGC_shared) # maps (hp s)"
  using initializeShared_sized_ok [OF assms] by (simp add: initializeShared_def)

lemma unat_MAP_FAILED: "unat MAP_FAILED = 18446744073709551615"
  by (simp add: unsigned_minus_1_eq_mask mask_eq_exp_minus_1)

lemma createShared_unmapped:
  assumes "env_mmap E (ticks s) (maps (hp s)) sizeof_VGC_shared = MAP_FAILED"
    and "\<forall>r \<in> set (maps (hp s)). unat (fst r) + unat (snd r) \<le> 2 ^ 47"
  shows "createShared E pageSize s = None"
proof -
  have "\<not> mapped MAP_FAILED 96 t" if "maps (hp t) = maps (hp s)" for t
    using assms(2) that
    by (fastforce simp: mapped_def list_ex_iff in_region_def unat_MAP_FAILED)
  with assms(1) show ?thesis by (simp add: createShared_def createShared_sized_def mmap_def Let_def)
qed

text \<open>On a well formed state the debugging entry point returns, and changes nothing but messages.\<close>

lemma relock_block:
  assumes E: "reliable E" and "mtx s (MBlock a) = free_mutex"
  shows "PTHREAD_mutexLock E (MBlock a) s = Some (True, s\<lparr>ticks := Suc (ticks s),
     mtx := (mtx s)(MBlock a := held_mutex (self s))\<rparr>)"
  using assms by (simp add: PTHREAD_mutexLock_free held_mutex_def)

lemma checkMMAPLoop_ok:
  assumes E: "reliable E" and "cfg s" and "chain s p cs 0"
  shows "\<exists>s'. checkMMAPLoop E (first_chunk cs 0) s = Some s' \<and> quiet s s'"
  using assms(2-)
proof (induction cs arbitrary: p s)
  case Nil
  then show ?case by (simp add: checkMMAPLoop.simps)
next
  case (Cons c cs)
  have ok: "chunk_ok s p (first_chunk cs 0) c" using Cons.prems by simp
  then have mem: "chunk_mem (hp s) p (first_chunk cs 0) c" and lk: "mtx s (MBlock (c_addr c)) = free_mutex"
    by (simp_all add: chunk_ok_def)
  note m = chunk_memD [OF mem]
  define s1 where "s1 = s\<lparr>ticks := Suc (ticks s),
     mtx := (mtx s)(MBlock (c_addr c) := held_mutex (self s))\<rparr>"
  have hp1: "hp s1 = hp s" by (simp add: s1_def)
  have cfg1: "cfg s1" using Cons.prems(1) by (simp add: cfg_def hp1)
  have "mmapH (hp s1) (c_addr c) = Some ((chunk_hdr p (first_chunk cs 0) c)\<lparr>mm_elements := of_nat (busy (c_blks c))\<rparr>)"
    using m(2) by (simp add: hp1 chunk_hdr_def)
  moreover have "seg (hp s1) (c_addr c) 0 (c_blks c) 0" using m(3) by (simp add: hp1)
  ultimately obtain ms where ms: "checkMmapBlock E (c_addr c) s1 = Some (True, s1\<lparr>msgs := ms\<rparr>)"
    using checkMmapBlock_ok(1) [OF E m(1) _ _ cfg1] by blast
  obtain ms' where ms': "dumpMmapBlock E (c_addr c) (s1\<lparr>msgs := ms\<rparr>) = Some (s1\<lparr>msgs := ms'\<rparr>)"
    using dumpMmapBlock_ok [OF E m(1), of "s1\<lparr>msgs := ms\<rparr>"] m(3) hp1 by auto
  define s2 where "s2 = s1\<lparr>msgs := ms', ticks := Suc (ticks s1), mtx := mtx s\<rparr>"
  have "unlock_reporting E F_vgc_mallocCheckMMAP (MBlock (c_addr c)) (s1\<lparr>msgs := ms'\<rparr>) = Some s2"
    using E lk by (simp add: unlock_reporting_ok s2_def s1_def held_mutex_def fun_upd_idem)
  moreover have q: "quiet s s2" by (simp add: quiet_def s2_def s1_def)
  moreover have "get_mm (c_addr c) s2 = Some (chunk_hdr p (first_chunk cs 0) c)"
    using m(2) by (simp add: get_mm_def s2_def hp1)
  ultimately have step: "checkMMAPLoop E (first_chunk (c # cs) 0) s = checkMMAPLoop E (first_chunk cs 0) s2"
    using relock_block [OF E lk] ms ms' chunk_shapeD(1) [OF m(1)]
    by (subst checkMMAPLoop.simps) (simp add: s1_def [symmetric] chunk_hdr_def)
  have "cfg s2" "chain s2 (c_addr c) cs 0"
    using Cons.prems q quiet_chain [OF q] by (simp_all add: cfg_def quiet_def)
  with Cons.IH step q show ?case by (metis quiet_trans)
qed

lemma vgc_mallocCheckMMAP_ok:
  assumes E: "reliable E" and heap_ok: "heap_ok s cs" and "a \<noteq> 0"
  shows "\<exists>s'. vgc_mallocCheckMMAP E a s = Some s' \<and> heap_ok s' cs \<and> hp s' = hp s"
proof -
  obtain s1 where s1: "PTHREAD_mutexLock E MShared s = Some (True, s1)" "wf_held s1 cs" "hp s1 = hp s"
    using lock_shared [OF E heap_ok] by blast
  obtain s2 where s2: "checkMMAPLoop E (first_chunk cs 0) s1 = Some s2" "quiet s1 s2"
    using checkMMAPLoop_ok [OF E wf_heldD(1,3) [OF s1(2)]] by blast
  obtain s3 where "unlock_reporting E F_vgc_mallocCheckMMAP MShared s2 = Some s3" "heap_ok s3 cs" "hp s3 = hp s2"
    using unlock_shared [OF E wf_held_quiet [OF s1(2) s2(2)]] by blast
  then show ?thesis
    using s1 s2 wf_heldD(2) [OF s1(2)] assms(3) by (simp add: vgc_mallocCheckMMAP_def quiet_def)
qed

end
