(* ===== verification/Live.thy ===== *)
theory Live
  imports Startup
begin

text \<open>
  The contract of the allocator seen from its caller: which bytes belong to whom. The bytes
  of a block that is handed out are apart from those of every other such block, they are
  mapped and accessible, and a pair of \<^verbatim>\<open>vgc_malloc\<close> and \<^verbatim>\<open>vgc_free\<close> restores the blocks.
\<close>

section \<open>Areas\<close>

definition area :: "blk \<Rightarrow> nat set" where
  "area b = {unat (b_addr b) + 8192 ..< unat (b_addr b) + 8192 + unat (b_size b)}"

definition user_area :: "addr \<Rightarrow> size_t \<Rightarrow> nat set" where
  "user_area p sz = {unat p ..< unat p + unat sz}"

definition live :: "chunk list \<Rightarrow> blk list" where
  "live cs = filter (\<lambda>b. \<not> is_free b) (concat (map c_blks cs))"

lemma live_iff: "b \<in> set (live cs) \<longleftrightarrow> (\<exists>c \<in> set cs. b \<in> set (c_blks c) \<and> \<not> is_free b)"
  by (auto simp: live_def)

lemma area_in_chunk:
  assumes "chunk_shape c" and "b \<in> set (c_blks c)" and "x \<in> area b"
  shows "unat (c_addr c) \<le> x" "x < unat (c_addr c) + unat (c_size c)"
  using in_chunk(1,2) [OF assms(1,2)] assms(3) by (auto simp: area_def)

lemma areas_apart_chunks:
  assumes "apart c d" and "chunk_shape c" and "chunk_shape d"
    and "b \<in> set (c_blks c)" and "b' \<in> set (c_blks d)"
  shows "area b \<inter> area b' = {}"
  using assms area_in_chunk [OF assms(2,4)] area_in_chunk [OF assms(3,5)]
  by (fastforce simp: apart_def disjoint_regions_def)

lemma areas_apart_blocks:
  assumes "layout a (xs @ b # ys) e" and "d \<in> set xs \<union> set ys"
  shows "area b \<inter> area d = {}"
  using assms layout_before [OF assms(1), of d] layout_after [OF assms(1), of d]
  by (auto simp: area_def)

text \<open>No byte of a block lies in a guard page.\<close>

lemma area_no_guard:
  assumes mem: "chunk_mem h p n c" and b: "b \<in> set (c_blks c)" and x: "unat x \<in> area b"
  shows "\<not> prot h x"
proof
  assume px: "prot h x"
  note m = chunk_memD [OF mem]
  have "in_range (c_addr c) (c_size c) x"
    using area_in_chunk [OF m(1) b x] by (simp add: in_range_def)
  then obtain d where d: "d \<in> set (c_blks c)" "in_range (b_addr d) 4096 x"
    using m(5) px by (auto simp: guards_only_def)
  have "d \<noteq> b" using d(2) x by (auto simp: in_range_def area_def)
  obtain xs ys where bs: "c_blks c = xs @ b # ys" using b by (auto simp: in_set_conv_decomp)
  have lay: "layout (unat (c_addr c) + 4096) (xs @ b # ys) (unat (c_addr c) + unat (c_size c))"
    using chunk_shapeD(6) [OF m(1)] bs by simp
  have "d \<in> set xs \<or> d \<in> set ys" using d(1) \<open>d \<noteq> b\<close> bs by auto
  then show False
    using layout_before [OF lay, of d] layout_after [OF lay, of d] d(2) x
    by (auto simp: in_range_def area_def)
qed

lemma area_accessible:
  assumes mem: "chunk_mem (hp s) p n c" and b: "b \<in> set (c_blks c)"
    and sub: "user_area ptr sz \<subseteq> area b" and "sz \<noteq> 0"
  shows "access_ok ptr (unat sz) s"
proof -
  note m = chunk_memD [OF mem] and sh = chunk_shapeD [OF chunk_memD(1) [OF mem]]
  have sz: "0 < unat sz" using \<open>sz \<noteq> 0\<close> by (simp add: unat_gt_0)
  then have ends: "unat ptr \<in> area b" "unat ptr + unat sz - 1 \<in> area b"
    using sub by (auto simp: user_area_def)
  then have lo: "unat (c_addr c) \<le> unat ptr" "unat ptr + unat sz \<le> unat (c_addr c) + unat (c_size c)"
    using area_in_chunk [OF m(1) b] sz by fastforce+
  then have "mapped ptr (unat sz) s"
    using mapped_in_region [OF m(4)] by blast
  moreover have "\<not> prot (hp s) (ptr + of_nat i)" if "i < unat sz" for i
  proof -
    have "unat ptr + i < 18446744073709551616" using that lo sh(3) by simp
    then have "unat (ptr + of_nat i) = unat ptr + i"
      by (simp add: unat_add_ok unat_of_nat_ok)
    then have "unat (ptr + of_nat i) \<in> area b"
      using sub that by (auto simp: user_area_def)
    then show ?thesis using area_no_guard [OF mem b] by blast
  qed
  ultimately show ?thesis by (simp add: access_ok_def list_all_iff)
qed

text \<open>A block is known by its address.\<close>

lemma block_unique:
  assumes "chunk_shape c" and "chunk_shape d" and "c = d \<or> apart c d"
    and "b \<in> set (c_blks c)" and "b' \<in> set (c_blks d)" and "b_addr b = b_addr b'"
  shows "b = b'"
proof (cases "c = d")
  case True
  have "distinct (map b_addr (c_blks c))" using layout_distinct [OF chunk_shapeD(6) [OF assms(1)]] .
  then show ?thesis using True assms(4-6) by (metis distinct_map inj_on_def)
next
  case False
  then show ?thesis
    using assms(3,6) in_chunk(3) [OF assms(1,4)] in_chunk(3) [OF assms(2,5)] apart_in_range [of c d] by metis
qed

section \<open>What vgc_malloc hands out\<close>

text \<open>
  \<open>taken\<close>: the result is a pointer into block \<open>b\<close> of chunk \<open>c\<close>, which was free before or came
  with a new chunk.
\<close>

lemma malloc_spec_taken:
  assumes "malloc_spec sz new cs = (p, cs')" and "p \<noteq> 0"
  obtains us c vs xs b ys where "c_blks c = xs @ b # ys" "fits sz b" "p = user_memory sz (b_addr b)"
    "cs' = us @ with_blks c (xs @ carve (page_round 4096 sz) b @ ys) # vs" "\<not> max_request cs \<le> sz" "sz \<noteq> 0"
    "cs = us @ c # vs \<or> new = Some c \<and> us = cs \<and> vs = []"
proof -
  have sz: "sz \<noteq> 0" "\<not> max_request cs \<le> sz"
    using assms by (auto simp: malloc_spec_def split: if_splits)
  show thesis
  proof (cases "alloc_chunks sz cs")
    case (Some r)
    then have al: "alloc_chunks sz cs = Some (fst r, cs')" "p = user_memory sz (fst r)"
      using assms(1) sz by (cases r; simp add: malloc_spec_def)+
    from al(1) al(2) sz show thesis
      by (elim alloc_chunks_SomeE) (auto intro: that)
  next
    case None
    then obtain c where c: "new = Some c" using assms sz by (auto simp: malloc_spec_def split: option.splits)
    then obtain a ds where al: "alloc_chunks sz [c] = Some (a, ds)" "p = user_memory sz a" "cs' = cs @ ds"
      using assms sz None by (auto simp del: alloc_chunks.simps simp: malloc_spec_def split: option.splits)
    from al(1) obtain us d vs xs b ys where "[c] = us @ d # vs" "c_blks d = xs @ b # ys" "fits sz b"
      "a = b_addr b" "ds = us @ with_blks d (xs @ carve (page_round 4096 sz) b @ ys) # vs"
      by (rule alloc_chunks_SomeE)
    moreover from this(1) have "us = []" "d = c" "vs = []" by (cases us; auto)+
    ultimately show thesis using al c sz by (intro that [of c xs b ys cs "[]"]) auto
  qed
qed

lemma user_area_in_sized:
  assumes shape: "chunk_shape c" and b: "b \<in> set (c_blks c)" and le: "unat sz \<le> unat (b_size b)"
    and off: "unat sz mod 4096 \<noteq> 0"
  shows "user_area (user_memory sz (b_addr b)) sz \<subseteq>
      {unat (b_addr b) + 8192 ..< unat (b_addr b) + 8192 + unat (page_round 4096 sz)}"
    "unat (user_memory sz (b_addr b)) + unat sz = unat (b_addr b) + 8192 + unat (page_round 4096 sz)"
    "unat (page_round 4096 sz) \<le> unat (b_size b)" "points_to (user_memory sz (b_addr b)) b"
proof -
  have dvd: "4096 dvd unat (b_size b)" using in_chunk(5) [OF shape b] .
  note pr = page_round_le [OF le dvd unat_lt64]
  note um = user_memory_unat(1) [OF shape b, of sz]
  obtain q r where qr: "unat sz = q * 4096 + r" "r < 4096" "unat sz div 4096 = q"
    "unat sz mod 4096 = r" by (rule div_mod_4096)
  have L: "unat (page_round 4096 sz) = (q + 1) * 4096"
    using page_round_unat [OF pr(2)] off qr by simp
  show "unat (page_round 4096 sz) \<le> unat (b_size b)" by (rule pr(1))
  show end_eq: "unat (user_memory sz (b_addr b)) + unat sz = unat (b_addr b) + 8192 + unat (page_round 4096 sz)"
    using um qr L by simp
  show "user_area (user_memory sz (b_addr b)) sz \<subseteq>
      {unat (b_addr b) + 8192 ..< unat (b_addr b) + 8192 + unat (page_round 4096 sz)}"
    using end_eq um by (auto simp: user_area_def)
  show "points_to (user_memory sz (b_addr b)) b"
  proof -
    have "unat (user_memory sz (b_addr b)) + r = unat (b_addr b) + 12288" using um qr(2,4) by simp
    moreover have "0 < r" using off qr(4) by simp
    moreover have "4096 \<le> unat (b_size b)" using pr(1) L by simp
    ultimately show ?thesis using qr(2) unfolding points_to_def by linarith
  qed
qed

lemma fits_size: "fits sz b \<Longrightarrow> unat sz \<le> unat (b_size b)"
  by (simp add: fits_def word_le_nat_alt)

lemma user_area_in_block:
  assumes "chunk_shape c" and "b \<in> set (c_blks c)" and "fits sz b" and "unat sz mod 4096 \<noteq> 0"
  shows "user_area (user_memory sz (b_addr b)) sz \<subseteq>
      {unat (b_addr b) + 8192 ..< unat (b_addr b) + 8192 + unat (page_round 4096 sz)}"
    "unat (user_memory sz (b_addr b)) + unat sz = unat (b_addr b) + 8192 + unat (page_round 4096 sz)"
    "unat (page_round 4096 sz) \<le> unat (b_size b)" "points_to (user_memory sz (b_addr b)) b"
  using user_area_in_sized [OF assms(1,2) fits_size [OF assms(3)] assms(4)] .

lemma carve_head:
  "\<exists>rest. carve len b = b\<lparr>b_size := (if len + sizeof_mallocHeader < b_size b then len else b_size b),
     b_status := VGC_MALLOC_BUSY\<rparr> # rest"
  by (simp add: carve_def)

lemma carve_head_area:
  assumes "unat len \<le> unat (b_size b)"
  shows "{unat (b_addr b) + 8192 ..< unat (b_addr b) + 8192 + unat len} \<subseteq> area (hd (carve len b))"
    "area (hd (carve len b)) \<subseteq> area b"
  using assms by (auto simp: carve_def area_def word_less_nat_alt)

text \<open>The guard page behind the block is that of the block the pointer is in.\<close>

lemma handed_pool_guard:
  assumes last: "guarded_end cs sz p s'" and p: "p = user_memory sz (b_addr b)"
    and shapes: "\<forall>d \<in> set cs. chunk_shape d \<and> (d = c \<or> apart d c)" and shape: "chunk_shape c"
    and b: "b \<in> set (c_blks c)" and rest: "page_round 4096 sz + sizeof_mallocHeader < b_size b"
  shows "\<forall>x. in_range (b_addr b + (page_round 4096 sz + sizeof_mallocHeader)) 4096 x \<longrightarrow> prot (hp s') x"
proof -
  obtain d b2 where d: "d \<in> set cs" "b2 \<in> set (c_blks d)" "p = user_memory sz (b_addr b2)"
    "page_round 4096 sz + sizeof_mallocHeader < b_size b2 \<longrightarrow>
      (\<forall>x. in_range (b_addr b2 + (page_round 4096 sz + sizeof_mallocHeader)) 4096 x \<longrightarrow> prot (hp s') x)"
    using last by (auto simp: guarded_end_def)
  have "b_addr b2 = b_addr b" using d(3) p by (simp add: user_memory_def)
  then have "b2 = b" using block_unique [OF _ shape _ d(2) b] shapes d(1) by blast
  then show ?thesis using d(4) rest by simp
qed

text \<open>The chunks of the pool are well formed, and apart from the one the block came from.\<close>

lemma pool_apart:
  assumes ok: "heap_ok s cs" and new: "is_fresh new" "\<forall>c. new = Some c \<longrightarrow> (\<forall>d \<in> set cs. apart c d)"
    and c: "cs = us @ c # vs \<or> new = Some c"
  shows "\<forall>d \<in> set (pool new cs). chunk_shape d \<and> (d = c \<or> apart d c)" "chunk_shape c"
proof -
  have sh: "chunk_shape d" if "d \<in> set (pool new cs)" for d
    using that chain_shape [OF heap_okD(4) [OF ok]] new(1)
    by (auto simp: pool_def is_fresh_def split: option.splits)
  have ap: "d = c \<or> apart d c" if d: "d \<in> set (pool new cs)" for d
  proof (cases "d \<in> set cs")
    case True
    then have "apart d c \<or> d = c" if "cs = us @ c # vs"
      using that apart_others [of us c vs d] heap_okD(5) [OF ok] by (auto intro: apart_sym)
    then show ?thesis using True c new(2) by (auto intro: apart_sym)
  next
    case False
    then have "new = Some d" using d by (auto simp: pool_def split: option.splits)
    then show ?thesis using c new(2) by auto
  qed
  show "\<forall>d \<in> set (pool new cs). chunk_shape d \<and> (d = c \<or> apart d c)" using sh ap by blast
  show "chunk_shape c" using c sh by (auto simp: pool_def)
qed

text \<open>
  The facts about one successful call: where the block was, and that it is live and as large
  as asked for afterwards.
\<close>

lemma vgc_malloc_handed:
  assumes E: "reliable E" and mm: "mmap_ok E" and ok: "heap_ok s cs" and ne: "cs \<noteq> []"
    and run: "vgc_malloc E sz s = Some (p, s')" and p: "p \<noteq> 0"
  obtains us c vs xs b ys where "sz \<noteq> 0" "c_blks c = xs @ b # ys" "chunk_shape c" "fits sz b"
    "p = user_memory sz (b_addr b)"
    "heap_ok s' (us @ with_blks c (xs @ carve (page_round 4096 sz) b @ ys) # vs)"
    "cs = us @ c # vs \<or> (\<forall>d \<in> set cs. apart c d) \<and> us = cs \<and> vs = [] \<and> tl (c_blks c) = []"
    "bytes_kept cs s s'"
    "page_round 4096 sz + sizeof_mallocHeader < b_size b \<Longrightarrow>
      \<forall>x. in_range (b_addr b + (page_round 4096 sz + sizeof_mallocHeader)) 4096 x \<longrightarrow> prot (hp s') x"
    "guards_kept cs s s'"
proof -
  obtain new t where *: "vgc_malloc E sz s = Some (fst (malloc_spec sz new cs), t)"
    "heap_ok t (snd (malloc_spec sz new cs))" "is_fresh new" "bytes_kept cs s t"
    "\<forall>c. new = Some c \<longrightarrow> (\<forall>d \<in> set cs. apart c d)"
    "fst (malloc_spec sz new cs) \<noteq> 0 \<longrightarrow> guarded_end (pool new cs) sz (fst (malloc_spec sz new cs)) t" "guards_kept cs s t"
    using vgc_malloc_all [OF E mm ok ne] by blast
  have "p = fst (malloc_spec sz new cs)" "s' = t" using *(1) run by simp_all
  then have new: "malloc_spec sz new cs = (p, snd (malloc_spec sz new cs))"
    "heap_ok s' (snd (malloc_spec sz new cs))" "guarded_end (pool new cs) sz p s'" "bytes_kept cs s s'"
    "guards_kept cs s s'"
    using * p by simp_all
  show thesis
  proof (rule malloc_spec_taken [OF new(1) p])
    fix us c vs xs b ys
    assume c: "c_blks c = xs @ b # ys" "fits sz b" "p = user_memory sz (b_addr b)"
      "snd (malloc_spec sz new cs) = us @ with_blks c (xs @ carve (page_round 4096 sz) b @ ys) # vs" "sz \<noteq> 0"
      "cs = us @ c # vs \<or> new = Some c \<and> us = cs \<and> vs = []"
    have "cs = us @ c # vs \<or> new = Some c" using c(6) by blast
    note pool = pool_apart [OF ok *(3,5) this]
    have "tl (c_blks c) = []" if "new = Some c"
      using *(3) that by (auto simp: is_fresh_def fresh_chunk_def)
    then show thesis
      using that [of c xs b ys us vs] c pool(2) new(2,4,5) handed_pool_guard [OF new(3) c(3) pool] *(5) by auto
  qed
qed

section \<open>The bytes of the caller\<close>

text \<open>
  The bytes handed out can all be accessed, and none of them belongs to a block that was live
  before.
\<close>

lemma handed_region:
  assumes E: "reliable E" and mm: "mmap_ok E" and ok: "heap_ok s cs" and ne: "cs \<noteq> []"
    and run: "vgc_malloc E sz s = Some (p, s')" and p: "p \<noteq> 0" and off: "unat sz mod 4096 \<noteq> 0"
  shows "access_ok p (unat sz) s'" "\<forall>d \<in> set (live cs). user_area p sz \<inter> area d = {}"
proof -
  obtain us c vs xs b ys where h: "c_blks c = xs @ b # ys" "chunk_shape c" "fits sz b"
    "p = user_memory sz (b_addr b)"
    "heap_ok s' (us @ with_blks c (xs @ carve (page_round 4096 sz) b @ ys) # vs)"
    "cs = us @ c # vs \<or> (\<forall>d \<in> set cs. apart c d) \<and> us = cs \<and> vs = [] \<and> tl (c_blks c) = []"
    using vgc_malloc_handed [OF E mm ok ne run p] by metis
  let ?c = "with_blks c (xs @ carve (page_round 4096 sz) b @ ys)" and ?h = "hd (carve (page_round 4096 sz) b)"
  have b: "b \<in> set (c_blks c)" using h(1) by simp
  note ua = user_area_in_block [OF h(2) b h(3) off]
  have handed: "user_area p sz \<subseteq> area ?h"
    using ua(1) carve_head_area(1) [OF ua(3)] h(4) by blast
  then have sub: "user_area p sz \<subseteq> area b"
    using carve_head_area(2) [OF ua(3)] by blast
  have "?h \<in> set (c_blks ?c)" using carve_head [of "page_round 4096 sz" b] by auto
  moreover have "sz \<noteq> 0" using off by auto
  ultimately show "access_ok p (unat sz) s'"
    using area_accessible [OF wf_split(3) [OF h(5)] _ handed] by blast
  show "\<forall>d \<in> set (live cs). user_area p sz \<inter> area d = {}"
  proof
    fix d assume "d \<in> set (live cs)"
    then obtain e where e: "e \<in> set cs" "d \<in> set (c_blks e)" "\<not> is_free d" by (auto simp: live_iff)
    have "area b \<inter> area d = {}"
    proof (cases "e = c")
      case True
      have "d \<noteq> b" using e(3) h(3) by (auto simp: fits_def)
      then have "d \<in> set xs \<union> set ys" using e(2) True h(1) by auto
      then show ?thesis
        using areas_apart_blocks chunk_shapeD(6) [OF h(2)] h(1) by metis
    next
      case False
      then have "apart c e"
        using h(6) e(1) apart_others [of us c vs e] heap_okD(5) [OF ok] by auto
      then show ?thesis
        using areas_apart_chunks [OF _ h(2) chain_shape [OF heap_okD(4) [OF ok] e(1)] b e(2)] by simp
    qed
    then show "user_area p sz \<inter> area d = {}" using sub by blast
  qed
qed

text \<open>
  The block the pointer is in, in the heap after the call: \<open>h\<close>, in use, with the blocks \<open>ys\<close> behind it in
  its chunk. When the first of them is free it is what was left of the block that was found, and its
  first page is closed; otherwise nothing was left, and the block is at most two pages too large.
\<close>

definition handed :: "chunk list \<Rightarrow> addr \<times> size_t \<Rightarrow> blk \<Rightarrow> blk list \<Rightarrow> bool" where
  "handed cs x h ys \<longleftrightarrow> (\<exists>c \<in> set cs. \<exists>xs. c_blks c = xs @ h # ys) \<and> \<not> is_free h \<and>
     fst x = user_memory (snd x) (b_addr h) \<and> unat (snd x) \<le> unat (b_size h)"

lemma handed_split:
  assumes shape: "chunk_shape c" and bs: "c_blks c = xs @ b # ys" and free: "is_free b" and h: "carve len b = h # t"
  shows "if t @ ys \<noteq> [] \<and> is_free (hd (t @ ys))
    then h = b\<lparr>b_size := len, b_status := VGC_MALLOC_BUSY\<rparr> \<and> len + sizeof_mallocHeader < b_size b \<and>
      b_addr (hd (t @ ys)) = b_addr b + (len + sizeof_mallocHeader)
    else h = b\<lparr>b_status := VGC_MALLOC_BUSY\<rparr> \<and> b_size b \<le> len + sizeof_mallocHeader"
proof (cases "len + sizeof_mallocHeader < b_size b")
  case True
  then show ?thesis using h by (auto simp: carve_def add.assoc)
next
  case False
  have "ys = [] \<or> \<not> is_free (hd ys)"
    using chunk_shapeD(8) [OF shape] bs free by (auto simp: coalesced_append coalesced_Cons)
  then show ?thesis using h False by (auto simp: carve_def)
qed

lemma vgc_malloc_handed_in:
  assumes E: "reliable E" and mm: "mmap_ok E" and ok: "heap_ok s cs" and ne: "cs \<noteq> []"
    and run: "vgc_malloc E sz s = Some (p, s')" and p: "p \<noteq> 0"
  obtains cs' h ys where "sz \<noteq> 0" "heap_ok s' cs'" "handed cs' (p, sz) h ys"
    "if ys \<noteq> [] \<and> is_free (hd ys)
     then b_size h = page_round 4096 sz \<and> b_addr (hd ys) = b_addr h + (page_round 4096 sz + sizeof_mallocHeader) \<and>
       (\<forall>x. in_range (b_addr (hd ys)) 4096 x \<longrightarrow> prot (hp s') x)
     else b_size h \<le> page_round 4096 sz + sizeof_mallocHeader"
proof -
  let ?L = "page_round 4096 sz"
  obtain us c vs xs b ys where h: "sz \<noteq> 0" "c_blks c = xs @ b # ys" "chunk_shape c" "fits sz b"
    "p = user_memory sz (b_addr b)"
    "heap_ok s' (us @ with_blks c (xs @ carve ?L b @ ys) # vs)"
    "?L + sizeof_mallocHeader < b_size b \<Longrightarrow>
      \<forall>x. in_range (b_addr b + (?L + sizeof_mallocHeader)) 4096 x \<longrightarrow> prot (hp s') x"
    using vgc_malloc_handed [OF E mm ok ne run p] by metis
  have free: "is_free b" using h(4) by (simp add: fits_def)
  obtain hh t where ht: "carve ?L b = hh # t" "\<not> is_free hh" "b_addr hh = b_addr b"
    by (cases "?L + sizeof_mallocHeader < b_size b") (auto simp: carve_def)
  note sp = handed_split [OF h(3,2) free ht(1)]
  have "b \<in> set (c_blks c)" using h(2) by simp
  then have "unat sz \<le> unat ?L"
    using page_round_bounds page_round_le(2) [OF fits_size [OF h(4)] in_chunk(5) [OF h(3)] unat_lt64] by blast
  then have size: "unat sz \<le> unat (b_size hh)"
    using sp fits_size [OF h(4)] by (auto split: if_splits)
  let ?c = "with_blks c (xs @ carve ?L b @ ys)"
  have "c_blks ?c = xs @ hh # (t @ ys)" "?c \<in> set (us @ ?c # vs)" using ht(1) by simp_all
  moreover have "if t @ ys \<noteq> [] \<and> is_free (hd (t @ ys))
     then b_size hh = ?L \<and> b_addr (hd (t @ ys)) = b_addr hh + (?L + sizeof_mallocHeader) \<and>
       (\<forall>x. in_range (b_addr (hd (t @ ys))) 4096 x \<longrightarrow> prot (hp s') x)
     else b_size hh \<le> ?L + sizeof_mallocHeader"
    using sp h(7) by (simp split: if_splits)
  moreover have "handed (us @ ?c # vs) (p, sz) hh (t @ ys)"
    using calculation(1,2) ht(2,3) h(5) size by (auto simp: handed_def)
  ultimately show thesis using that h(1,6) by metis
qed

section \<open>A round trip\<close>

lemma release_carve:
  assumes co: "coalesced (xs @ b # ys)" and free: "is_free b"
  obtains h t where "carve len b = h # t" "\<not> is_free h" "b_addr h = b_addr b"
    "release xs h (t @ ys) = xs @ b # ys"
proof (cases "len + sizeof_mallocHeader < b_size b")
  case True
  have "xs = [] \<or> \<not> is_free (last xs)" using co free by (auto simp: coalesced_append)
  then show thesis
    using True free that [of "b\<lparr>b_size := len, b_status := VGC_MALLOC_BUSY\<rparr>"]
    by (cases b) (auto simp: carve_def release_def unify_prev_def)
next
  case False
  have "xs = [] \<or> \<not> is_free (last xs)" "ys = [] \<or> \<not> is_free (hd ys)"
    using co free by (auto simp: coalesced_append coalesced_Cons)
  then show thesis
    using False free that [of "b\<lparr>b_status := VGC_MALLOC_BUSY\<rparr>" "[]"]
    by (cases b; cases ys) (auto simp: carve_def release_def unify_prev_def)
qed

lemma with_same_blks: "with_blks c (c_blks c) = c"
  by simp

lemma malloc_free:
  assumes E: "reliable E" and mm: "mmap_ok E" and ok: "heap_ok s cs" and ne: "cs \<noteq> []"
    and some_used: "\<forall>c \<in> set cs. tl (c_blks c) \<noteq> []"
    and run: "vgc_malloc E sz s = Some (p, s')" and p: "p \<noteq> 0" and off: "unat sz mod 4096 \<noteq> 0"
  shows "\<exists>s''. vgc_free E p s' = Some s'' \<and> heap_ok s'' cs"
proof -
  let ?L = "page_round 4096 sz"
  obtain us c vs xs b ys where h: "c_blks c = xs @ b # ys" "chunk_shape c" "fits sz b"
    "p = user_memory sz (b_addr b)"
    "heap_ok s' (us @ with_blks c (xs @ carve ?L b @ ys) # vs)"
    "cs = us @ c # vs \<or> (\<forall>d \<in> set cs. apart c d) \<and> us = cs \<and> vs = [] \<and> tl (c_blks c) = []"
    using vgc_malloc_handed [OF E mm ok ne run p] by metis
  have b: "b \<in> set (c_blks c)" using h(1) by simp
  have pb: "points_to p b" using user_area_in_block(4) [OF h(2) b h(3) off] h(4) by simp
  have "coalesced (xs @ b # ys)" using chunk_shapeD(8) [OF h(2)] h(1) by simp
  moreover have "is_free b" using h(3) by (simp add: fits_def)
  ultimately obtain hh t where ht: "carve ?L b = hh # t" "\<not> is_free hh" "b_addr hh = b_addr b"
    "release xs hh (t @ ys) = xs @ b # ys" by (rule release_carve)
  have c': "c_blks (with_blks c (xs @ carve ?L b @ ys)) = xs @ hh # (t @ ys)" using ht(1) by simp
  have "4096 \<le> unat (b_size hh)"
  proof -
    have "unat sz \<le> unat ?L" "4096 dvd unat ?L"
      using page_round_bounds page_round_le(2) [of sz "unat (b_size b)"] in_chunk(5) [OF h(2) b] h(3)
      by (auto simp: fits_def word_le_nat_alt)
    then have "4096 \<le> unat ?L" using off by (intro dvd_imp_le) auto
    moreover have "hh = hd (carve ?L b)" using ht(1) by simp
    ultimately show ?thesis using pb by (simp add: carve_def points_to_def)
  qed
  then have pt: "points_to p hh" using pb ht(3) by (simp add: points_to_def)
  have same: "with_blks c (xs @ b # ys) = c" using h(1) with_same_blks by metis
  show ?thesis
  proof (cases "cs = us @ c # vs")
    case True
    then have "tl (release xs hh (t @ ys)) \<noteq> []" using some_used ht(4) h(1) by auto
    then show ?thesis
      using vgc_free_keep [OF E h(5) c' ht(2) pt] ht(4) True same by auto
  next
    case False
    then have new: "us = cs" "vs = []" "tl (c_blks c) = []" using h(6) by auto
    then have "tl (release xs hh (t @ ys)) = []" using ht(4) h(1) by simp
    then show ?thesis
      using vgc_free_gone [OF E h(5) c' ht(2) pt] new ne wf_at_wf by auto
  qed
qed

end
