(* ===== verification/Locks.thy ===== *)
theory Locks
  imports Pthread
begin

text \<open>
  What the mutex wrappers promise to the threads that use them, for every behaviour of the
  environment: a state machine in which threads lock, unlock and die, with mutual exclusion
  proved by rule induction; and the recovery of a mutex whose owner died.
\<close>

section \<open>One call\<close>

lemma mutexConsistent_True:
  assumes "PTHREAD_mutexConsistent E i s = Some (True, s')"
  shows "pm_lock (mtx s i) = Inconsistent (self s) \<and> pm_lock (mtx s' i) = Locked (self s)"
  using assms
  by (auto simp: PTHREAD_mutexConsistent_def mutex_call_def sys_def failed_def
      split: option.splits Option.bind_splits prod.splits lockstate.splits if_splits)

lemma mutexConsistent_False:
  assumes "PTHREAD_mutexConsistent E i s = Some (False, s')"
  shows "mtx s' = mtx s"
  using assms
  by (auto simp: PTHREAD_mutexConsistent_def mutex_call_def sys_def failed_def report_def fun_upd_idem
      split: option.splits Option.bind_splits prod.splits lockstate.splits if_splits)

lemma mutexDestroy_held:
  assumes "PTHREAD_mutexDestroy E i s = Some (b, s')" and "pm_lock (mtx s i) = Locked t"
  shows "mtx s' = mtx s"
  using assms
  by (auto simp: PTHREAD_mutexDestroy_def mutex_call_def sys_def failed_def report_def fun_upd_idem
      split: option.splits Option.bind_splits prod.splits if_splits)

text \<open>A lock call that returns true found the mutex without owner and leaves the caller its owner.\<close>

lemma mutexLock_True:
  assumes "PTHREAD_mutexLock E i s = Some (True, s')"
  shows "pm_lock (mtx s' i) = Locked (self s)" "pm_lock (mtx s i) \<noteq> Locked t"
proof -
  obtain rc s1 where c: "mutex_call E (pthread_mutex_lock (self s)) i s = Some (rc, s1)"
    and k: "case rc of None \<Rightarrow> s1 = s' | Some e \<Rightarrow> e = EOWNERDEAD \<and> PTHREAD_mutexConsistent E i
        (report ERROR_LEVEL (PthreadRep PC_mutex_lock (Some EOWNERDEAD)) s1) = Some (True, s')"
    using assms by (auto simp: PTHREAD_mutexLock_def failed_def
      split: Option.bind_splits option.splits prod.splits if_splits)
  show "pm_lock (mtx s' i) = Locked (self s)" "pm_lock (mtx s i) \<noteq> Locked t"
    using c k
    by (auto simp: mutex_call_def sys_def held_by_def dest!: mutexConsistent_True
        split: option.splits Option.bind_splits prod.splits lockstate.splits if_splits)
qed

lemma mutexLock_False_held:
  assumes "PTHREAD_mutexLock E i s = Some (False, s')" and "pm_lock (mtx s i) = Locked t"
  shows "mtx s' = mtx s"
proof -
  obtain rc s1 where c: "mutex_call E (pthread_mutex_lock (self s)) i s = Some (rc, s1)"
    using assms(1) by (auto simp: PTHREAD_mutexLock_def split: Option.bind_splits)
  then have same: "mtx s1 = mtx s" and rc: "rc \<noteq> None"
    using assms(2) by (cases "env_fail E (ticks s)"; auto simp: mutex_call_def sys_def held_by_def fun_upd_idem
        split: Option.bind_splits if_splits)+
  show ?thesis
    using assms c same rc
    by (auto simp: PTHREAD_mutexLock_def failed_def report_def
        dest!: mutexConsistent_False mutexDestroy_held
        split: option.splits Option.bind_splits if_splits)
qed

lemma mutexUnlock_result:
  assumes "PTHREAD_mutexUnlock E i s = Some (b, s')"
  shows "b \<Longrightarrow> pm_lock (mtx s i) = Locked (self s) \<or> pm_lock (mtx s i) = Inconsistent (self s)"
    "\<not> b \<Longrightarrow> mtx s' = mtx s"
  using assms
  by (auto simp: PTHREAD_mutexUnlock_def mutex_call_def sys_def failed_def report_def fun_upd_idem
      split: option.splits Option.bind_splits prod.splits lockstate.splits if_splits)

section \<open>Threads that lock, unlock and die\<close>

text \<open>
  \<open>holders\<close> are the threads whose last lock call returned true and that did not unlock since;
  \<open>dead\<close> the threads that ended. When the owner of a robust mutex ends the kernel marks it.
\<close>

record world =
  w_state :: state
  holders :: "nat set"
  dead :: "nat set"

definition owner_ends :: "nat \<Rightarrow> pmutex \<Rightarrow> pmutex" where
  "owner_ends t m =
     (if pm_lock m = Locked t \<or> pm_lock m = Inconsistent t then m\<lparr>pm_lock := OwnerDied\<rparr> else m)"

inductive lstep :: "env \<Rightarrow> mid \<Rightarrow> world \<Rightarrow> world \<Rightarrow> bool" for E i where
  acquire: "t \<notin> dead w \<Longrightarrow> PTHREAD_mutexLock E i ((w_state w)\<lparr>self := t\<rparr>) = Some (True, s') \<Longrightarrow>
    lstep E i w (w\<lparr>w_state := s', holders := insert t (holders w)\<rparr>)"
| refused: "t \<notin> dead w \<Longrightarrow> PTHREAD_mutexLock E i ((w_state w)\<lparr>self := t\<rparr>) = Some (False, s') \<Longrightarrow>
    lstep E i w (w\<lparr>w_state := s'\<rparr>)"
| unlock: "t \<notin> dead w \<Longrightarrow> PTHREAD_mutexUnlock E i ((w_state w)\<lparr>self := t\<rparr>) = Some (True, s') \<Longrightarrow>
    lstep E i w (w\<lparr>w_state := s', holders := holders w - {t}\<rparr>)"
| still_locked: "t \<notin> dead w \<Longrightarrow> PTHREAD_mutexUnlock E i ((w_state w)\<lparr>self := t\<rparr>) = Some (False, s') \<Longrightarrow>
    lstep E i w (w\<lparr>w_state := s'\<rparr>)"
| dies: "t \<notin> dead w \<Longrightarrow>
    lstep E i w (w\<lparr>w_state := (w_state w)\<lparr>mtx := (mtx (w_state w))(i := owner_ends t (mtx (w_state w) i))\<rparr>,
                  holders := holders w - {t}, dead := insert t (dead w)\<rparr>)"

inductive_cases lstepE: "lstep E i w w'"

inductive reachable :: "env \<Rightarrow> mid \<Rightarrow> world \<Rightarrow> bool" for E i where
  start: "holders w = {} \<Longrightarrow> reachable E i w"
| step: "reachable E i w \<Longrightarrow> lstep E i w w' \<Longrightarrow> reachable E i w'"

text \<open>Whoever holds the mutex is the one its lock word names.\<close>

definition held_by_word :: "mid \<Rightarrow> world \<Rightarrow> bool" where
  "held_by_word i w \<longleftrightarrow> (\<forall>t \<in> holders w. pm_lock (mtx (w_state w) i) = Locked t)"

lemma lstep_invariant:
  assumes "lstep E i w w'" and "held_by_word i w"
  shows "held_by_word i w'"
  using assms(1)
proof (cases rule: lstep.cases)
  case (acquire t s')
  have "holders w = {}"
    using mutexLock_True(2) [OF acquire(3)] assms(2) by (auto simp: held_by_word_def)
  with acquire mutexLock_True(1) [OF acquire(3)] show ?thesis by (simp add: held_by_word_def)
next
  case (refused t s')
  have "mtx s' = mtx (w_state w)" if "u \<in> holders w" for u
    using mutexLock_False_held [OF refused(3), of u] that assms(2) by (simp add: held_by_word_def)
  with refused assms(2) show ?thesis by (auto simp: held_by_word_def)
next
  case (unlock t s')
  have "holders w \<subseteq> {t}"
    using mutexUnlock_result(1) [OF unlock(3)] assms(2) by (fastforce simp: held_by_word_def)
  with unlock show ?thesis by (auto simp: held_by_word_def)
next
  case (still_locked t s')
  have "mtx s' = mtx (w_state w)" using mutexUnlock_result(2) [OF still_locked(3)] by simp
  with still_locked assms(2) show ?thesis by (simp add: held_by_word_def)
next
  case (dies t)
  with assms(2) show ?thesis by (auto simp: held_by_word_def owner_ends_def)
qed

lemma reachable_held: "reachable E i w \<Longrightarrow> held_by_word i w"
proof (induction rule: reachable.induct)
  case (step w w')
  then show ?case using lstep_invariant by blast
qed (simp add: held_by_word_def)

text \<open>A thread that ended holds nothing.\<close>

lemma reachable_dead: "reachable E i w \<Longrightarrow> holders w \<inter> dead w = {}"
proof (induction rule: reachable.induct)
  case (step w w')
  from step(2,3) show ?case by (elim lstepE) auto
qed simp

section \<open>The cases of one call when the environment does not fail\<close>

lemma mutexLock_owner_died:
  assumes "reliable E" and "pm_lock (mtx s i) = OwnerDied" and "pa_robust (pm_attr (mtx s i)) = PTHREAD_MUTEX_ROBUST"
  shows "\<exists>s'. PTHREAD_mutexLock E i s = Some (True, s') \<and> hp s' = hp s \<and>
     pm_lock (mtx s' i) = Locked (self s) \<and> (\<forall>j. j \<noteq> i \<longrightarrow> mtx s' j = mtx s j)"
  using assms
  by (simp add: PTHREAD_mutexLock_def PTHREAD_mutexConsistent_def mutex_call_def sys_reliable)

lemma mutexLock_again:
  assumes "reliable E" and "pm_lock (mtx s i) = Locked (self s)"
    and "pa_type (pm_attr (mtx s i)) = PTHREAD_MUTEX_ERRORCHECK"
  shows "PTHREAD_mutexLock E i s = Some (False, report ERROR_LEVEL (PthreadRep PC_mutex_lock (Some EDEADLK))
     (s\<lparr>ticks := Suc (ticks s)\<rparr>))"
  using assms
  by (simp add: PTHREAD_mutexLock_def mutex_call_def sys_reliable held_by_def failed_def fun_upd_idem)

text \<open>A setter and its getter.\<close>

lemma attr_set_get:
  assumes "reliable E" and "attrs s i = Some a" and "v \<in> set valid" and "\<And>a. g (f v a) = v"
  shows "\<exists>s' s''. attr_set E c valid f i v s = (True, s') \<and> attr_get E c' g i s' = (True, Some v, s'')"
  using assms by (simp add: attr_set_def attr_get_def sys_reliable)

end
