(* ===== verification/Calloc.thy ===== *)
theory Calloc
  imports Live Locks
begin

text \<open>
  \<^verbatim>\<open>vgc_malloc\<close> as an allocator in the sense of the interface, and \<^verbatim>\<open>vgc_calloc\<close> and
  \<^verbatim>\<open>vgc_realloc\<close> on top of it.
\<close>

section \<open>The invariant does not read the user's bytes\<close>

lemma chain_bytes: "chain s p cs n \<Longrightarrow> chain (s\<lparr>hp := (hp s)\<lparr>bytes := f\<rparr>\<rparr>) p cs n"
  by (rule chain_frame) (auto simp: same_region_def)

lemma heap_ok_bytes: "heap_ok s cs \<Longrightarrow> heap_ok (s\<lparr>hp := (hp s)\<lparr>bytes := f\<rparr>\<rparr>) cs"
  using chain_bytes [of s 0 cs 0 f] by (simp add: heap_ok_def cfg_def)

section \<open>The interface\<close>

definition usable :: "state \<Rightarrow> bool" where
  "usable s \<longleftrightarrow> (\<exists>cs. heap_ok s cs \<and> cs \<noteq> [])"

definition proper_size :: "size_t \<Rightarrow> bool" where
  "proper_size n \<longleftrightarrow> unat n mod 4096 \<noteq> 0"

definition sound_env :: "env \<Rightarrow> bool" where
  "sound_env E \<longleftrightarrow> reliable E \<and> mmap_ok E"

lemma malloc_spec_nonempty: "cs \<noteq> [] \<Longrightarrow> snd (malloc_spec sz new cs) \<noteq> []"
  using alloc_chunks_apart(2) [of sz cs _ _]
  by (auto simp: malloc_spec_def split: option.splits prod.splits)

interpretation vgc: allocator sound_env usable proper_size vgc_malloc
proof unfold_locales
  fix E s n
  assume "sound_env E" and "usable s"
  then obtain cs where "reliable E" "mmap_ok E" "heap_ok s cs" "cs \<noteq> []"
    by (auto simp: sound_env_def usable_def)
  then show "\<exists>p s'. vgc_malloc E n s = Some (p, s') \<and> usable s'"
    using vgc_malloc_all [of E s cs n] malloc_spec_nonempty unfolding usable_def by blast
next
  fix E s n p s'
  assume "sound_env E" "usable s" "vgc_malloc E n s = Some (p, s')" "p \<noteq> 0" "proper_size n"
  then show "access_ok p (unat n) s'"
    using handed_region(1) by (auto simp: sound_env_def usable_def proper_size_def)
next
  fix s f
  assume "usable s"
  then show "usable (s\<lparr>hp := (hp s)\<lparr>bytes := f\<rparr>\<rparr>)"
    using heap_ok_bytes unfolding usable_def by blast
qed

section \<open>vgc_calloc and vgc_realloc\<close>

lemma vgc_calloc_cleared:
  assumes "sound_env E" and "usable s" and "proper_size (nmemb * sz)"
  shows "\<exists>p s'. vgc_calloc E nmemb sz s = Some (p, s') \<and> usable s' \<and>
     (p \<noteq> 0 \<longrightarrow> (\<forall>i < unat (nmemb * sz). bytes (hp s') (p + of_nat i) = 0))"
proof -
  have "nmemb * sz \<noteq> 0" using assms(3) by (auto simp: proper_size_def)
  then show ?thesis
    using vgc.cleared [OF assms, of 0] by (simp add: vgc_calloc_def Let_def)
qed

text \<open>The product is taken in \<^verbatim>\<open>size_t\<close>.\<close>

lemma vgc_calloc_product: "vgc_calloc E nmemb sz s = vgc_calloc E 1 (nmemb * sz) s"
  by (simp add: vgc_calloc_def)

lemma vgc_realloc_zero: "vgc_realloc E ptr 0 s =
    (if ptr = 0 then Some (0, s) else map_option (Pair 0) (vgc_free E ptr s))"
  by (auto simp: vgc_realloc_def map_option_case split: option.splits)

lemma vgc_realloc_null: "sz \<noteq> 0 \<Longrightarrow> vgc_realloc E 0 sz s = vgc_malloc E sz s"
  by (simp add: vgc_realloc_def)

text \<open>A request that cannot be met leaves the old block alone.\<close>

lemma vgc_realloc_refused:
  assumes "heap_ok s cs" and "cs \<noteq> []" and "max_request cs \<le> sz" and "sz \<noteq> 0" and "ptr \<noteq> 0"
  shows "\<exists>s'. vgc_realloc E ptr sz s = Some (0, s') \<and> heap_ok s' cs \<and> hp s' = hp s"
proof -
  obtain r where r: "vgc_malloc E sz s = Some (0, report ERROR_LEVEL (Rep F_vgc_malloc r) s)"
    using vgc_malloc_refused [OF assms(1,2)] assms(3) by blast
  then show ?thesis
    using assms(4,5) wf_quiet [OF assms(1), of "report ERROR_LEVEL (Rep F_vgc_malloc r) s"]
    by (simp add: vgc_realloc_def)
qed

text \<open>When no header object lies where the code looks for one, \<^verbatim>\<open>vgc_realloc\<close> does not return.\<close>

lemma vgc_realloc_header:
  assumes "vgc_malloc E n s = Some (q, s')" and "q \<noteq> 0" and "ptr \<noteq> 0" and "n \<noteq> 0"
    and "mallocH (hp s') (ptr - sizeof_mallocHeader) = None"
  shows "vgc_realloc E ptr n s = None"
  using assms by (simp add: vgc_realloc_def get_mb_def)

section \<open>A call from inside a call\<close>

text \<open>
  A thread that already holds the shared lock, as a signal handler that interrupts
  \<^verbatim>\<open>vgc_malloc\<close> or \<^verbatim>\<open>vgc_free\<close> does, is refused: the mutex checks for errors.
\<close>

lemma held_open:
  assumes "wf_held s cs"
  shows "heap_ok (s\<lparr>mtx := (mtx s)(MShared := free_mutex)\<rparr>) cs"
proof -
  have "chain (s\<lparr>mtx := (mtx s)(MShared := free_mutex)\<rparr>) 0 cs 0"
    by (rule chain_unlocked [OF wf_heldD(3) [OF assms], of _ free_mutex]) simp_all
  then show ?thesis using assms by (simp add: wf_held_def heap_ok_def cfg_def)
qed

lemma held_relock:
  assumes "reliable E" and "wf_held s cs"
  shows "\<exists>s'. PTHREAD_mutexLock E MShared s = Some (False, s') \<and> hp s' = hp s \<and> mtx s' = mtx s"
  using mutexLock_again [OF assms(1), of s MShared] assms(2)
  by (simp add: wf_held_def vgc_pattr_def)

lemma vgc_malloc_reentered:
  assumes E: "reliable E" and held: "wf_held s cs" and ne: "cs \<noteq> []"
  shows "\<exists>s'. vgc_malloc E sz s = Some (0, s') \<and> hp s' = hp s \<and> mtx s' = mtx s"
proof -
  note h = head_chunk [OF held_open [OF held] ne]
  have "sh_isMprotectEnabled (shared (hp s))" using cfgD(3) wf_heldD(1) [OF held] by blast
  then show ?thesis
    using h held_relock [OF E held] by (auto simp: vgc_malloc_def get_mm_def Let_def)
qed

lemma vgc_free_reentered:
  assumes E: "reliable E" and held: "wf_held s cs" and ptr: "ptr \<noteq> 0"
  shows "\<exists>s'. vgc_free E ptr s = Some s' \<and> hp s' = hp s \<and> mtx s' = mtx s"
  using held_relock [OF E held] ptr by (auto simp: vgc_free_def)

text \<open>A pointer outside every mmap block is refused too, and nothing changes.\<close>

lemma vgc_free_outside:
  assumes E: "reliable E" and ok: "heap_ok s cs" and ptr: "ptr \<noteq> 0"
    and out: "isInMmapBlock ptr s = Some False"
  shows "\<exists>s'. vgc_free E ptr s = Some s' \<and> heap_ok s' cs \<and> hp s' = hp s"
proof -
  obtain s1 where s1: "PTHREAD_mutexLock E MShared s = Some (True, s1)" "wf_held s1 cs" "hp s1 = hp s"
    using lock_shared [OF E ok] by blast
  obtain s2 where s2: "unlock_reporting E F_vgc_free MShared s1 = Some s2" "heap_ok s2 cs" "hp s2 = hp s1"
    using unlock_shared [OF E s1(2)] by blast
  have "isInMmapBlock ptr s1 = Some False" using out s1(3) by (simp add: isInMmapBlock_def)
  then show ?thesis
    using s1 s2 ptr wf_quiet [OF s2(2), of "report ERROR_LEVEL (Rep F_vgc_free S_isInMmapBlock) s2"]
    by (simp add: vgc_free_def)
qed

end
