(* ===== verification/Demo.thy ===== *)
theory Demo
  imports Startup
begin

text \<open>
  A concrete environment and the states it leads to, on which the statements of the
  development are evaluated: an operating system that hands out regions at four fixed
  addresses and whose other calls never fail.
\<close>

definition demo_regions :: "addr list" where
  "demo_regions = [0x10000000, 0x20000000, 0x30000000, 0x40000000]"

definition demo_mmap :: "nat \<Rightarrow> (addr \<times> size_t) list \<Rightarrow> size_t \<Rightarrow> addr" where
  "demo_mmap k ms n =
     (if n \<le> 0x8000000
      then case find (\<lambda>a. list_all (disjoint_regions (a, n)) ms) demo_regions of
             Some a \<Rightarrow> a | None \<Rightarrow> MAP_FAILED
      else MAP_FAILED)"

definition demo_env :: env where
  "demo_env = \<lparr>env_fail = (\<lambda>k. None), env_mmap = demo_mmap, env_backtrace = (\<lambda>k. replicate 5 0x401136),
     env_symbols = (\<lambda>bt. Some (map (\<lambda>a. ''./t1(main+0x26) [0x401136]'') bt)), env_link = Some ''/usr/bin/t1'',
     env_addr2line = (\<lambda>cmd. Some (''main at t1.c:12'' @ [newline_char]))\<rparr>"

definition blank :: state where
  "blank = \<lparr>hp = \<lparr>shared = \<lparr>sh_pid = 1, sh_pageSize = 0, sh_mmapBlockFirst = 0, sh_mmapBlockCount = 0,
       sh_mmapBlockSize = 0, sh_isMprotectEnabled = False\<rparr>,
     mmapH = (\<lambda>a. None), mallocH = (\<lambda>a. None), bytes = (\<lambda>a. 0), prot = (\<lambda>a. False), maps = []\<rparr>,
   mtx = (\<lambda>i. \<lparr>pm_attr = default_pattr, pm_lock = Uninit\<rparr>), attrs = (\<lambda>i. None), self = 1, ticks = 0,
   messageLevel = 1, msgs = []\<rparr>"

lemma demo_traceable: "traceable (env_symbols demo_env) (env_link demo_env) (env_addr2line demo_env)"
proof -
  have "usual_frame ''./t1(main+0x26) [0x401136]''"
    unfolding usual_frame_def
    by (intro exI [of _ "''./t1''"] exI [of _ "''main+0x26''"] exI [of _ "'' ''"] exI [of _ "''0x401136''"] exI [of _ "''''"])
      simp
  then show ?thesis by (auto simp: traceable_def demo_env_def)
qed

lemma demo_reliable: "reliable demo_env"
  using demo_traceable by (simp add: reliable_def) (simp add: demo_env_def)

lemma demo_mmap_ok: "mmap_ok demo_env"
proof -
  have "a \<noteq> 0 \<and> 4096 dvd unat a \<and> unat a + unat n \<le> 2 ^ 47 \<and> (\<forall>r \<in> set ms. disjoint_regions (a, n) r)"
    if a: "demo_mmap k ms n = a" "a \<noteq> MAP_FAILED" for k ms n a
  proof -
    have n: "n \<le> 0x8000000" using a by (simp add: demo_mmap_def split: if_splits)
    with a have "find (\<lambda>a. list_all (disjoint_regions (a, n)) ms) demo_regions = Some a"
      by (auto simp: demo_mmap_def split: option.splits)
    then have "a \<in> set demo_regions" "list_all (disjoint_regions (a, n)) ms"
      by (auto simp: find_Some_iff)
    moreover have "unat n \<le> 0x8000000" using n by (simp add: word_le_nat_alt)
    ultimately show ?thesis by (auto simp: demo_regions_def list_all_iff)
  qed
  then show ?thesis by (simp add: mmap_ok_def demo_env_def)
qed

section \<open>A loaded library\<close>

definition demo0 :: state where
  "demo0 = snd (snd (the (initializeShared demo_env 4096 blank)))"

lemma demo0_load: "initializeShared demo_env 4096 blank = Some (0x10000000, True, demo0)"
  and demo0_ok: "heap_ok demo0 []"
  and demo0_maps: "maps (hp demo0) = [(0x10000000, sizeof_VGC_shared)]"
proof -
  have a: "env_mmap demo_env (ticks blank) (maps (hp blank)) sizeof_VGC_shared = 0x10000000"
    by (simp add: demo_env_def demo_mmap_def demo_regions_def blank_def)
  obtain s' where s': "initializeShared demo_env 4096 blank = Some (0x10000000, True, s')"
    "heap_ok s' []" "maps (hp s') = (0x10000000, sizeof_VGC_shared) # maps (hp blank)"
    using initializeShared_ok [OF demo_reliable a] by auto
  then have "demo0 = s'" by (simp add: demo0_def)
  with s' show "initializeShared demo_env 4096 blank = Some (0x10000000, True, demo0)"
    "heap_ok demo0 []" "maps (hp demo0) = [(0x10000000, sizeof_VGC_shared)]"
    by (simp_all add: blank_def)
qed

section \<open>One fresh chunk\<close>

definition demo_chunk :: chunk where
  "demo_chunk = fresh_chunk 0x20000000 32768000"

definition demo1 :: state where
  "demo1 = upd_shared (\<lambda>h. h\<lparr>sh_mmapBlockFirst := 0x20000000\<rparr>)
     (snd (the (mmapBlockAllocate demo_env 32768000 0 demo0)))"

lemma demo_mmap1: "env_mmap demo_env k [(0x10000000, sizeof_VGC_shared)] 32768000 = 0x20000000"
  by (simp add: demo_env_def demo_mmap_def demo_regions_def disjoint_regions_def)

lemma demo_room: "room demo_env demo0"
  by (simp add: room_def demo0_maps demo_mmap1)

lemma demo1_alloc: "\<exists>t. mmapBlockAllocate demo_env 32768000 0 demo0 = Some (0x20000000, t)"
  and demo1_ok: "heap_ok demo1 [demo_chunk]"
  and demo1_maps: "maps (hp demo1) = [(0x20000000, 32768000), (0x10000000, sizeof_VGC_shared)]"
proof -
  note w = heap_okD [OF demo0_ok]
  have a: "env_mmap demo_env (ticks demo0) (maps (hp demo0)) 32768000 = 0x20000000"
    by (simp add: demo0_maps demo_mmap1)
  then obtain s' where s': "allocMMAP demo_env 32768000 0 demo0 = Some (0x20000000, s')"
    "chunk_ok s' 0 0 demo_chunk" "fresh_frame 0x20000000 32768000 0 demo0 s'"
    using allocMMAP_ok [OF demo_reliable demo_mmap_ok a, of 0] cfgD(1) [OF w(1)]
    by (auto simp: demo_chunk_def)
  then show "\<exists>t. mmapBlockAllocate demo_env 32768000 0 demo0 = Some (0x20000000, t)"
    by (simp add: mmapBlockAllocate_def)
  from s' have d: "demo1 = upd_shared (\<lambda>h. h\<lparr>sh_mmapBlockFirst := 0x20000000\<rparr>) s'"
    by (simp add: demo1_def mmapBlockAllocate_def)
  have "chain s' 0 [demo_chunk] 0" using s'(2) by simp
  then have "chain demo1 0 [demo_chunk] 0"
    by (rule chain_frame) (simp add: d upd_shared_def same_region_def)
  then show "heap_ok demo1 [demo_chunk]"
    using w s'(3) by (simp add: heap_ok_def d upd_shared_def fresh_frame_def cfg_def demo_chunk_def)
  show "maps (hp demo1) = [(0x20000000, 32768000), (0x10000000, sizeof_VGC_shared)]"
    using s'(3) by (simp add: d upd_shared_def fresh_frame_def demo0_maps)
qed

section \<open>One block handed out\<close>

definition demo2 :: state where
  "demo2 = snd (the (vgc_malloc demo_env 100 demo1))"

definition demo_block :: blk where
  "demo_block = \<lparr>b_addr = 0x20001000, b_size = 4096, b_status = VGC_MALLOC_BUSY\<rparr>"

definition demo_rest :: blk where
  "demo_rest = \<lparr>b_addr = 0x20004000, b_size = 32743424, b_status = VGC_MALLOC_FREE\<rparr>"

definition demo_chunk2 :: chunk where
  "demo_chunk2 = with_blks demo_chunk [demo_block, demo_rest]"

lemma page_round_100: "page_round 4096 100 = 4096"
  by (simp add: page_round_def)

lemma demo_spec2: "malloc_spec 100 new [demo_chunk] = (user_memory 100 0x20001000, [demo_chunk2])"
  by (simp add: malloc_spec_def max_request_def demo_chunk_def demo_chunk2_def demo_block_def
      demo_rest_def fresh_chunk_def fits_def carve_def page_round_100)

lemma demo_pointer: "user_memory 100 0x20001000 = 0x20003F9C"
  by (simp add: user_memory_def memory_offset_eq)

lemma demo2_run: "vgc_malloc demo_env 100 demo1 = Some (0x20003F9C, demo2)"
  and demo2_ok: "heap_ok demo2 [demo_chunk2]"
proof -
  obtain s' where s': "vgc_malloc demo_env 100 demo1 = Some (0x20003F9C, s')" "heap_ok s' [demo_chunk2]"
    using vgc_malloc_all [OF demo_reliable demo_mmap_ok demo1_ok, of 100]
    by (auto simp: demo_spec2 demo_pointer)
  then have "demo2 = s'" by (simp add: demo2_def)
  with s' show "vgc_malloc demo_env 100 demo1 = Some (0x20003F9C, demo2)" "heap_ok demo2 [demo_chunk2]"
    by simp_all
qed

lemma demo_points_to: "points_to 0x20003F9C demo_block"
  by (simp add: points_to_def demo_block_def)

section \<open>Two blocks handed out\<close>

definition demo3 :: state where
  "demo3 = snd (the (vgc_malloc demo_env 100 demo2))"

definition demo_block2 :: blk where
  "demo_block2 = \<lparr>b_addr = 0x20004000, b_size = 4096, b_status = VGC_MALLOC_BUSY\<rparr>"

definition demo_rest2 :: blk where
  "demo_rest2 = \<lparr>b_addr = 0x20007000, b_size = 32731136, b_status = VGC_MALLOC_FREE\<rparr>"

definition demo_chunk3 :: chunk where
  "demo_chunk3 = with_blks demo_chunk [demo_block, demo_block2, demo_rest2]"

lemma demo_spec3: "malloc_spec 100 new [demo_chunk2] = (user_memory 100 0x20004000, [demo_chunk3])"
  by (simp add: malloc_spec_def max_request_def demo_chunk_def demo_chunk2_def demo_chunk3_def
      demo_block_def demo_block2_def demo_rest_def demo_rest2_def fresh_chunk_def fits_def carve_def
      page_round_100)

lemma demo_pointer2: "user_memory 100 0x20004000 = 0x20006F9C"
  by (simp add: user_memory_def memory_offset_eq)

lemma demo3_run: "vgc_malloc demo_env 100 demo2 = Some (0x20006F9C, demo3)"
  and demo3_ok: "heap_ok demo3 [demo_chunk3]"
proof -
  obtain s' where s': "vgc_malloc demo_env 100 demo2 = Some (0x20006F9C, s')" "heap_ok s' [demo_chunk3]"
    using vgc_malloc_all [OF demo_reliable demo_mmap_ok demo2_ok, of 100]
    by (auto simp: demo_spec3 demo_pointer2)
  then have "demo3 = s'" by (simp add: demo3_def)
  with s' show "vgc_malloc demo_env 100 demo2 = Some (0x20006F9C, demo3)" "heap_ok demo3 [demo_chunk3]"
    by simp_all
qed

section \<open>The chunks as lists\<close>

lemma demo2_at: "heap_ok demo2 ([] @ demo_chunk2 # [])"
  and demo3_at: "heap_ok demo3 ([] @ demo_chunk3 # [])"
  using demo2_ok demo3_ok by simp_all

lemma demo_blks2: "c_blks demo_chunk2 = [] @ demo_block # [demo_rest]"
  and demo_blks3: "c_blks demo_chunk3 = [demo_block] @ demo_block2 # [demo_rest2]"
  by (simp_all add: demo_chunk2_def demo_chunk3_def)

lemma demo_busy: "\<not> is_free demo_block" "\<not> is_free demo_block2"
  by (simp_all add: demo_block_def demo_block2_def)

lemma demo_points_to2: "points_to 0x20006F9C demo_block2"
  by (simp add: points_to_def demo_block2_def)

lemma demo_release2: "tl (release [] demo_block [demo_rest]) = []"
  and demo_release3: "tl (release [demo_block] demo_block2 [demo_rest2]) \<noteq> []"
  by (simp_all add: release_def unify_prev_def demo_block_def demo_block2_def demo_rest_def demo_rest2_def)

end
