(* ===== verification/Session.thy ===== *)
theory Session
  imports Calloc Demo
begin

text \<open>
  A client of the library: the runs that load it and then allocate, write, check and free in any
  order. The pairs of \<open>ps\<close> are the pointers the client holds, with the sizes it asked for.
\<close>

section \<open>Which block serves which pointer\<close>

definition hdr :: "addr \<times> size_t \<Rightarrow> addr" where
  "hdr x = fst x - (sizeof_mallocHeader + memory_offset 4096 (snd x))"

definition serves :: "addr \<times> size_t \<Rightarrow> blk \<Rightarrow> bool" where
  "serves x b \<longleftrightarrow> fst x = user_memory (snd x) (b_addr b) \<and> unat (snd x) \<le> unat (b_size b) \<and>
     unat (snd x) mod 4096 \<noteq> 0"

definition owns :: "chunk list \<Rightarrow> (addr \<times> size_t) list \<Rightarrow> bool" where
  "owns cs ps \<longleftrightarrow> distinct (map hdr ps) \<and> (\<forall>x \<in> set ps. \<exists>b \<in> set (live cs). serves x b) \<and>
     b_addr ` set (live cs) \<subseteq> hdr ` set ps"

lemma serves_hdr: "serves x b \<Longrightarrow> hdr x = b_addr b"
  by (simp add: serves_def hdr_def user_memory_def)

definition in_use :: "blk list \<Rightarrow> blk list" where
  "in_use bs = filter (\<lambda>b. \<not> is_free b) bs"

lemma in_use_simps [simp]:
  "in_use [] = []" "in_use (b # bs) = (if is_free b then in_use bs else b # in_use bs)"
  "in_use (xs @ ys) = in_use xs @ in_use ys"
  by (simp_all add: in_use_def)

lemma live_simps [simp]:
  "live [] = []" "live (c # cs) = in_use (c_blks c) @ live cs" "live (cs @ ds) = live cs @ live ds"
  by (simp_all add: live_def in_use_def)

lemma heap_block_inj:
  assumes ok: "heap_ok s cs" and "c \<in> set cs" and "d \<in> set cs" and "b \<in> set (c_blks c)"
    and "b' \<in> set (c_blks d)" and "b_addr b = b_addr b'"
  shows "b = b'"
proof -
  note w = heap_okD [OF ok]
  have "c = d \<or> apart c d"
  proof (cases "c = d")
    case False
    obtain us vs where cs: "cs = us @ c # vs" using assms(2) by (auto simp: in_set_conv_decomp)
    then have "d \<in> set us \<union> set vs" using assms(3) False by auto
    then show ?thesis using apart_others [of us c vs d] w(5) cs by blast
  qed simp
  then show ?thesis
    using block_unique [OF chain_shape [OF w(4) assms(2)] chain_shape [OF w(4) assms(3)] _ assms(4-6)] by blast
qed

lemma live_inj:
  assumes "heap_ok s cs" and "b \<in> set (live cs)" and "b' \<in> set (live cs)" and "b_addr b = b_addr b'"
  shows "b = b'"
  using heap_block_inj [OF assms(1)] assms(2-4) unfolding live_iff by blast

lemma owns_add:
  assumes "owns cs ps" and "set (live cs') = insert h (set (live cs))"
    and "b_addr h \<notin> b_addr ` set (live cs)" and "serves x h"
  shows "owns cs' (x # ps)"
proof -
  have "hdr x \<notin> hdr ` set ps"
  proof
    assume "hdr x \<in> hdr ` set ps"
    then obtain y b where "hdr y = hdr x" "b \<in> set (live cs)" "serves y b"
      using assms(1) by (fastforce simp: owns_def)
    then have "b_addr h = b_addr b" using serves_hdr assms(4) by metis
    then show False using assms(3) \<open>b \<in> set (live cs)\<close> by simp
  qed
  then show ?thesis using assms(1,2,4) serves_hdr [OF assms(4)] by (auto simp: owns_def)
qed

lemma owns_remove:
  assumes "owns cs ps" and ok: "heap_ok s cs" and x: "x \<in> set ps" "serves x b" "b \<in> set (live cs)"
    and "set (live cs') = set (live cs) - {b}"
  shows "owns cs' (remove1 x ps)"
proof -
  have d: "distinct (map hdr ps)" using assms(1) by (simp add: owns_def)
  then have set1: "set (remove1 x ps) = set ps - {x}" by (simp add: distinct_map)
  have dist: "distinct (map hdr (remove1 x ps))"
    using d set1 by (auto simp: distinct_map intro: inj_on_subset)
  have other: "\<exists>b' \<in> set (live cs'). serves y b'" if y: "y \<in> set ps - {x}" for y
  proof -
    obtain b' where b': "b' \<in> set (live cs)" "serves y b'" using assms(1) y by (auto simp: owns_def)
    have "hdr y \<noteq> hdr x" using d y x(1) by (auto simp: distinct_map inj_on_def)
    then have "b' \<noteq> b" using serves_hdr [OF b'(2)] serves_hdr [OF x(2)] by metis
    with b' assms(6) show ?thesis by auto
  qed
  have "b_addr b' \<in> hdr ` (set ps - {x})" if b': "b' \<in> set (live cs) - {b}" for b'
  proof -
    obtain y where y: "y \<in> set ps" "b_addr b' = hdr y" using assms(1) b' by (auto simp: owns_def)
    have "b_addr b' \<noteq> b_addr b" using live_inj [OF ok, of b' b] b' x(3) by blast
    then have "y \<noteq> x" using y serves_hdr [OF x(2)] by auto
    with y show ?thesis by blast
  qed
  then show ?thesis using dist other assms(6) set1 by (auto simp: owns_def)
qed

lemma live_areas_apart:
  assumes ok: "heap_ok s cs" and "b \<in> set (live cs)" and "d \<in> set (live cs)" and "b \<noteq> d"
  shows "area b \<inter> area d = {}"
proof -
  obtain c e where c: "c \<in> set cs" "b \<in> set (c_blks c)" and e: "e \<in> set cs" "d \<in> set (c_blks e)"
    using assms(2,3) by (auto simp: live_iff)
  note shape = chain_shape [OF heap_okD(4) [OF ok] c(1)]
  obtain us vs where cs: "cs = us @ c # vs" using c(1) by (auto simp: in_set_conv_decomp)
  show ?thesis
  proof (cases "e = c")
    case True
    obtain xs ys where bs: "c_blks c = xs @ b # ys" using c(2) by (auto simp: in_set_conv_decomp)
    then have "d \<in> set xs \<union> set ys" using e(2) True assms(4) by auto
    then show ?thesis using areas_apart_blocks chunk_shapeD(6) [OF shape] bs by metis
  next
    case False
    then have "e \<in> set us \<union> set vs" using e(1) cs by auto
    then have "apart c e" using apart_others [of us c vs e] heap_okD(5) [OF ok] cs by blast
    then show ?thesis
      using areas_apart_chunks [OF _ shape chain_shape [OF heap_okD(4) [OF ok] e(1)] c(2) e(2)] by blast
  qed
qed

text \<open>Where the bytes of a held pointer lie.\<close>

lemma serves_block:
  assumes ok: "heap_ok s cs" and b: "b \<in> set (live cs)" and x: "serves x b"
  shows "user_area (fst x) (snd x) \<subseteq> area b" "points_to (fst x) b"
    "access_ok (fst x) (unat (snd x)) s" "fst x \<noteq> 0"
proof -
  obtain c where c: "c \<in> set cs" "b \<in> set (c_blks c)" using b by (auto simp: live_iff)
  note shape = chain_shape [OF heap_okD(4) [OF ok] c(1)]
  have le: "unat (snd x) \<le> unat (b_size b)" and off: "unat (snd x) mod 4096 \<noteq> 0"
    and p: "fst x = user_memory (snd x) (b_addr b)"
    using x by (simp_all add: serves_def)
  note u = user_area_in_sized [OF shape c(2) le off]
  show sub: "user_area (fst x) (snd x) \<subseteq> area b" using u(1,3) by (fastforce simp: p area_def)
  show "points_to (fst x) b" using u(4) by (simp add: p)
  obtain q n where "chunk_ok s q n c" using chain_ok_at [OF heap_okD(4) [OF ok] c(1)] by blast
  then have mem: "chunk_mem (hp s) q n c" by (simp add: chunk_ok_def)
  have "snd x \<noteq> 0" using off by auto
  then show "access_ok (fst x) (unat (snd x)) s" using area_accessible [OF mem c(2) sub] by blast
  show "fst x \<noteq> 0" using user_memory_unat(2) [OF shape c(2)] by (simp add: p)
qed

section \<open>What a call does to the blocks in use\<close>

lemma in_use_carve:
  assumes "is_free b"
  obtains h where "in_use (carve len b) = [h]" "b_addr h = b_addr b" "\<not> is_free h"
    "unat len \<le> unat (b_size b) \<longrightarrow> unat len \<le> unat (b_size h)"
  using assms by (cases "len + sizeof_mallocHeader < b_size b") (auto simp: carve_def intro!: that)

lemma in_use_absorb: "is_free b \<Longrightarrow> in_use (absorb b ys) = in_use ys"
  by (cases ys) auto

lemma in_use_unify_prev: "zs \<noteq> [] \<Longrightarrow> is_free (hd zs) \<Longrightarrow> in_use (unify_prev xs zs) = in_use xs @ in_use zs"
proof (cases xs rule: rev_cases)
  case (snoc us u)
  assume "zs \<noteq> []" "is_free (hd zs)"
  then obtain z ws where "zs = z # ws" "is_free z" by (cases zs) auto
  with snoc show ?thesis by (auto simp: unify_prev_def in_use_absorb)
qed (simp add: unify_prev_def)

lemma in_use_release: "in_use (release xs b ys) = in_use xs @ in_use ys"
proof -
  let ?b = "b\<lparr>b_status := VGC_MALLOC_FREE\<rparr>"
  have "is_free (hd (absorb ?b ys))" by (cases ys) auto
  then show ?thesis by (simp add: release_def in_use_unify_prev in_use_absorb)
qed

lemma release_has_free: "\<exists>r \<in> set (release xs b ys). is_free r"
proof -
  let ?zs = "absorb (b\<lparr>b_status := VGC_MALLOC_FREE\<rparr>) ys"
  have "is_free (hd ?zs)" by (cases ys) auto
  then obtain z ws where z: "?zs = z # ws" "is_free z" by (cases ?zs) auto
  then show ?thesis
    by (cases xs rule: rev_cases) (auto simp: release_def unify_prev_def)
qed

lemma release_single: "tl (release xs b ys) = [] \<Longrightarrow> in_use (release xs b ys) = []"
  using release_has_free [of xs b ys] by (cases "release xs b ys") auto

lemma fits_free: "fits sz b \<Longrightarrow> is_free b"
  by (simp add: fits_def)

text \<open>
  Where the block comes from: a chunk of the heap, or a chunk apart from them all that holds
  nothing else.
\<close>

definition source_of :: "chunk list \<Rightarrow> chunk list \<Rightarrow> chunk \<Rightarrow> chunk list \<Rightarrow> bool" where
  "source_of cs us c vs \<longleftrightarrow>
     cs = us @ c # vs \<or> (\<forall>d \<in> set cs. apart c d) \<and> us = cs \<and> vs = [] \<and> tl (c_blks c) = []"

lemma live_added:
  assumes src: "source_of cs us c vs" and bs: "c_blks c = xs @ b # ys" and free: "is_free b"
    and new: "in_use zs = [h1]"
  shows "set (live (us @ with_blks c (xs @ zs @ ys) # vs)) = insert h1 (set (live cs))"
  using src unfolding source_of_def
proof
  assume "cs = us @ c # vs"
  then show ?thesis using new bs free by auto
next
  assume "(\<forall>d \<in> set cs. apart c d) \<and> us = cs \<and> vs = [] \<and> tl (c_blks c) = []"
  moreover from this have "xs = []" "ys = []" using bs by (cases xs; simp)+
  ultimately show ?thesis using new by simp
qed

text \<open>A free block shares its address with no block in use.\<close>

lemma source_address_fresh:
  assumes ok: "heap_ok s cs" and src: "source_of cs us c vs" and shape: "chunk_shape c"
    and b: "b \<in> set (c_blks c)" "is_free b"
  shows "b_addr b \<notin> b_addr ` set (live cs)"
proof
  assume "b_addr b \<in> b_addr ` set (live cs)"
  then obtain d e where d: "d \<in> set cs" "e \<in> set (c_blks d)" "\<not> is_free e" "b_addr e = b_addr b"
    by (fastforce simp: live_iff)
  have "c = d \<or> apart c d"
    using src unfolding source_of_def
  proof
    assume cs: "cs = us @ c # vs"
    then have "sorted_wrt apart (us @ c # vs)" using heap_okD(5) [OF ok] by simp
    then show ?thesis using d(1) cs apart_others by fastforce
  qed (use d(1) in blast)
  then have "b = e"
    using block_unique [OF shape chain_shape [OF heap_okD(4) [OF ok] d(1)] _ b(1) d(2)] d(4) by simp
  then show False using b(2) d(3) by simp
qed

text \<open>A request that is met adds a block, one that is not met adds none.\<close>

lemma malloc_owns:
  assumes E: "reliable E" and mm: "mmap_ok E" and ok: "heap_ok s cs" and ne: "cs \<noteq> []" and own: "owns cs ps"
    and run: "vgc_malloc E sz s = Some (p, s')" and p: "p \<noteq> 0" and off: "unat sz mod 4096 \<noteq> 0"
  shows "\<exists>cs'. heap_ok s' cs' \<and> owns cs' ((p, sz) # ps) \<and> bytes_kept cs s s'"
proof -
  let ?L = "page_round 4096 sz"
  obtain us c vs xs b ys where h: "c_blks c = xs @ b # ys" "chunk_shape c" "fits sz b"
    "p = user_memory sz (b_addr b)"
    "heap_ok s' (us @ with_blks c (xs @ carve ?L b @ ys) # vs)" "source_of cs us c vs" "bytes_kept cs s s'"
    using vgc_malloc_handed [OF E mm ok ne run p] unfolding source_of_def by metis
  have b: "b \<in> set (c_blks c)" using h(1) by simp
  note free = fits_free [OF h(3)]
  obtain h1 where h1: "in_use (carve ?L b) = [h1]" "b_addr h1 = b_addr b" "\<not> is_free h1"
    "unat ?L \<le> unat (b_size b) \<longrightarrow> unat ?L \<le> unat (b_size h1)"
    using in_use_carve [OF free] by metis
  have "unat sz \<le> unat ?L"
    using page_round_bounds(1) page_round_le(2) [OF fits_size [OF h(3)] in_chunk(5) [OF h(2) b] unat_lt64] by blast
  then have "serves (p, sz) h1"
    using h(4) h1(2,4) user_area_in_block(3) [OF h(2) b h(3) off] off by (simp add: serves_def)
  moreover have "b_addr h1 \<notin> b_addr ` set (live cs)"
    using source_address_fresh [OF ok h(6,2) b free] h1(2) by simp
  ultimately have "owns (us @ with_blks c (xs @ carve ?L b @ ys) # vs) ((p, sz) # ps)"
    using owns_add [OF own live_added [OF h(6,1) free h1(1)]] by blast
  with h(5,7) show ?thesis by blast
qed

lemma malloc_spec_refused:
  assumes "malloc_spec sz new cs = (0, cs')" and fresh: "is_fresh new" and shape: "\<forall>c \<in> set cs. chunk_shape c"
  shows "live cs' = live cs"
proof (cases "sz = 0 \<or> max_request cs \<le> sz")
  case False
  have no: "False" if "alloc_chunks sz ds = Some (a, ds')" "user_memory sz a = 0" "\<forall>c \<in> set ds. chunk_shape c" for ds a ds'
    using that(1)
  proof (rule alloc_chunks_SomeE)
    fix us c vs xs b ys
    assume *: "ds = us @ c # vs" "c_blks c = xs @ b # ys" "a = b_addr b"
    then have "chunk_shape c" "b \<in> set (c_blks c)" using that(3) by auto
    then show False using user_memory_unat(2) * that(2) by blast
  qed
  have old: "alloc_chunks sz cs = None"
    using assms(1) False no [OF _ _ shape] by (auto simp: malloc_spec_def split: option.splits)
  show ?thesis
  proof (cases new)
    case None
    then show ?thesis using assms(1) False old by (simp add: malloc_spec_def)
  next
    case (Some c)
    obtain a n where c: "c = fresh_chunk a n" "chunk_shape c" using fresh Some by (auto simp: is_fresh_def)
    have "alloc_chunks sz [c] = None"
    proof (cases "alloc_chunks sz [c]")
      case (Some r)
      then obtain x ds where r: "alloc_chunks sz [c] = Some (x, ds)" by (cases r) auto
      then have "user_memory sz x = 0"
        using assms(1) False old \<open>new = Some c\<close> by (simp add: malloc_spec_def)
      then show ?thesis using no [OF r] c(2) by simp
    qed
    then have "cs' = cs @ [c]" using assms(1) False old Some by (simp add: malloc_spec_def)
    then show ?thesis by (simp add: c(1) fresh_chunk_def)
  qed
qed (use assms in \<open>simp add: malloc_spec_def\<close>)

lemma owns_live: "owns cs ps \<Longrightarrow> live cs' = live cs \<Longrightarrow> owns cs' ps"
  by (simp add: owns_def)

lemma malloc_refused_owns:
  assumes E: "reliable E" and mm: "mmap_ok E" and ok: "heap_ok s cs" and ne: "cs \<noteq> []" and own: "owns cs ps"
    and run: "vgc_malloc E sz s = Some (0, s')"
  shows "\<exists>cs'. heap_ok s' cs' \<and> owns cs' ps \<and> bytes_kept cs s s'"
proof -
  obtain new where new: "fst (malloc_spec sz new cs) = 0" "heap_ok s' (snd (malloc_spec sz new cs))"
    "is_fresh new" "bytes_kept cs s s'"
    using vgc_malloc_all [OF E mm ok ne, of sz] run by auto
  have "\<forall>c \<in> set cs. chunk_shape c" using chain_shape [OF heap_okD(4) [OF ok]] by blast
  moreover have "malloc_spec sz new cs = (0, snd (malloc_spec sz new cs))"
    using new(1) by (metis prod.collapse)
  ultimately have "live (snd (malloc_spec sz new cs)) = live cs"
    using malloc_spec_refused new(3) by blast
  then show ?thesis using new(2,4) owns_live [OF own] by blast
qed

text \<open>The bytes of the held pointers \<open>ps\<close> are as they were.\<close>

definition intact :: "(addr \<times> size_t) list \<Rightarrow> state \<Rightarrow> state \<Rightarrow> bool" where
  "intact ps s s' \<longleftrightarrow> (\<forall>x \<in> set ps. \<forall>i < unat (snd x).
     bytes (hp s') (fst x + of_nat i) = bytes (hp s) (fst x + of_nat i))"

lemma intact_kept:
  assumes ok: "heap_ok s cs" and ps: "\<forall>x \<in> set ps. \<exists>b \<in> set (live ds). serves x b"
    and ds: "set ds \<subseteq> set cs" and kept: "bytes_kept ds s s'"
  shows "intact ps s s'"
  unfolding intact_def
proof (intro ballI allI impI)
  fix x i
  assume x: "x \<in> set ps" and i: "i < unat (snd x)"
  obtain b where b: "b \<in> set (live ds)" "serves x b" using ps x by blast
  then obtain c where c: "c \<in> set ds" "b \<in> set (c_blks c)" by (auto simp: live_iff)
  have shape: "chunk_shape c" using chain_shape [OF heap_okD(4) [OF ok]] c(1) ds by blast
  have "b \<in> set (live cs)" using b(1) ds by (auto simp: live_iff)
  then have "unat (fst x) + i \<in> area b"
    using serves_block(1) [OF ok _ b(2)] i by (auto simp: user_area_def)
  note in_c = area_in_chunk [OF shape c(2) this]
  have "unat (of_nat i :: size_t) = i" using i unat_lt64 [of "snd x"] by (intro unat_of_nat_ok) linarith
  then have "unat (fst x + of_nat i) = unat (fst x) + i"
    using in_c(2) chunk_shapeD(3) [OF shape] by (simp add: unat_add_ok)
  then have "in_range (c_addr c) (c_size c) (fst x + of_nat i)" using in_c by (simp add: in_range_def)
  then show "bytes (hp s') (fst x + of_nat i) = bytes (hp s) (fst x + of_nat i)"
    using kept c(1) by (auto simp: bytes_kept_def)
qed

text \<open>Without the blocks of one pointer, the live blocks are those of the others.\<close>

lemma live_removed:
  assumes ok: "heap_ok s (us @ c # vs)" and bs: "c_blks c = xs @ b # ys" and busy: "\<not> is_free b"
    and area: "area b \<noteq> {}"
  shows "set (in_use xs @ in_use ys @ live (us @ vs)) = set (live (us @ c # vs)) - {b}"
proof -
  have sh: "chunk_shape d" if "d \<in> set (us @ c # vs)" for d
    using chain_shape [OF heap_okD(4) [OF ok] that] .
  have "distinct (map b_addr (c_blks c))"
    using layout_distinct [OF chunk_shapeD(6) [OF sh [of c]]] by simp
  then have nb: "b \<notin> set xs \<union> set ys" using bs by auto
  have "b \<notin> set (live (us @ vs))"
  proof
    assume "b \<in> set (live (us @ vs))"
    then obtain d where d: "d \<in> set us \<union> set vs" "b \<in> set (c_blks d)" by (auto simp: live_iff)
    then have "apart c d" using apart_others [of us c vs d] heap_okD(5) [OF ok] by blast
    then have "area b \<inter> area b = {}"
      using areas_apart_chunks [of c d b b] bs sh [of c] sh [of d] d by auto
    then show False using area by simp
  qed
  then show ?thesis using nb busy bs by (auto simp: in_use_def)
qed

text \<open>Freeing a pointer the client holds.\<close>

lemma free_owns:
  assumes E: "reliable E" and ok: "heap_ok s cs" and own: "owns cs ps" and x: "x \<in> set ps"
  shows "\<exists>s'. vgc_free E (fst x) s = Some s' \<and> intact (remove1 x ps) s s' \<and>
     (sh_mmapBlockFirst (shared (hp s')) \<noteq> 0 \<or> sh_mmapBlockCount (shared (hp s')) = 0 \<longrightarrow>
      (\<exists>cs'. heap_ok s' cs' \<and> owns cs' (remove1 x ps)))"
proof -
  obtain b where b: "b \<in> set (live cs)" "serves x b" using own x by (auto simp: owns_def)
  then obtain c where c: "c \<in> set cs" "b \<in> set (c_blks c)" "\<not> is_free b" by (auto simp: live_iff)
  obtain us vs where cs: "cs = us @ c # vs" using c(1) by (auto simp: in_set_conv_decomp)
  obtain xs ys where bs: "c_blks c = xs @ b # ys" using c(2) by (auto simp: in_set_conv_decomp)
  note ok' = ok [unfolded cs] and pt = serves_block(2) [OF ok b]
  have "unat (fst x) \<in> area b"
    using serves_block(1,4) [OF ok b] b(2) by (auto simp: user_area_def serves_def)
  then have rest: "set (in_use xs @ in_use ys @ live (us @ vs)) = set (live cs) - {b}"
    using live_removed [OF ok' bs c(3)] cs by blast
  show ?thesis
  proof (cases "tl (release xs b ys) = []")
    case False
    let ?cs = "us @ with_blks c (release xs b ys) # vs"
    obtain s' where s': "vgc_free E (fst x) s = Some s'" "heap_ok s' ?cs" "bytes (hp s') = bytes (hp s)"
      using vgc_free_keep [OF E ok' bs c(3) pt False] by blast
    have "set (live ?cs) = set (live cs) - {b}" using rest by (auto simp: in_use_release)
    then have "owns ?cs (remove1 x ps)" by (rule owns_remove [OF own ok x b(2,1)])
    with s' show ?thesis by (auto simp: intact_def)
  next
    case True
    obtain s' where s': "vgc_free E (fst x) s = Some s'"
      "wf_at s' (if us = [] then 0 else first_chunk (us @ vs) 0) (us @ vs)" "bytes_kept (us @ vs) s s'"
      using vgc_free_gone [OF E ok' bs c(3) pt True] by blast
    have "in_use xs @ in_use ys = []"
      using in_use_release [of xs b ys] release_single [OF True] by simp
    then have "set (live (us @ vs)) = set (live cs) - {b}" using rest by auto
    then have own': "owns (us @ vs) (remove1 x ps)" by (rule owns_remove [OF own ok x b(2,1)])
    have "intact (remove1 x ps) s s'"
      using intact_kept [OF ok _ _ s'(3)] own' cs by (auto simp: owns_def)
    moreover have "heap_ok s' (us @ vs)"
      if "sh_mmapBlockFirst (shared (hp s')) \<noteq> 0 \<or> sh_mmapBlockCount (shared (hp s')) = 0"
      using that s'(2) wf_at_wf [of s' "us @ vs"] by (cases "us = []") (auto simp: wf_at_def)
    ultimately show ?thesis using s'(1) own' by blast
  qed
qed

section \<open>The runs of a client\<close>

text \<open>
  \<open>lib_step\<close>: a call of the library by a client that holds the pointers \<open>ps\<close>. The calls leave out
  what the code does not get right: requests of whole pages, the release of the first mmap block
  while there are others (the shared record then names no block, although it counts some) and
  what follows a first \<^verbatim>\<open>mmap\<close> that failed. \<open>switched\<close>: the next call is made by another thread.
\<close>

inductive lib_step :: "env \<Rightarrow> state \<times> (addr \<times> size_t) list \<Rightarrow> state \<times> (addr \<times> size_t) list \<Rightarrow> bool" for E where
  given: "vgc_malloc E sz s = Some (p, s') \<Longrightarrow> p \<noteq> 0 \<Longrightarrow> unat sz mod 4096 \<noteq> 0 \<Longrightarrow>
    lib_step E (s, ps) (s', (p, sz) # ps)"
| refused: "vgc_malloc E sz s = Some (0, s') \<Longrightarrow> sh_mmapBlockFirst (shared (hp s')) \<noteq> MAP_FAILED \<Longrightarrow>
    lib_step E (s, ps) (s', ps)"
| freed: "x \<in> set ps \<Longrightarrow> vgc_free E (fst x) s = Some s' \<Longrightarrow>
    sh_mmapBlockFirst (shared (hp s')) \<noteq> 0 \<or> sh_mmapBlockCount (shared (hp s')) = 0 \<Longrightarrow>
    lib_step E (s, ps) (s', remove1 x ps)"
| checked: "a \<noteq> 0 \<Longrightarrow> vgc_mallocCheckMMAP E a s = Some s' \<Longrightarrow> lib_step E (s, ps) (s', ps)"
| switched: "lib_step E (s, ps) (s\<lparr>self := t\<rparr>, ps)"

inductive client :: "env \<Rightarrow> state \<Rightarrow> (addr \<times> size_t) list \<Rightarrow> bool" for E where
  loaded: "initializeShared E 4096 s0 = Some (a, True, s) \<Longrightarrow> maps (hp s0) = [] \<Longrightarrow> client E s []"
| called: "client E s ps \<Longrightarrow> lib_step E (s, ps) (s', ps') \<Longrightarrow> client E s' ps'"
| stored: "client E s ps \<Longrightarrow> client E (s\<lparr>hp := (hp s)\<lparr>bytes := f\<rparr>\<rparr>) ps"

inductive_cases lib_stepE: "lib_step E (s, ps) (s', ps')"

lemma heap_ok_self: "heap_ok s cs \<Longrightarrow> heap_ok (s\<lparr>self := t\<rparr>) cs"
  using chain_hp [of s 0 cs 0 "s\<lparr>self := t\<rparr>"] by (simp add: heap_ok_def cfg_def)

lemma intact_refl [simp]: "intact ps s s" "intact ps s (s\<lparr>self := t\<rparr>)"
  by (simp_all add: intact_def)

text \<open>Without a chunk, a call makes one and goes on, or fails and leaves \<open>MAP_FAILED\<close> behind.\<close>

lemma vgc_malloc_no_room:
  assumes E: "reliable E" and mm: "mmap_ok E" and ok: "heap_ok s []" and no: "\<not> room E s"
  shows "\<exists>s'. vgc_malloc E sz s = Some (0, s') \<and> sh_mmapBlockFirst (shared (hp s')) = MAP_FAILED"
proof -
  note w = heap_okD [OF ok]
  define t where "t = report ERROR_LEVEL (Rep F_allocMMAP S_mmap) (s\<lparr>ticks := Suc (ticks s)\<rparr>)"
  have "allocMMAP E 32768000 0 s = Some (MAP_FAILED, t)"
    using allocMMAP_fail [of E s 32768000] no by (simp add: t_def room_def)
  moreover have "\<exists>u. allocMMAP E 3276800 0 t = Some (MAP_FAILED, u)"
    using allocMMAP_fail [of E t 3276800] no by (simp add: t_def room_def)
  ultimately obtain v where a: "mmapBlockAllocate E 32768000 0 s = Some (MAP_FAILED, v)"
    by (auto simp: mmapBlockAllocate_def)
  then show ?thesis
    using w(2) cfgD(2) [OF w(1)] by (simp add: vgc_malloc_def upd_shared_def)
qed

lemma owns_Nil: "owns [] ps \<longleftrightarrow> ps = []"
  by (cases ps) (auto simp: owns_def)

lemma owns_fresh: "owns [fresh_chunk a n] []"
  by (simp add: owns_def fresh_chunk_def)

text \<open>A call on a heap without chunks is a call on a heap with a fresh one.\<close>

lemma client_chunk:
  assumes E: "reliable E" and mm: "mmap_ok E" and ok: "heap_ok s cs" and own: "owns cs ps"
    and run: "vgc_malloc E sz s = Some (p, s')" and go: "p \<noteq> 0 \<or> sh_mmapBlockFirst (shared (hp s')) \<noteq> MAP_FAILED"
  shows "\<exists>s1 ds. heap_ok s1 ds \<and> ds \<noteq> [] \<and> owns ds ps \<and> vgc_malloc E sz s1 = Some (p, s') \<and>
     (cs \<noteq> [] \<longrightarrow> s1 = s \<and> ds = cs)"
proof (cases "cs = []")
  case True
  then have ok0: "heap_ok s []" and ps: "ps = []" using ok own by (simp_all add: owns_Nil)
  have "room E s" using vgc_malloc_no_room [OF E mm ok0, of sz] run go by auto
  then obtain a n s1 where "heap_ok s1 [fresh_chunk a n]" "vgc_malloc E sz s = vgc_malloc E sz s1"
    using vgc_malloc_first [OF E mm ok0, of sz] by blast
  then show ?thesis using True ps owns_fresh run by (metis list.discI)
qed (use assms in blast)

lemma intact_owned:
  assumes "heap_ok s cs" and "owns cs ps" and "bytes_kept cs s s'"
  shows "intact ps s s'"
  using intact_kept [OF assms(1) _ subset_refl assms(3)] assms(2) by (simp add: owns_def)

lemma intact_filter: "intact ps s s' \<Longrightarrow> intact (filter P ps) s s'"
  by (simp add: intact_def)

lemma lib_step_invariant:
  assumes E: "reliable E" and mm: "mmap_ok E" and step: "lib_step E (s, ps) (s', ps')"
    and ok: "heap_ok s cs" and own: "owns cs ps"
  shows "(\<exists>cs'. heap_ok s' cs' \<and> owns cs' ps') \<and> intact (filter (\<lambda>x. x \<in> set ps') ps) s s'"
  using step
proof (cases rule: lib_step.cases)
  case (given sz p)
  obtain s1 ds where d: "heap_ok s1 ds" "ds \<noteq> []" "owns ds ps" "vgc_malloc E sz s1 = Some (p, s')"
    "cs \<noteq> [] \<longrightarrow> s1 = s \<and> ds = cs"
    using client_chunk [OF E mm ok own given(2)] given(3) by blast
  obtain cs' where "heap_ok s' cs'" "owns cs' ((p, sz) # ps)" "bytes_kept ds s1 s'"
    using malloc_owns [OF E mm d(1,2,3,4) given(3,4)] by blast
  moreover have "intact ps s s'"
    using intact_owned [OF ok own] d(5) own calculation(3) by (cases "cs = []") (auto simp: owns_Nil intact_def)
  ultimately show ?thesis using given(1) intact_filter by blast
next
  case (refused sz)
  obtain s1 ds where d: "heap_ok s1 ds" "ds \<noteq> []" "owns ds ps" "vgc_malloc E sz s1 = Some (0, s')"
    "cs \<noteq> [] \<longrightarrow> s1 = s \<and> ds = cs"
    using client_chunk [OF E mm ok own refused(2)] refused(3) by blast
  obtain cs' where "heap_ok s' cs'" "owns cs' ps" "bytes_kept ds s1 s'"
    using malloc_refused_owns [OF E mm d(1,2,3,4)] by blast
  moreover have "intact ps s s'"
    using intact_owned [OF ok own] d(5) own calculation(3) by (cases "cs = []") (auto simp: owns_Nil intact_def)
  ultimately show ?thesis using refused(1) intact_filter by blast
next
  case (freed x)
  obtain t where t: "vgc_free E (fst x) s = Some t" "intact (remove1 x ps) s t"
    "sh_mmapBlockFirst (shared (hp t)) \<noteq> 0 \<or> sh_mmapBlockCount (shared (hp t)) = 0 \<longrightarrow>
      (\<exists>cs'. heap_ok t cs' \<and> owns cs' (remove1 x ps))"
    using free_owns [OF E ok own freed(2)] by blast
  moreover have "t = s'" using t(1) freed(3) by simp
  moreover have "intact (filter (\<lambda>x. x \<in> set ps') ps) s t" using t(2) freed(1) by (simp add: intact_def)
  ultimately show ?thesis using freed(1,4) by blast
next
  case (checked a)
  obtain t where "vgc_mallocCheckMMAP E a s = Some t" "heap_ok t cs" "hp t = hp s"
    using vgc_mallocCheckMMAP_ok [OF E ok checked(2)] by blast
  then show ?thesis using checked(1,3) own by (auto simp: intact_def)
next
  case (switched t)
  then show ?thesis using heap_ok_self [OF ok] own by auto
qed

lemma client_invariant:
  assumes E: "reliable E" and mm: "mmap_ok E"
  shows "client E s ps \<Longrightarrow> \<exists>cs. heap_ok s cs \<and> owns cs ps"
proof (induction rule: client.induct)
  case (loaded s0 a s)
  let ?a = "env_mmap E (ticks s0) (maps (hp s0)) sizeof_VGC_shared"
  have a: "?a \<noteq> MAP_FAILED"
    using createShared_unmapped [of E s0 4096] loaded
    by (auto simp: initializeShared_def initializeShared_sized_def createShared_def)
  then have "?a = a" "a \<noteq> 0"
    using loaded by (auto simp: initializeShared_def initializeShared_sized_def createShared_def createShared_sized_def mmap_def Let_def
        split: if_splits prod.splits Option.bind_splits)
  then have "heap_ok s []" using initializeShared_ok [OF E, of s0 a] a loaded(1) by auto
  then show ?case by (auto simp: owns_Nil)
next
  case (called s ps s' ps')
  then show ?case using lib_step_invariant [OF E mm] by blast
next
  case (stored s ps f)
  then show ?case using heap_ok_bytes by blast
qed

section \<open>What a client can rely on\<close>

lemma client_live:
  assumes E: "reliable E" and mm: "mmap_ok E" and cl: "client E s ps"
  shows "\<forall>x \<in> set ps. access_ok (fst x) (unat (snd x)) s" "distinct ps"
    "\<forall>x \<in> set ps. \<forall>y \<in> set ps. x \<noteq> y \<longrightarrow> user_area (fst x) (snd x) \<inter> user_area (fst y) (snd y) = {}"
proof -
  obtain cs where ok: "heap_ok s cs" and own: "owns cs ps" using client_invariant [OF E mm cl] by blast
  have serving: "\<exists>b \<in> set (live cs). serves x b" if "x \<in> set ps" for x using own that by (simp add: owns_def)
  show "\<forall>x \<in> set ps. access_ok (fst x) (unat (snd x)) s"
    using serving serves_block(3) [OF ok] by blast
  show "distinct ps" using own by (auto simp: owns_def distinct_map)
  have "user_area (fst x) (snd x) \<inter> user_area (fst y) (snd y) = {}"
    if x: "x \<in> set ps" and y: "y \<in> set ps" and "x \<noteq> y" for x y
  proof -
    obtain b d where b: "b \<in> set (live cs)" "serves x b" and d: "d \<in> set (live cs)" "serves y d"
      using serving x y by metis
    have "hdr x \<noteq> hdr y" using own x y \<open>x \<noteq> y\<close> by (auto simp: owns_def distinct_map inj_on_def)
    then have "b \<noteq> d" using serves_hdr b(2) d(2) by metis
    then have "area b \<inter> area d = {}" using live_areas_apart [OF ok b(1) d(1)] by blast
    then show ?thesis using serves_block(1) [OF ok b] serves_block(1) [OF ok d] by blast
  qed
  then show "\<forall>x \<in> set ps. \<forall>y \<in> set ps. x \<noteq> y \<longrightarrow> user_area (fst x) (snd x) \<inter> user_area (fst y) (snd y) = {}"
    by blast
qed

lemma client_progress:
  assumes E: "reliable E" and mm: "mmap_ok E" and cl: "client E s ps"
  shows "\<exists>p s'. vgc_malloc E sz s = Some (p, s')" "\<forall>x \<in> set ps. \<exists>s'. vgc_free E (fst x) s = Some s'"
    "\<exists>s'. vgc_mallocCheckMMAP E a s = Some s'"
proof -
  obtain cs where ok: "heap_ok s cs" and own: "owns cs ps" using client_invariant [OF E mm cl] by blast
  show "\<exists>p s'. vgc_malloc E sz s = Some (p, s')"
  proof (cases "cs = []")
    case True
    show ?thesis
    proof (cases "room E s")
      case room: True
      then obtain x n s1 where "heap_ok s1 [fresh_chunk x n]" "vgc_malloc E sz s = vgc_malloc E sz s1"
        using vgc_malloc_first [OF E mm] ok True by metis
      then show ?thesis using vgc_malloc_all [OF E mm, of s1 "[fresh_chunk x n]" sz] by auto
    next
      case False
      then show ?thesis using vgc_malloc_no_room [OF E mm] ok True by metis
    qed
  qed (use vgc_malloc_all [OF E mm ok] in blast)
  show "\<forall>x \<in> set ps. \<exists>s'. vgc_free E (fst x) s = Some s'" using free_owns [OF E ok own] by blast
  show "\<exists>s'. vgc_mallocCheckMMAP E a s = Some s'"
    using vgc_mallocCheckMMAP_ok [OF E ok, of a] by (cases "a = 0") (auto simp: vgc_mallocCheckMMAP_def)
qed

lemma client_intact:
  assumes "reliable E" and "mmap_ok E" and "client E s ps" and "lib_step E (s, ps) (s', ps')"
  shows "intact (filter (\<lambda>x. x \<in> set ps') ps) s s'"
  using client_invariant [OF assms(1-3)] lib_step_invariant [OF assms(1,2,4)] by blast

section \<open>A run\<close>

lemma demo_first_call: "vgc_malloc demo_env sz demo0 = vgc_malloc demo_env sz demo1"
proof -
  note w = heap_okD [OF demo0_ok]
  have first: "sh_mmapBlockFirst (shared (hp demo1)) = 0x20000000"
    using heap_okD(2) [OF demo1_ok] by (simp add: demo_chunk_def)
  obtain t where t: "mmapBlockAllocate demo_env 32768000 0 demo0 = Some (0x20000000, t)"
    using demo1_alloc by blast
  then have "upd_shared (\<lambda>h. h\<lparr>sh_mmapBlockFirst := 0x20000000\<rparr>) t = demo1" by (simp add: demo1_def)
  then show ?thesis
    using w(2) t cfgD(2) [OF w(1)] first by (simp add: vgc_malloc_def)
qed

lemma demo_client0: "client demo_env demo0 []"
  by (rule client.loaded [OF demo0_load]) (simp add: blank_def)

lemma demo_client2: "client demo_env demo2 [(0x20003F9C, 100)]"
  by (rule client.called [OF demo_client0])
    (rule lib_step.given [where sz = 100], simp_all add: demo_first_call demo2_run)

lemma demo_client3: "client demo_env demo3 [(0x20006F9C, 100), (0x20003F9C, 100)]"
  by (rule client.called [OF demo_client2]) (rule lib_step.given [OF demo3_run], simp_all)

end
