(* ===== verification/Corrupt.thy ===== *)
theory Corrupt
  imports Session
begin

text \<open>
  Headers that were overwritten: what \<^verbatim>\<open>checkMmapBlock\<close> and the test of the check bytes find, and
  that \<^verbatim>\<open>vgc_free\<close> then leaves the blocks alone.
\<close>

section \<open>An overwritten header\<close>

definition overwrite :: "addr \<Rightarrow> (VGC_mallocHeader \<Rightarrow> VGC_mallocHeader) \<Rightarrow> state \<Rightarrow> state" where
  "overwrite a f s =
     s\<lparr>hp := (hp s)\<lparr>mallocH := (mallocH (hp s))(a := map_option f (mallocH (hp s) a))\<rparr>\<rparr>"

lemma overwrite_sel [simp]:
  "mallocH (hp (overwrite a f s)) = (mallocH (hp s))(a := map_option f (mallocH (hp s) a))"
  "shared (hp (overwrite a f s)) = shared (hp s)" "mmapH (hp (overwrite a f s)) = mmapH (hp s)"
  "bytes (hp (overwrite a f s)) = bytes (hp s)" "prot (hp (overwrite a f s)) = prot (hp s)"
  "maps (hp (overwrite a f s)) = maps (hp s)" "mtx (overwrite a f s) = mtx s"
  "attrs (overwrite a f s) = attrs s" "self (overwrite a f s) = self s"
  by (simp_all add: overwrite_def)

section \<open>The dump follows the next pointers only\<close>

fun nexts :: "heap \<Rightarrow> blk list \<Rightarrow> addr \<Rightarrow> bool" where
  "nexts h [] n = True"
| "nexts h (b # bs) n \<longleftrightarrow>
     (case mallocH h (b_addr b) of None \<Rightarrow> False | Some hr \<Rightarrow> mb_next hr = first_addr bs n) \<and> nexts h bs n"

lemma nexts_seg: "seg h m p bs n \<Longrightarrow> nexts h bs n"
  by (induction bs arbitrary: p) (auto elim: holdsE)

lemma nexts_mono:
  assumes "nexts h bs n"
    and "\<forall>a. map_option mb_next (mallocH h' a) = map_option mb_next (mallocH h a)"
  shows "nexts h' bs n"
  using assms(1)
proof (induction bs)
  case (Cons b bs)
  then show ?case using assms(2) [rule_format, of "b_addr b"] by (auto split: option.splits)
qed simp

lemma dumpLoop_nexts:
  assumes E: "reliable E" and "nexts h bs 0" and "\<forall>b \<in> set bs. b_addr b \<noteq> 0"
  shows "\<exists>r. dumpLoop E h i (first_addr bs 0) t out = Some r"
  using assms(2-)
proof (induction bs arbitrary: i t out)
  case Nil
  then show ?case by (cases t) (simp add: dumpLoop.simps)
next
  case (Cons b bs)
  then obtain hr where "mallocH h (b_addr b) = Some hr" "mb_next hr = first_addr bs 0"
    by (auto split: option.splits)
  moreover obtain tr where "(if mb_status hr = VGC_MALLOC_BUSY then vgc_stacktraceShow E hr else Some []) = Some tr"
    using block_trace_some [OF E] by blast
  ultimately show ?case using Cons by (cases t) (subst dumpLoop.simps, simp)
qed

lemma block_nonzero: "chunk_shape c \<Longrightarrow> b \<in> set (c_blks c) \<Longrightarrow> b_addr b \<noteq> 0"
  using in_chunk(1) [of c b] by auto

lemma dumpMmapBlock_nexts:
  assumes E: "reliable E" and shape: "chunk_shape c" and nx: "nexts (hp s) (c_blks c) 0"
  shows "\<exists>ms. dumpMmapBlock E (c_addr c) s = Some (s\<lparr>msgs := ms\<rparr>)"
proof -
  obtain out x y z where "dumpLoop E (hp s) 0 (first_addr (c_blks c) 0) (0, 0, 0)
      [DumpHead (c_addr c)] = Some (out, x, y, z)"
    using dumpLoop_nexts [OF E nx] block_nonzero [OF shape] by (metis prod.collapse)
  with chunk_shapeD(1) [OF shape] show ?thesis
    using fold_report_msgs [of INFO_LEVEL "out @ [DumpTotals (sh_mmapBlockSize (shared (hp s))) x y
      (x + y) (sh_mmapBlockSize (shared (hp s)) - sizeof_mmapHeader - z)]" s]
    by (simp add: dumpMmapBlock_def first_header [OF shape] Let_def)
qed

section \<open>The check finds a broken chain\<close>

text \<open>A header \<open>hy\<close> after intact ones whose back link or size is wrong.\<close>

lemma checkLoop_broken:
  assumes "seg h m p xs (b_addr y)" and "layout a (xs @ y # ys) e" and "0 < a"
    and "unat m \<le> a" and "e \<le> unat m + unat (sh_mmapBlockSize (shared h))"
    and "unat m + unat (sh_mmapBlockSize (shared h)) < 2 ^ 64"
    and "\<forall>b \<in> set xs. b_size b \<le> mx" and hy: "mallocH h (b_addr y) = Some hy"
    and "xs \<noteq> [] \<and> mb_prev hy \<noteq> b_addr (last xs) \<or> mx < mb_size hy"
  shows "\<exists>cpl. checkLoop h m mx (first_addr (xs @ [y]) 0) t = Some (Inl cpl)"
  using assms(1-7,9)
proof (induction xs arbitrary: p a t)
  case Nil
  then have "b_addr y \<noteq> 0" by auto
  then show ?case using Nil hy by (subst checkLoop.simps) simp
next
  case (Cons b bs)
  from Cons.prems obtain hr where hr: "mallocH h (b_addr b) = Some hr" "mb_size hr = b_size b"
    "mb_next hr = first_addr (bs @ [y]) 0"
    by (auto elim: holdsE)
  have nz: "b_addr b \<noteq> 0" using Cons.prems by auto
  have end_b: "unat (b_addr b) + 8192 + unat (b_size b) \<le> e"
    using layout_bounds [OF Cons.prems(2), of b] by simp
  have small: "\<not> mx < b_size b" using Cons.prems by auto
  have ptr: "\<not> (b_addr b < m \<or> m + sh_mmapBlockSize (shared h) < b_addr b)"
    using Cons.prems end_b by (auto simp: word_less_nat_alt unat_add_ok)
  have rest: "\<exists>cpl. checkLoop h m mx (first_addr (bs @ [y]) 0) (add_sums hr t) = Some (Inl cpl)"
    if "bs \<noteq> [] \<and> mb_prev hy \<noteq> b_addr (last bs) \<or> mx < mb_size hy"
    using Cons.IH [of "b_addr b" "a + 8192 + unat (b_size b)" "add_sums hr t"] Cons.prems that by auto
  show ?case
  proof (cases bs)
    case Nil
    have "b_addr y \<noteq> 0" using Cons.prems Nil by auto
    then show ?thesis
      using hr nz small ptr hy Nil rest Cons.prems(8) by (subst checkLoop.simps) auto
  next
    case (Cons d ds)
    with Cons.prems obtain hd where "mallocH h (b_addr d) = Some hd" "mb_prev hd = b_addr b"
      by (auto elim: holdsE)
    moreover have "b_addr d \<noteq> 0" using Cons Cons.prems by auto
    ultimately show ?thesis
      using hr nz small ptr Cons rest Cons.prems(8) by (subst checkLoop.simps) auto
  qed
qed

section \<open>Releasing a block of a damaged chunk\<close>

lemma isInLoop_same:
  assumes "chain s p cs 0" and "mmapH h = mmapH (hp s)" and "shared h = shared (hp s)"
  shows "isInLoop h ptr (first_chunk cs 0) = isInLoop (hp s) ptr (first_chunk cs 0)"
  using assms(1)
proof (induction cs arbitrary: p)
  case (Cons c cs)
  have hdr: "mmapH (hp s) (c_addr c) = Some (chunk_hdr p (first_chunk cs 0) c)"
    using Cons.prems by (simp add: chunk_ok_def chunk_mem_def)
  have "isInLoop h ptr (first_chunk cs 0) = isInLoop (hp s) ptr (first_chunk cs 0)"
    using Cons.IH [of "c_addr c"] Cons.prems by simp
  then show ?case
    using hdr assms(2,3)
    by (subst (1 2) isInLoop.simps) (simp add: chunk_hdr_def)
qed (simp add: isInLoop.simps)

text \<open>
  The steps of \<^verbatim>\<open>vgc_free\<close> up to the check of the header bytes, on a heap whose malloc headers were
  changed; \<open>b'\<close> is the header it finds.
\<close>

lemma vgc_free_enters:
  assumes E: "reliable E" and ok: "heap_ok s cs" and c: "c \<in> set cs" "b \<in> set (c_blks c)"
    and ptr: "points_to ptr b"
  shows "\<exists>t. PTHREAD_mutexLock E MShared (overwrite a f s) = Some (True, t) \<and> ptr \<noteq> 0 \<and>
     isInMmapBlock ptr t = Some True \<and> header_of ptr t = b_addr b \<and> hp t = hp (overwrite a f s) \<and>
     self t = self s \<and> mtx t = (mtx s)(MShared := held_mutex (self s))"
proof -
  note w = heap_okD [OF ok]
  let ?s = "overwrite a f s"
  let ?t = "?s\<lparr>ticks := Suc (ticks ?s), mtx := (mtx ?s)(MShared := (mtx ?s MShared)\<lparr>pm_lock := Locked (self ?s)\<rparr>)\<rparr>"
  have lock: "PTHREAD_mutexLock E MShared ?s = Some (True, ?t)"
    using E w(6) by (simp add: PTHREAD_mutexLock_free)
  have shape: "chunk_shape c" using chain_shape [OF w(4) c(1)] .
  have "isInLoop (hp s) ptr (first_chunk cs 0) = Some True"
    using isInLoop_chain [OF w(4,1) c(1), of ptr] in_chunk(1,2) [OF shape c(2)] ptr
    by (auto simp: points_to_def)
  then have inside: "isInMmapBlock ptr ?t = Some True"
    using isInLoop_same [OF w(4), of "hp ?t" ptr] w(2) by (simp add: isInMmapBlock_def)
  have "cfg ?t" using w(1) by (simp add: cfg_def)
  then have "header_of ptr ?t = b_addr b"
    using header_of_points_to [OF _ ptr in_chunk(4) [OF shape c(2)]] by blast
  moreover have "ptr \<noteq> 0" using ptr by (auto simp: points_to_def word_eq_unat)
  ultimately show ?thesis
    using lock inside w(6) by (intro exI [of _ ?t]) (simp add: held_mutex_def)
qed

lemma chunk_at:
  assumes "heap_ok s cs" and "c \<in> set cs"
  shows "\<exists>p n. chunk_mem (hp s) p n c \<and> mtx s (MBlock (c_addr c)) = free_mutex"
  using chain_ok_at [OF heap_okD(4) [OF assms(1)] assms(2)] by (auto simp: chunk_ok_def)

lemma block_header:
  assumes "chunk_mem h p n c" and "b \<in> set (c_blks c)"
  shows "\<exists>hb. mallocH h (b_addr b) = Some hb \<and> mb_checkStart hb = 0xAA \<and> mb_checkEnd hb = 0xAA \<and>
     mb_mmapBlock hb = c_addr c"
proof -
  obtain xs ys where "c_blks c = xs @ b # ys" using assms(2) by (auto simp: in_set_conv_decomp)
  then show ?thesis using chunk_memD(3) [OF assms(1)] by (auto elim!: holdsE)
qed

text \<open>
  A change of a check byte. The block's own chunk is dumped, which needs its next pointers only.
\<close>

lemma free_check_byte:
  assumes E: "reliable E" and ok: "heap_ok s cs" and c: "c \<in> set cs" "b \<in> set (c_blks c)"
    and ptr: "points_to ptr b"
    and f: "\<And>h. mb_next (f h) = mb_next h" "\<And>h. mb_mmapBlock (f h) = mb_mmapBlock h"
    and bad: "\<And>h. mb_checkStart (f h) \<noteq> 0xAA \<or> mb_checkEnd (f h) \<noteq> 0xAA"
  shows "\<exists>s'. vgc_free E ptr (overwrite (b_addr b) f s) = Some s' \<and> hp s' = hp (overwrite (b_addr b) f s) \<and>
     mtx s' MShared = free_mutex"
proof -
  let ?s = "overwrite (b_addr b) f s"
  obtain p n where mem: "chunk_mem (hp s) p n c" using chunk_at [OF ok c(1)] by blast
  obtain hb where hb: "mallocH (hp s) (b_addr b) = Some hb" "mb_mmapBlock hb = c_addr c"
    using block_header [OF mem c(2)] by blast
  obtain t where t: "PTHREAD_mutexLock E MShared ?s = Some (True, t)" "ptr \<noteq> 0" "isInMmapBlock ptr t = Some True"
    "header_of ptr t = b_addr b" "hp t = hp ?s" "self t = self s" "mtx t = (mtx s)(MShared := held_mutex (self s))"
    using vgc_free_enters [OF E ok c ptr] by blast
  obtain u where u: "unlock_reporting E F_vgc_free MShared t = Some u" "hp u = hp t"
    "mtx u = (mtx t)(MShared := free_mutex)"
    using unlock_shared_ok [OF E, of t F_vgc_free] t(6,7) by (auto simp: held_mutex_def)
  let ?v = "report ERROR_LEVEL (Rep F_vgc_free S_checksum_malloc) (report ERROR_LEVEL (Rep F_vgc_free S_free) u)"
  have "nexts (hp s) (c_blks c) 0" using nexts_seg [OF chunk_memD(3) [OF mem]] .
  then have "nexts (hp ?v) (c_blks c) 0"
    using f(1) by (rule_tac nexts_mono) (auto simp: u(2) t(5) option.map_comp comp_def)
  then obtain ms where "dumpMmapBlock E (c_addr c) ?v = Some (?v\<lparr>msgs := ms\<rparr>)"
    using dumpMmapBlock_nexts [OF E chunk_memD(1) [OF mem]] by blast
  then show ?thesis
    using t(1-5) u hb f(2) bad [of hb]
    by (simp add: vgc_free_def get_mb_def Let_def)
qed

text \<open>A change of a back link or of a size is found by the walk of \<^verbatim>\<open>checkMmapBlock\<close>.\<close>

lemma checkMmapBlock_broken:
  assumes E: "reliable E" and mem: "chunk_mem (hp s) p n c" and bs: "c_blks c = xs @ y # ys" and cfg: "cfg s"
    and f: "\<And>h. mb_next (f h) = mb_next h"
    and bad: "\<And>h. xs \<noteq> [] \<and> mb_prev (f h) \<noteq> b_addr (last xs) \<or> mm_maxSize (chunk_hdr p n c) < mb_size (f h)"
    and t: "mallocH (hp t) = mallocH (hp (overwrite (b_addr y) f s))" "shared (hp t) = shared (hp s)"
      "mmapH (hp t) (c_addr c) = Some ((chunk_hdr p n c)\<lparr>mm_elements := e\<rparr>)"
  shows "\<exists>ms. checkMmapBlock E (c_addr c) t = Some (False, t\<lparr>msgs := ms\<rparr>)"
proof -
  note m = chunk_memD [OF mem] and sh = chunk_shapeD [OF chunk_memD(1) [OF mem]]
  have lay: "layout (unat (c_addr c) + 4096) (xs @ y # ys) (unat (c_addr c) + unat (c_size c))"
    using sh(6) bs by simp
  obtain hy where hy: "mallocH (hp s) (b_addr y) = Some hy"
    using m(3) bs by (auto elim!: holdsE)
  have "b_addr b \<noteq> b_addr y" if "b \<in> set xs" for b using layout_addr_inj [OF lay] that by auto
  then have pre: "seg (hp t) (c_addr c) 0 xs (b_addr y)"
    using m(3) bs by (subst seg_frame [where h = "hp s"]) (auto simp: t(1))
  have small: "\<forall>b \<in> set xs. b_size b \<le> mm_maxSize (chunk_hdr p n c)"
    using chunk_maxSize [OF m(1)] bs by simp
  have "mallocH (hp t) (b_addr y) = Some (f hy)" using hy by (simp add: t(1))
  moreover have "first_addr (c_blks c) 0 = first_addr (xs @ [y]) 0" using bs by (cases xs) auto
  ultimately obtain cpl where cpl: "checkLoop (hp t) (c_addr c) (mm_maxSize (chunk_hdr p n c))
      (first_addr (c_blks c) 0) (0, 0, 0) = Some (Inl cpl)"
    using checkLoop_broken [OF pre lay _ _ _ _ small _ bad, where t = "(0, 0, 0)"] sh cfgD [OF cfg] by (auto simp: t(2))
  obtain ms where ms: "report ERROR_LEVEL (Rep F_checkMmapBlock cpl) t = t\<lparr>msgs := ms\<rparr>"
    using report_msgs by blast
  have "nexts (hp s) (c_blks c) 0" using nexts_seg [OF m(3)] .
  then have "nexts (hp (t\<lparr>msgs := ms\<rparr>)) (c_blks c) 0"
    using f by (rule_tac nexts_mono) (auto simp: t(1) option.map_comp comp_def)
  then obtain ms' where "dumpMmapBlock E (c_addr c) (t\<lparr>msgs := ms\<rparr>) = Some (t\<lparr>msgs := ms'\<rparr>)"
    using dumpMmapBlock_nexts [OF E m(1), of "t\<lparr>msgs := ms\<rparr>"] by auto
  then show ?thesis
    using cpl ms t(3) by (intro exI [of _ ms']) (simp add: checkMmapBlock_def get_mm_def first_header [OF m(1)])
qed

text \<open>
  Whatever block of the chunk is released then, none is: only the count of the elements was
  already taken down.
\<close>

lemma free_broken_chain:
  assumes E: "reliable E" and ok: "heap_ok s cs" and c: "c \<in> set cs" "b \<in> set (c_blks c)"
    and ptr: "points_to ptr b" and bs: "c_blks c = xs @ y # ys"
    and f: "\<And>h. mb_next (f h) = mb_next h" "\<And>h. mb_mmapBlock (f h) = mb_mmapBlock h"
      "\<And>h. mb_checkStart (f h) = mb_checkStart h" "\<And>h. mb_checkEnd (f h) = mb_checkEnd h"
    and bad: "\<And>h. xs \<noteq> [] \<and> mb_prev (f h) \<noteq> b_addr (last xs) \<or> max_request [c] < mb_size (f h)"
  shows "\<exists>s' h. vgc_free E ptr (overwrite (b_addr y) f s) = Some s' \<and>
     mmapH (hp s) (c_addr c) = Some h \<and>
     hp s' = (hp (overwrite (b_addr y) f s))\<lparr>mmapH := (mmapH (hp s))(c_addr c \<mapsto> h\<lparr>mm_elements := mm_elements h - 1\<rparr>)\<rparr> \<and>
     mtx s' = mtx s"
proof -
  let ?s = "overwrite (b_addr y) f s" and ?m = "c_addr c"
  obtain p n where mem: "chunk_mem (hp s) p n c" and lk: "mtx s (MBlock ?m) = free_mutex"
    using chunk_at [OF ok c(1)] by blast
  note m = chunk_memD [OF mem]
  obtain hb where hb: "mallocH (hp s) (b_addr b) = Some hb" "mb_checkStart hb = 0xAA"
    "mb_checkEnd hb = 0xAA" "mb_mmapBlock hb = ?m"
    using block_header [OF mem c(2)] by blast
  have bad': "xs \<noteq> [] \<and> mb_prev (f h) \<noteq> b_addr (last xs) \<or> mm_maxSize (chunk_hdr p n c) < mb_size (f h)" for h
    using bad [of h] by (simp add: chunk_hdr_def max_request_def)
  obtain t where t: "PTHREAD_mutexLock E MShared ?s = Some (True, t)" "ptr \<noteq> 0" "isInMmapBlock ptr t = Some True"
    "header_of ptr t = b_addr b" "hp t = hp ?s" "self t = self s" "mtx t = (mtx s)(MShared := held_mutex (self s))"
    using vgc_free_enters [OF E ok c ptr] by blast
  define h where "h = chunk_hdr p n c"
  have hb': "\<exists>h'. get_mb (b_addr b) t = Some h' \<and> mb_checkStart h' = 0xAA \<and> mb_checkEnd h' = 0xAA \<and> mb_mmapBlock h' = ?m"
    using hb f by (cases "b_addr b = b_addr y") (auto simp: get_mb_def t(5))
  have hm: "get_mm ?m t = Some h" "mm_checkStart h = 0xAA" "mm_checkEnd h = 0xAA"
    using m(2) by (simp_all add: get_mm_def t(5) h_def chunk_hdr_def)
  define u where "u = report VGC_MALLOC_DEBUG_LEVEL (Rep F_vgc_free S_free)
    (put_mm ?m (h\<lparr>mm_elements := mm_elements h - 1\<rparr>) t)"
  have u1: "upd_mm ?m (\<lambda>h. h\<lparr>mm_elements := mm_elements h - 1\<rparr>) t = Some (put_mm ?m (h\<lparr>mm_elements := mm_elements h - 1\<rparr>) t)"
    using hm(1) by (simp add: upd_mm_def)
  define v where "v = u\<lparr>ticks := Suc (ticks u), mtx := (mtx u)(MBlock ?m := held_mutex (self u))\<rparr>"
  have v1: "PTHREAD_mutexLock E (MBlock ?m) u = Some (True, v)"
    using E lk t(7) by (simp add: PTHREAD_mutexLock_free v_def u_def held_mutex_def)
  have hpv: "hp v = (hp ?s)\<lparr>mmapH := (mmapH (hp s))(?m \<mapsto> h\<lparr>mm_elements := mm_elements h - 1\<rparr>)\<rparr>"
    by (simp add: v_def u_def put_mm_def t(5))
  obtain ms where chk: "checkMmapBlock E ?m v = Some (False, v\<lparr>msgs := ms\<rparr>)"
    using checkMmapBlock_broken [OF E mem bs heap_okD(1) [OF ok] f(1) bad', of v] hpv by (auto simp: h_def)
  have mv: "mtx v = (mtx s)(MShared := held_mutex (self s), MBlock ?m := held_mutex (self s))" "self v = self s"
    using t(6,7) by (simp_all add: v_def u_def)
  obtain w where w: "unlock_reporting E F_vgc_free (MBlock ?m) (v\<lparr>msgs := ms\<rparr>) = Some w" "hp w = hp v" "self w = self s"
    "mtx w = (mtx s)(MShared := held_mutex (self s))"
    using unlock_reporting_ok [OF E, of "v\<lparr>msgs := ms\<rparr>" "MBlock ?m" F_vgc_free] mv lk
    by (auto simp: held_mutex_def fun_eq_iff)
  obtain x where x: "unlock_reporting E F_vgc_free MShared w = Some x" "hp x = hp v" "mtx x = mtx s"
    using unlock_shared_ok [OF E, of w F_vgc_free] w heap_okD(6) [OF ok] by (auto simp: held_mutex_def fun_upd_idem)
  have "vgc_free E ptr ?s = Some (report ERROR_LEVEL (Rep F_vgc_free S_checkMmapBlock) x)"
    using t(1-4) hb' hm u1 v1 chk w(1) x(1)
    by (auto simp: vgc_free_def u_def [symmetric] Let_def)
  then show ?thesis using hpv x m(2) by (auto simp: h_def)
qed

end
