(* ===== verification/Edges.thy ===== *)
theory Edges
  imports Live
begin

unbundle bit_operations_syntax

text \<open>
  Where the code does something its comments do not say: requests of whole pages, the release
  of the first mmap block, a first \<^verbatim>\<open>mmap\<close> that fails, the header \<^verbatim>\<open>vgc_realloc\<close> reads, errors
  while an mmap block is made, and the check of a small mmap block.
\<close>

section \<open>Requests of whole pages\<close>

text \<open>
  The offset of the result into the block is \<open>4096 - sz mod 4096\<close>, a whole page when \<open>sz\<close> is a
  multiple of the page size; the user's bytes then end one page after the block's.
\<close>

lemma header_of_page_start:
  assumes "cfg s" and "4096 dvd unat p"
  shows "header_of p s = p - 8192"
proof -
  have "unat (p div 4096 * 4096) = unat p" using assms(2) by (simp add: page_floor_unat)
  then have "p AND NOT (4096 - 1) = p" by (simp only: and_not_page word_eq_unat)
  then show ?thesis using cfgD [OF assms(1)] by (simp add: header_of_def)
qed

lemma page_multiple_handed:
  assumes E: "reliable E" and mm: "mmap_ok E" and ok: "heap_ok s cs" and ne: "cs \<noteq> []"
    and run: "vgc_malloc E sz s = Some (p, s')" and p: "p \<noteq> 0" and pm: "unat sz mod 4096 = 0"
  shows "\<exists>cs' h ys. heap_ok s' cs' \<and> handed cs' (p, sz) h ys \<and> p = b_addr h + 12288 \<and>
    header_of p s' = b_addr h + 4096 \<and>
    (if ys \<noteq> [] \<and> is_free (hd ys)
     then b_size h = sz \<and> p + sz = b_addr (hd ys) + 4096 \<and> (\<forall>x. in_range (b_addr (hd ys)) 4096 x \<longrightarrow> prot (hp s') x)
     else b_size h \<le> sz + sizeof_mallocHeader)"
proof -
  have z: "sz mod 4096 = 0" using pm by (simp add: word_eq_unat unat_mod_4096)
  then have L: "page_round 4096 sz = sz" by (simp add: page_round_def)
  obtain cs' h ys where h: "heap_ok s' cs'" "handed cs' (p, sz) h ys"
    "if ys \<noteq> [] \<and> is_free (hd ys)
     then b_size h = sz \<and> b_addr (hd ys) = b_addr h + (sz + sizeof_mallocHeader) \<and>
       (\<forall>x. in_range (b_addr (hd ys)) 4096 x \<longrightarrow> prot (hp s') x)
     else b_size h \<le> sz + sizeof_mallocHeader"
    using vgc_malloc_handed_in [OF E mm ok ne run p] unfolding L by metis
  then have peq: "p = b_addr h + 12288" using z by (simp add: handed_def user_memory_def memory_offset_eq)
  obtain c where c: "c \<in> set cs'" "h \<in> set (c_blks c)" using h(2) by (auto simp: handed_def)
  note sh = chain_shape [OF heap_okD(4) [OF h(1)] c(1)]
  have "unat (b_addr h) + 8192 \<le> 140737488355328"
    using in_chunk(2) [OF sh c(2)] chunk_shapeD(3) [OF sh] by simp
  then have "unat p = unat (b_addr h) + 12288" by (simp add: peq unat_add_ok)
  then have "4096 dvd unat p" using in_chunk(4) [OF sh c(2)] by simp
  then have "header_of p s' = b_addr h + 4096"
    using header_of_page_start [OF heap_okD(1) [OF h(1)]] peq by simp
  then show ?thesis using h peq by (intro exI [of _ cs'] exI [of _ h] exI [of _ ys]) (auto simp: algebra_simps)
qed

section \<open>Releasing the first mmap block\<close>

lemma free_first_loses_rest:
  assumes E: "reliable E" and ok: "heap_ok s (c # vs)" and bs: "c_blks c = xs @ b # ys"
    and busy: "\<not> is_free b" and ptr: "points_to ptr b" and single: "tl (release xs b ys) = []"
  shows "\<exists>s'. vgc_free E ptr s = Some s' \<and> sh_mmapBlockFirst (shared (hp s')) = 0 \<and>
     sh_mmapBlockCount (shared (hp s')) = int (length vs) \<and> chain s' 0 vs 0 \<and>
     (\<forall>q. isInMmapBlock q s' = Some False)"
proof -
  obtain s' where s': "vgc_free E ptr s = Some s'" "wf_at s' 0 vs"
    using vgc_free_gone [OF E _ bs busy ptr single, of s "[]" vs] ok by auto
  have "isInMmapBlock q s' = Some False" for q
    using s'(2) by (simp add: wf_at_def isInMmapBlock_def isInLoop.simps)
  with s' show ?thesis by (auto simp: wf_at_def)
qed

section \<open>A first mmap that fails\<close>

lemma first_mmap_fails:
  assumes E: "reliable E" and ok: "heap_ok s []"
    and none: "env_mmap E (ticks s) (maps (hp s)) 32768000 = MAP_FAILED"
      "env_mmap E (Suc (ticks s)) (maps (hp s)) 3276800 = MAP_FAILED"
    and no: "mmapH (hp s) MAP_FAILED = None" and "n \<noteq> 0"
  shows "\<exists>s'. vgc_malloc E sz s = Some (0, s') \<and> vgc_malloc E n s' = None"
proof -
  note w = heap_okD [OF ok]
  define t where "t = report ERROR_LEVEL (Rep F_allocMMAP S_mmap) (s\<lparr>ticks := Suc (ticks s)\<rparr>)"
  define u where "u = report ERROR_LEVEL (Rep F_allocMMAP S_mmap) (t\<lparr>ticks := Suc (ticks t)\<rparr>)"
  define v where "v = report ERROR_LEVEL (Rep F_mmapBlockAllocate S_allocMMAP) u"
  have "allocMMAP E 32768000 0 s = Some (MAP_FAILED, t)"
    using allocMMAP_fail [OF none(1)] by (simp add: t_def)
  moreover have "allocMMAP E 3276800 0 t = Some (MAP_FAILED, u)"
    using allocMMAP_fail [of E t 3276800] none(2) by (simp add: t_def u_def)
  ultimately have a: "mmapBlockAllocate E 32768000 0 s = Some (MAP_FAILED, v)"
    by (simp add: mmapBlockAllocate_def v_def)
  define s' where "s' = upd_shared (\<lambda>h. h\<lparr>sh_mmapBlockFirst := MAP_FAILED\<rparr>) v"
  have "vgc_malloc E sz s = Some (0, s')"
    using w(2) a cfgD(2) [OF w(1)] by (simp add: vgc_malloc_def s'_def)
  moreover have "vgc_malloc E n s' = None"
  proof -
    have "sh_mmapBlockFirst (shared (hp s')) = MAP_FAILED" "get_mm MAP_FAILED s' = None"
      "sh_isMprotectEnabled (shared (hp s'))"
      using no cfgD(3) [OF w(1)] by (simp_all add: s'_def upd_shared_def v_def u_def t_def get_mm_def)
    then show ?thesis using \<open>n \<noteq> 0\<close> by (simp add: vgc_malloc_def Let_def)
  qed
  ultimately show ?thesis by blast
qed

section \<open>The header vgc_realloc reads\<close>

lemma realloc_header_misses:
  assumes ok: "heap_ok s cs" and c: "c \<in> set cs" "b \<in> set (c_blks c)" and off: "unat sz mod 4096 \<noteq> 0"
    and d: "d \<in> set cs" "b' \<in> set (c_blks d)"
  shows "user_memory sz (b_addr b) - sizeof_mallocHeader \<noteq> b_addr b'"
proof
  note sc = chain_shape [OF heap_okD(4) [OF ok] c(1)] and sd = chain_shape [OF heap_okD(4) [OF ok] d(1)]
  assume "user_memory sz (b_addr b) - sizeof_mallocHeader = b_addr b'"
  then have "unat (user_memory sz (b_addr b) - 8192) = unat (b_addr b')" by simp
  then have "unat (b_addr b) + (4096 - unat sz mod 4096) = unat (b_addr b')"
    using user_memory_unat(1) [OF sc c(2), of sz] by (simp add: unat_sub_ok)
  moreover have "4096 dvd unat (b_addr b)" "4096 dvd unat (b_addr b')"
    using in_chunk(4) [OF sc c(2)] in_chunk(4) [OF sd d(2)] .
  ultimately have "4096 dvd 4096 - unat sz mod 4096" by (metis dvd_add_right_iff)
  moreover have "0 < 4096 - unat sz mod 4096" "4096 - unat sz mod 4096 < 4096" using off by simp_all
  ultimately show False by (meson dvd_imp_le not_le)
qed

section \<open>An error while an mmap block is made\<close>

text \<open>\<^verbatim>\<open>munmap\<close> is called with the size field of the header, which is not set yet.\<close>

lemma allocMMAP_leaks:
  assumes a: "env_mmap E (ticks s) (maps (hp s)) n = a" "a \<noteq> MAP_FAILED"
    and fail: "env_fail E (Suc (ticks s)) = Some e" "env_fail E (Suc (Suc (ticks s))) = None"
    and n: "4096 \<le> unat n"
  shows "\<exists>s'. allocMMAP E n l s = Some (MAP_FAILED, s') \<and> (a, n) \<in> set (maps (hp s'))"
proof -
  obtain s1 where s1: "mmap E n s = (a, s1)" "ticks s1 = Suc (ticks s)" "maps (hp s1) = (a, n) # maps (hp s)"
    "\<forall>x. in_range a n x \<longrightarrow> mmapH (hp s1) x = None"
    using a by (simp add: mmap_def clear_range_def Let_def)
  have "in_range a n a" using n by (simp add: in_range_def)
  then have "cast_mm a s1 = Some zero_mmapHeader"
    using s1(3,4) n mapped_in_region [of a n s1 a 4096] by (simp add: cast_mm_def get_mm_def)
  then show ?thesis
    using s1 a(2) fail
    by (simp add: allocMMAP_def PTHREAD_mutexattrInit_def sys_def failed_def unmap_reporting_def
        get_mm_def munmap_def zero_mmapHeader_def)
qed

section \<open>Checking a small mmap block\<close>

interpretation log: frame "\<lambda>(s :: state) t. set (msgs s) \<subseteq> set (msgs t)"
  by unfold_locales auto

lemma fold_report_keeps: "set (msgs s) \<subseteq> set (msgs (fold (report l) rs s))"
  by (rule log.fold_step) (auto simp: report_def)

lemma dumpMmapBlock_keeps:
  assumes "dumpMmapBlock E a s = Some s'"
  shows "set (msgs s) \<subseteq> set (msgs s')"
proof -
  have "\<exists>rs. s' = fold (report INFO_LEVEL) rs s"
    using assms by (auto simp: dumpMmapBlock_def Let_def simp del: fold_append
      split: if_splits Option.bind_splits prod.splits intro: exI [of _ "[]"])
  then show ?thesis using fold_report_keeps by blast
qed

lemma small_chunk_reported:
  assumes E: "reliable E" and ok: "heap_ok s cs" and c: "c \<in> set cs" and small: "c_size c \<noteq> 32768000"
    and lvl: "ERROR_LEVEL \<le> messageLevel s"
  shows "\<exists>s'. checkMmapBlock E (c_addr c) s = Some (True, s') \<and> Rep F_checkMmapBlock S_inconsistent \<in> set (msgs s')"
proof -
  obtain p n where "chunk_ok s p n c" using chain_ok_at [OF heap_okD(4) [OF ok] c] by blast
  then have mem: "chunk_mem (hp s) p n c" by (simp add: chunk_ok_def)
  note m = chunk_memD [OF mem]
  let ?t = "report ERROR_LEVEL (Rep F_checkMmapBlock S_inconsistent) s"
  have hdr: "mmapH (hp s) (c_addr c) = Some ((chunk_hdr p n c)\<lparr>mm_elements := of_nat (busy (c_blks c))\<rparr>)"
    using m(2) by (simp add: chunk_hdr_def)
  have "seg (hp ?t) (c_addr c) 0 (c_blks c) 0" using m(3) by simp
  then obtain s' where s': "dumpMmapBlock E (c_addr c) ?t = Some s'"
    using dumpMmapBlock_ok [OF E m(1), of ?t] by blast
  have "Rep F_checkMmapBlock S_inconsistent \<in> set (msgs ?t)" using lvl by (simp add: report_def)
  then have "Rep F_checkMmapBlock S_inconsistent \<in> set (msgs s')"
    using dumpMmapBlock_keeps [OF s'] by blast
  then show ?thesis
    using checkMmapBlock_ok(3) [OF E m(1,3) hdr heap_okD(1) [OF ok] small] s' by simp
qed

end
