(* ===== verification/Runs.thy ===== *)
theory Runs
  imports Corrupt Edges
begin

text \<open>
  More states of the run of theory \<open>Demo\<close>: the shared lock held, a lock whose owner died, and a world
  of threads; and what the operations see there.
\<close>

section \<open>The shared lock held\<close>

definition demo2h :: state where
  "demo2h = snd (the (PTHREAD_mutexLock demo_env MShared demo2))"

lemma demo2h_held: "wf_held demo2h [demo_chunk2]"
proof -
  obtain s where "PTHREAD_mutexLock demo_env MShared demo2 = Some (True, s)" "wf_held s [demo_chunk2]"
    using lock_shared [OF demo_reliable demo2_ok] by blast
  then show ?thesis by (simp add: demo2h_def)
qed

section \<open>A pointer to nowhere\<close>

lemma demo_foreign: "isInMmapBlock 0x50000000 demo2 = Some False"
proof -
  note w = heap_okD [OF demo2_ok]
  have a: "c_addr demo_chunk2 = 0x20000000" by (simp add: demo_chunk2_def demo_chunk_def)
  have "mmapH (hp demo2) 0x20000000 = Some (chunk_hdr 0 0 demo_chunk2)"
    using w(4) a by (simp add: chunk_ok_def chunk_mem_def)
  then show ?thesis
    using w(2) cfgD(2) [OF w(1)] a
    by (simp add: isInMmapBlock_def isInLoop.simps chunk_hdr_def)
qed

section \<open>Threads\<close>

definition demo_orphan :: state where
  "demo_orphan = blank\<lparr>mtx := (\<lambda>i. \<lparr>pm_attr = vgc_pattr, pm_lock = OwnerDied\<rparr>)\<rparr>"

definition demo_world :: world where
  "demo_world = \<lparr>w_state = snd (the (PTHREAD_mutexLock demo_env MShared demo_orphan)),
     holders = {1}, dead = {}\<rparr>"

lemma demo_world_reachable: "reachable demo_env MShared demo_world"
proof -
  let ?w = "\<lparr>w_state = demo_orphan, holders = {}, dead = {}\<rparr>"
  have self: "demo_orphan\<lparr>self := 1\<rparr> = demo_orphan" by (simp add: demo_orphan_def blank_def)
  obtain s where "PTHREAD_mutexLock demo_env MShared demo_orphan = Some (True, s)"
    using mutexLock_owner_died [OF demo_reliable, of demo_orphan MShared]
    by (auto simp: demo_orphan_def vgc_pattr_def)
  then have "lstep demo_env MShared ?w demo_world"
    using lstep.acquire [where w = ?w and t = 1 and E = demo_env and i = MShared and s' = s] self
    by (simp add: demo_world_def)
  moreover have "reachable demo_env MShared ?w" by (rule reachable.start) simp
  ultimately show ?thesis by (rule reachable.step [rotated])
qed

section \<open>The second call as a step\<close>

lemma demo_step3:
  "lib_step demo_env (demo2, [(0x20003F9C, 100)]) (demo3, [(0x20006F9C, 100), (0x20003F9C, 100)])"
  by (rule lib_step.given [OF demo3_run]) simp_all

definition demo_held :: "(addr \<times> size_t) list" where
  "demo_held = [(0x20006F9C, 100), (0x20003F9C, 100)]"

lemma demo_held_client: "client demo_env demo3 demo_held"
  using demo_client3 by (simp add: demo_held_def)

section \<open>A request of one page\<close>

definition demo3p :: state where
  "demo3p = snd (the (vgc_malloc demo_env 4096 demo2))"

lemma demo3p_run: "vgc_malloc demo_env 4096 demo2 = Some (0x20007000, demo3p)"
proof -
  have "malloc_spec 4096 new [demo_chunk2] = (0x20007000, snd (malloc_spec 4096 new [demo_chunk2]))" for new
    by (simp add: malloc_spec_def max_request_def demo_chunk2_def demo_chunk_def demo_block_def demo_rest_def
        fresh_chunk_def fits_def carve_def user_memory_def memory_offset_eq)
  then have "fst (malloc_spec 4096 new [demo_chunk2]) = 0x20007000" for new by (metis fst_conv)
  then show ?thesis
    using vgc_malloc_all [OF demo_reliable demo_mmap_ok demo2_ok, of 4096] by (auto simp: demo3p_def)
qed

section \<open>A second chunk\<close>

definition demo_second :: chunk where
  "demo_second = fresh_chunk 0x30000000 32768000"

definition demo4 :: state where
  "demo4 = snd (the (mmapBlockAllocate demo_env 32768000 0x20000000 demo1))"

lemma demo4_ok: "heap_ok demo4 [demo_chunk, demo_second]"
proof -
  note w = heap_okD [OF demo1_ok]
  have l: "last_chunk 0 [demo_chunk] = 0x20000000" by (simp add: demo_chunk_def)
  have a: "env_mmap demo_env (ticks demo1) (maps (hp demo1)) 32768000 = 0x30000000"
    by (simp add: demo1_maps demo_env_def demo_mmap_def demo_regions_def disjoint_regions_def)
  obtain t where t: "allocMMAP demo_env 32768000 0x20000000 demo1 = Some (0x30000000, t)"
    "chunk_ok t 0x20000000 0 demo_second" "fresh_frame 0x30000000 32768000 0x20000000 demo1 t"
    using allocMMAP_ok [OF demo_reliable demo_mmap_ok a, where l = "0x20000000"] cfgD(1) [OF w(1)] w(4)
    by (auto simp: chunk_ok_def chunk_mem_def demo_chunk_def demo_second_def in_range_def)
  have d: "demo4 = t" using t(1) by (simp add: demo4_def mmapBlockAllocate_def)
  have new: "apart demo_second demo_chunk"
    by (simp add: apart_def disjoint_regions_def demo_second_def demo_chunk_def)
  have "chain t 0 ([demo_chunk] @ [demo_second]) 0"
    unfolding demo_second_def
    by (rule chain_fresh [OF w(4,5)]) (use new t(2,3) l in \<open>simp_all add: demo_second_def\<close>)
  then show ?thesis
    using w t(3) new apart_sym [OF new] by (simp add: d heap_ok_def fresh_frame_def cfg_def)
qed

definition demo5 :: state where
  "demo5 = snd (the (vgc_malloc demo_env 100 demo4))"

lemma demo5_ok: "heap_ok demo5 (demo_chunk2 # [demo_second])"
proof -
  have "snd (malloc_spec 100 new [demo_chunk, demo_second]) = [demo_chunk2, demo_second]" for new
    by (simp add: malloc_spec_def max_request_def demo_chunk_def demo_chunk2_def demo_block_def
      demo_rest_def fresh_chunk_def fits_def carve_def page_round_100)
  then show ?thesis
    using vgc_malloc_all [OF demo_reliable demo_mmap_ok demo4_ok, of 100] by (auto simp: demo5_def)
qed

section \<open>Environments that refuse\<close>

definition broke_env :: env where
  "broke_env = demo_env\<lparr>env_mmap := (\<lambda>k ms n. MAP_FAILED)\<rparr>"

definition late_env :: env where
  "late_env = demo_env\<lparr>env_fail := (\<lambda>k. if k = 1 then Some ENOMEM else None)\<rparr>"

lemma broke_reliable: "reliable broke_env"
  using demo_reliable by (simp add: broke_env_def reliable_def)

lemma demo0_headers: "mmapH (hp demo0) a = None"
proof -
  have "env_mmap demo_env (ticks blank) (maps (hp blank)) sizeof_VGC_shared = 0x10000000"
    by (simp add: demo_env_def demo_mmap_def demo_regions_def blank_def)
  then obtain s where "mmap demo_env sizeof_VGC_shared blank = (0x10000000, s)" "\<forall>x. mmapH (hp s) x = None"
    "maps (hp s) = [(0x10000000, sizeof_VGC_shared)]"
    by (simp add: mmap_def blank_def clear_range_def Let_def)
  moreover from this(3) have "mapped 0x10000000 96 s" by (simp add: mapped_def in_region_def)
  ultimately show ?thesis
    by (simp add: demo0_def initializeShared_def initializeShared_sized_def createShared_def createShared_sized_def initialiseMutex_def upd_shared_def
        PTHREAD_mutexattrInit_ok [OF demo_reliable] PTHREAD_mutexInit_ok [OF demo_reliable])
qed

text \<open>An operating system with room for a small mmap block only.\<close>

definition small_env :: env where
  "small_env = demo_env\<lparr>env_mmap := (\<lambda>k ms n. if n \<le> 0x1000000 then demo_mmap k ms n else MAP_FAILED)\<rparr>"

definition small1 :: state where
  "small1 = upd_shared (\<lambda>h. h\<lparr>sh_mmapBlockFirst := 0x20000000\<rparr>)
     (snd (the (allocMMAP small_env 3276800 0 demo0)))"

definition small_chunk :: chunk where
  "small_chunk = fresh_chunk 0x20000000 3276800"

lemma small_reliable: "reliable small_env"
  using demo_reliable by (simp add: small_env_def reliable_def)

lemma small_mmap_ok: "mmap_ok small_env"
  using demo_mmap_ok by (auto simp: small_env_def mmap_ok_def demo_env_def)

lemma small1_ok: "heap_ok small1 [small_chunk]" and small1_level: "messageLevel small1 = messageLevel demo0"
proof -
  note w = heap_okD [OF demo0_ok]
  have a: "env_mmap small_env (ticks demo0) (maps (hp demo0)) 3276800 = 0x20000000"
    by (simp add: demo0_maps small_env_def demo_env_def demo_mmap_def demo_regions_def disjoint_regions_def)
  obtain t where t: "allocMMAP small_env 3276800 0 demo0 = Some (0x20000000, t)"
    "chunk_ok t 0 0 small_chunk" "fresh_frame 0x20000000 3276800 0 demo0 t"
    using allocMMAP_ok [OF small_reliable small_mmap_ok a, of 0] cfgD(1) [OF w(1)]
    by (auto simp: small_chunk_def)
  then have d: "small1 = upd_shared (\<lambda>h. h\<lparr>sh_mmapBlockFirst := 0x20000000\<rparr>) t"
    by (simp add: small1_def)
  have "chain t 0 [small_chunk] 0" using t(2) by simp
  then have "chain small1 0 [small_chunk] 0"
    by (rule chain_frame) (simp add: d upd_shared_def same_region_def)
  then show "heap_ok small1 [small_chunk]"
    using w t(3) by (simp add: heap_ok_def d upd_shared_def fresh_frame_def cfg_def small_chunk_def)
  show "messageLevel small1 = messageLevel demo0"
    using t(3) by (simp add: d upd_shared_def fresh_frame_def)
qed

lemma demo0_level: "messageLevel demo0 = 1"
proof -
  have "env_mmap demo_env (ticks blank) (maps (hp blank)) sizeof_VGC_shared = 0x10000000"
    by (simp add: demo_env_def demo_mmap_def demo_regions_def blank_def)
  then obtain s where "mmap demo_env sizeof_VGC_shared blank = (0x10000000, s)" "messageLevel s = 1"
    "maps (hp s) = [(0x10000000, sizeof_VGC_shared)]"
    by (simp add: mmap_def blank_def clear_range_def Let_def)
  moreover from this(3) have "mapped 0x10000000 96 s" by (simp add: mapped_def in_region_def)
  ultimately show ?thesis
    by (simp add: demo0_def initializeShared_def initializeShared_sized_def createShared_def createShared_sized_def initialiseMutex_def upd_shared_def
        PTHREAD_mutexattrInit_ok [OF demo_reliable] PTHREAD_mutexInit_ok [OF demo_reliable])
qed

section \<open>The header of a pointer that was handed out\<close>

lemma demo_serves: "serves (0x20003F9C, 100) demo_block"
  by (simp add: serves_def demo_block_def demo_pointer)

lemma realloc_misses:
  assumes ok: "heap_ok s cs" and b: "b \<in> set (live cs)" and x: "serves (p, sz) b"
  shows "p \<noteq> 0" "header_of p s = b_addr b"
    "p - sizeof_mallocHeader \<notin> (\<Union>c \<in> set cs. b_addr ` set (c_blks c))"
proof -
  obtain c where c: "c \<in> set cs" "b \<in> set (c_blks c)" using b by (auto simp: live_iff)
  have x': "unat sz mod 4096 \<noteq> 0" "p = user_memory sz (b_addr b)" using x by (simp_all add: serves_def)
  note w = heap_okD [OF ok]
  show "header_of p s = b_addr b"
    using header_of_points_to [OF w(1) _ in_chunk(4) [OF chain_shape [OF w(4) c(1)] c(2)]]
      serves_block(2) [OF ok b x] by simp
  show "p - sizeof_mallocHeader \<notin> (\<Union>c \<in> set cs. b_addr ` set (c_blks c))"
    using realloc_header_misses [OF ok c x'(1)] x'(2) by auto
  show "p \<noteq> 0" using serves_block(4) [OF ok b x] by simp
qed

end
