(* ===== verification/Network.thy ===== *)
theory Network
  imports Pthread
begin

text \<open>
  \<^verbatim>\<open>src/vgc_network.c\<close>: the wrappers of the socket calls of the multi-process build. A socket is a
  descriptor. What the other end sends and which descriptors the system hands out is the parameter
  \<open>net\<close>, indexed like the environment by the number of the call; \<open>net_blocks N k\<close> says that the
  \<open>k\<close>-th call, an \<^verbatim>\<open>accept\<close> or a \<^verbatim>\<open>read\<close>, waits for ever. The other calls are taken to return.
  \<open>net_wrote N k\<close> is the number of bytes the \<open>k\<close>-th call, a \<^verbatim>\<open>write\<close>, takes at most, and \<open>net_sigpipe N\<close> says
  that the program catches, blocks or ignores \<^verbatim>\<open>SIGPIPE\<close>; otherwise the signal ends it.
\<close>

record net =
  net_fd :: "nat \<Rightarrow> int"
  net_recv :: "nat \<Rightarrow> byte list"
  net_blocks :: "nat \<Rightarrow> bool"
  net_wrote :: "nat \<Rightarrow> nat"
  net_sigpipe :: bool

section \<open>The wrappers\<close>

text \<open>
  Every wrapper reports an error as known when the \<^verbatim>\<open>switch\<close> has a case for it. The cases of a
  \<^verbatim>\<open>switch\<close> fall through to one message, so they are a list. The addresses of \<^verbatim>\<open>bind\<close> and \<^verbatim>\<open>connect\<close> have
  their effect on the descriptors and the files, in \<open>Children\<close>.
\<close>

definition net_failed :: "net_call \<Rightarrow> errno list \<Rightarrow> errno \<Rightarrow> state \<Rightarrow> state" where
  "net_failed c known e s = report ERROR_LEVEL (NetRep c (e \<in> set known) e) s"

definition do_bind :: "env \<Rightarrow> state \<Rightarrow> bool \<times> state" where
  "do_bind E s =
     (case sys E s of
        (None, s) \<Rightarrow> (True, s)
      | (Some e, s) \<Rightarrow> (False, net_failed NC_bind [EACCES, EADDRINUSE, EBADF, EINVAL, ENOTSOCK, EADDRNOTAVAIL, EFAULT,
        ELOOP, ENAMETOOLONG, ENOENT, ENOMEM, ENOTDIR, EROFS] e s))"

definition do_listen :: "env \<Rightarrow> state \<Rightarrow> bool \<times> state" where
  "do_listen E s =
     (case sys E s of
        (None, s) \<Rightarrow> (True, s)
      | (Some e, s) \<Rightarrow> (False, net_failed NC_listen [EADDRINUSE, EBADF, ENOTSOCK, EOPNOTSUPP] e s))"

definition do_connect :: "env \<Rightarrow> state \<Rightarrow> bool \<times> state" where
  "do_connect E s =
     (case sys E s of
        (None, s) \<Rightarrow> (True, s)
      | (Some e, s) \<Rightarrow> (False, net_failed NC_connect [EACCES, EPERM, EADDRINUSE, EADDRNOTAVAIL, EAFNOSUPPORT, EAGAIN,
        EALREADY, EBADF, ECONNREFUSED, EFAULT, EINPROGRESS, EINTR, EISCONN, ENETUNREACH, ENOTSOCK,
        EPROTOTYPE, ETIMEDOUT] e s))"

text \<open>
  \<^verbatim>\<open>do_write\<close> compares the result of \<^verbatim>\<open>write\<close> with -1 only, so a write that takes a part of the bytes is a
  success; the bytes taken are the second component. \<open>EPIPE\<close> comes with the signal \<^verbatim>\<open>SIGPIPE\<close>.
\<close>

definition do_write :: "env \<Rightarrow> net \<Rightarrow> byte list \<Rightarrow> state \<Rightarrow> (bool \<times> byte list \<times> state) option" where
  "do_write E N data s =
     (case sys E s of
        (None, s') \<Rightarrow> Some (True, take (net_wrote N (ticks s)) data, s')
      | (Some e, s') \<Rightarrow>
          if e = EPIPE \<and> \<not> net_sigpipe N then None
          else Some (False, [], net_failed NC_write [EAGAIN, EBADF, EDESTADDRREQ, EDQUOT, EFAULT, EFBIG, EINTR, EINVAL,
            EIO, ENOSPC, EPERM, EPIPE] e s'))"

text \<open>
  \<^verbatim>\<open>do_socket\<close> ignores its arguments and opens a Unix stream socket; the descriptor it stores through
  its pointer is the second component, \<open>-1\<close> when it fails.
\<close>

definition do_socket :: "env \<Rightarrow> net \<Rightarrow> state \<Rightarrow> bool \<times> int \<times> state" where
  "do_socket E N s =
     (case sys E s of
        (None, s') \<Rightarrow> (True, net_fd N (ticks s), s')
      | (Some e, s') \<Rightarrow> (False, -1, net_failed NC_socket
          [EACCES, EAFNOSUPPORT, EINVAL, EMFILE, ENFILE, ENOBUFS, ENOMEM, EPROTONOSUPPORT] e s'))"

definition do_accept :: "env \<Rightarrow> net \<Rightarrow> state \<Rightarrow> (bool \<times> int \<times> state) option" where
  "do_accept E N s =
     (if net_blocks N (ticks s) then None
      else Some (case sys E s of
        (None, s') \<Rightarrow> (True, net_fd N (ticks s), s')
      | (Some e, s') \<Rightarrow> (False, -1, net_failed NC_accept
          [EAGAIN, EBADF, ECONNABORTED, EFAULT, EINTR, EINVAL, EMFILE, ENFILE, ENOBUFS, ENOMEM,
           ENOTSOCK, EOPNOTSUPP, EPROTO, EPERM] e s')))"

text \<open>
  \<^verbatim>\<open>do_read\<close> clears the buffer, then reads at most \<open>count\<close> bytes into it. The result of \<^verbatim>\<open>read\<close> is kept in
  a \<^verbatim>\<open>size_t\<close>, so the test for an error compares an unsigned number with 0. The components of the
  result are the truth value, \<^verbatim>\<open>*readBytes\<close>, the buffer and the state.
\<close>

definition do_read ::
    "env \<Rightarrow> net \<Rightarrow> size_t \<Rightarrow> state \<Rightarrow> (bool \<times> size_t \<times> byte list \<times> state) option" where
  "do_read E N count s =
     (if net_blocks N (ticks s) then None
      else Some (let data = take (unat count) (net_recv N (ticks s));
          (e, s) = sys E s;
          readBytes = (case e of None \<Rightarrow> of_nat (length data) | Some _ \<Rightarrow> - 1);
          buf = (case e of None \<Rightarrow> data @ replicate (unat count - length data) 0
                         | Some _ \<Rightarrow> replicate (unat count) 0)
      in if 0 \<le> readBytes then (True, readBytes, buf, s)
         else (False, readBytes, buf, case e of None \<Rightarrow> s | Some e \<Rightarrow> net_failed NC_read
                 [EAGAIN, EBADF, EFAULT, EINTR, EINVAL, EIO, EISDIR] e s)))"

section \<open>Lemmas\<close>

text \<open>The wrappers of calls that only succeed or fail, as a table like that of the thread functions.\<close>

definition net_codes :: "((env \<Rightarrow> state \<Rightarrow> bool \<times> state) \<times> net_call \<times> errno list) list" where
  "net_codes =
    [(do_bind, NC_bind, [EACCES, EADDRINUSE, EBADF, EINVAL, ENOTSOCK, EADDRNOTAVAIL, EFAULT,
        ELOOP, ENAMETOOLONG, ENOENT, ENOMEM, ENOTDIR, EROFS]),
     (do_listen, NC_listen, [EADDRINUSE, EBADF, ENOTSOCK, EOPNOTSUPP]),
     (do_connect, NC_connect, [EACCES, EPERM, EADDRINUSE, EADDRNOTAVAIL, EAFNOSUPPORT, EAGAIN,
        EALREADY, EBADF, ECONNREFUSED, EFAULT, EINPROGRESS, EINTR, EISCONN, ENETUNREACH, ENOTSOCK,
        EPROTOTYPE, ETIMEDOUT])]"

definition net_report :: "net_call \<Rightarrow> errno list \<Rightarrow> errno \<Rightarrow> report" where
  "net_report c known e = NetRep c (e \<in> set known) e"

lemma net_codes_reported:
  assumes "(w, c, known) \<in> set net_codes"
  shows "w E s = reported E (net_report c known) s"
  using assms unfolding net_codes_def set_simps insert_iff empty_iff prod.inject simp_thms
  by (elim disjE conjE; simp only:)
    (simp_all add: do_bind_def do_listen_def do_connect_def reported_def net_report_def net_failed_def
      split: option.splits prod.splits)

lemma net_calls_ok [vgc_ok]:
  assumes "reliable E"
  shows "do_bind E s = (True, s\<lparr>ticks := Suc (ticks s)\<rparr>)" "do_listen E s = (True, s\<lparr>ticks := Suc (ticks s)\<rparr>)"
    "do_connect E s = (True, s\<lparr>ticks := Suc (ticks s)\<rparr>)"
    "do_write E N data s = Some (True, take (net_wrote N (ticks s)) data, s\<lparr>ticks := Suc (ticks s)\<rparr>)"
  using assms by (simp_all add: do_bind_def do_listen_def do_connect_def do_write_def sys_reliable)

text \<open>Every wrapper that only succeeds or fails, with what it reports.\<close>

definition wrapper_table :: "((env \<Rightarrow> state \<Rightarrow> bool \<times> state) \<times> (errno \<Rightarrow> report)) list" where
  "wrapper_table = map (\<lambda>(w, c, known). (w, pthread_report c known)) wrapper_codes @
     map (\<lambda>(w, c, known). (w, net_report c known)) net_codes"

lemma wrapper_table_reported: "(w, r) \<in> set wrapper_table \<Longrightarrow> w E s = reported E r s"
  unfolding wrapper_table_def using wrapper_codes_reported net_codes_reported by fastforce

lemma do_socket_ok [vgc_ok]:
  "reliable E \<Longrightarrow> do_socket E N s = (True, net_fd N (ticks s), s\<lparr>ticks := Suc (ticks s)\<rparr>)"
  by (simp add: do_socket_def sys_reliable)

lemma do_read_length: "do_read E N count s = Some (b, n, buf, s') \<Longrightarrow> length buf = unat count"
  by (auto simp: do_read_def sys_def Let_def split: option.splits if_splits)

text \<open>An error of \<^verbatim>\<open>read\<close> goes unseen: the result is true and \<^verbatim>\<open>*readBytes\<close> is the largest \<^verbatim>\<open>size_t\<close>.\<close>

lemma do_read_eq:
  "do_read E N count s =
     (if net_blocks N (ticks s) then None
      else Some (True,
        case env_fail E (ticks s) of
          None \<Rightarrow> of_nat (min (length (net_recv N (ticks s))) (unat count)) | Some _ \<Rightarrow> - 1,
        case env_fail E (ticks s) of
          None \<Rightarrow> take (unat count) (net_recv N (ticks s))
                  @ replicate (unat count - length (net_recv N (ticks s))) 0
        | Some _ \<Rightarrow> replicate (unat count) 0, s\<lparr>ticks := Suc (ticks s)\<rparr>))"
  by (auto simp: do_read_def sys_def Let_def min_def split: option.splits)

lemma do_read_never_fails:
  "do_read E N count s = Some (b, n, buf, s') \<Longrightarrow> b \<and> msgs s' = msgs s \<and>
     n = (case env_fail E (ticks s) of None \<Rightarrow> of_nat (min (length (net_recv N (ticks s))) (unat count)) | Some _ \<Rightarrow> - 1)"
  by (auto simp: do_read_eq split: if_splits)

end
