(* ===== verification/Messages.thy ===== *)
theory Messages
  imports Pthread
begin

text \<open>
  \<^verbatim>\<open>src/vgc_message.c\<close>: the text of a message. A \<^verbatim>\<open>char *\<close> that may be null is an option; the
  variable arguments are the text they are formatted to. The messages the other theories record
  by \<open>report\<close> are the calls of \<open>vgc_message\<close>, without the layout.
\<close>

section \<open>Reading a number\<close>

text \<open>\<^verbatim>\<open>strtol\<close> to base 10, as C defines it: leading space, a sign, digits, and a result that saturates.\<close>

definition is_space :: "char \<Rightarrow> bool" where
  "is_space c \<longleftrightarrow> of_char c \<in> set [32, 9, 10, 11, 12, 13 :: nat]"

definition is_digit :: "char \<Rightarrow> bool" where
  "is_digit c \<longleftrightarrow> 48 \<le> (of_char c :: nat) \<and> (of_char c :: nat) \<le> 57"

definition digits_value :: "string \<Rightarrow> int" where
  "digits_value ds = foldl (\<lambda>n c. 10 * n + (of_char c - 48)) 0 ds"

definition strtol :: "string \<Rightarrow> int" where
  "strtol s =
     (let s = dropWhile is_space s;
          (neg, s) = (case s of [] \<Rightarrow> (False, s)
             | c # r \<Rightarrow> if c = CHR ''-'' then (True, r) else if c = CHR ''+'' then (False, r) else (False, s));
          n = digits_value (takeWhile is_digit s)
      in if neg then max (- (2 ^ 63)) (- n) else min (2 ^ 63 - 1) n)"

section \<open>The level\<close>

definition to_int32 :: "int \<Rightarrow> int" where
  "to_int32 l = signed_take_bit 31 l"

text \<open>\<open>level\<close> is what \<^verbatim>\<open>getenv("VGC_MESSAGE_LEVEL")\<close> finds. \<^verbatim>\<open>errno\<close> is cleared before it is tested, so the test holds.\<close>

definition vgc_messageInit :: "string option \<Rightarrow> state \<Rightarrow> state" where
  "vgc_messageInit level s =
     (let s = s\<lparr>messageLevel := 1\<rparr> in
      case level of
        None \<Rightarrow> s
      | Some txt \<Rightarrow> (let l = strtol txt; errno = (0 :: int)
                     in if errno = 0 then s\<lparr>messageLevel := to_int32 l\<rparr> else s))"

section \<open>Padding\<close>

datatype msg_type = TYPE_FUNCTION | TYPE_TITLE | TYPE_SUBTITLE

fun dots_table :: "msg_type \<Rightarrow> string" where
  "dots_table TYPE_FUNCTION = ''......................: ''"
| "dots_table TYPE_TITLE = ''............................: ''"
| "dots_table TYPE_SUBTITLE = ''.............................: ''"

definition dots :: "string \<Rightarrow> msg_type \<Rightarrow> string option \<Rightarrow> string" where
  "dots txt t status =
     (if t = TYPE_SUBTITLE \<and> status = Some '''' then ''''
      else let d = dots_table t;
               n = (if length txt \<ge> length d then length d - 2 else length txt)
           in drop n d)"

definition spaces :: "string option \<Rightarrow> string" where
  "spaces txt =
     (let s = ''             '' in
      case txt of
        None \<Rightarrow> s
      | Some txt \<Rightarrow>
          (let stringLength = (if length txt > 12 then 12 else length txt);
               n = (if stringLength > length s then length s else stringLength)
           in drop n s))"

definition spaces2 :: "string option \<Rightarrow> string" where
  "spaces2 txt =
     (let s = ''........................'' in
      case txt of
        None \<Rightarrow> s
      | Some txt \<Rightarrow> (let n = (if length txt > length s then length s else length txt) in drop n s))"

section \<open>The header of a message\<close>

definition c_black :: string where "c_black = char_of (27 :: nat) # ''[0m''"
definition c_red :: string where "c_red = char_of (27 :: nat) # ''[0;31m''"
definition c_green :: string where "c_green = char_of (27 :: nat) # ''[0;32m''"
definition c_blue :: string where "c_blue = char_of (27 :: nat) # ''[0;34m''"

definition text_of :: "string option \<Rightarrow> string" where
  "text_of t = (case t of None \<Rightarrow> '''' | Some t \<Rightarrow> t)"

definition dots_of :: "string option \<Rightarrow> msg_type \<Rightarrow> string option \<Rightarrow> string" where
  "dots_of txt t status = (case txt of None \<Rightarrow> '''' | Some txt \<Rightarrow> dots txt t status)"

text \<open>POSIX \<^verbatim>\<open>basename\<close>.\<close>

definition basename :: "string \<Rightarrow> string" where
  "basename p =
     (if p = '''' then ''.''
      else let q = rev (dropWhile (\<lambda>c. c = CHR ''/'') (rev p))
           in if q = '''' then ''/'' else rev (takeWhile (\<lambda>c. c \<noteq> CHR ''/'') (rev q)))"

record msg =
  m_file :: string
  m_line :: int
  m_moduleName :: string
  m_functionName :: "string option"
  m_title :: "string option"
  m_subtitle :: "string option"
  m_status :: "string option"

definition function_field :: "msg \<Rightarrow> string" where
  "function_field a = take 22 (text_of (m_functionName a)) @ dots_of (m_functionName a) TYPE_FUNCTION (m_status a)"

definition title_field :: "msg \<Rightarrow> string" where
  "title_field a = take 28 (text_of (m_title a)) @ dots_of (m_title a) TYPE_TITLE (m_status a)"

definition module_field :: "string \<Rightarrow> msg \<Rightarrow> string" where
  "module_field color2 a =
     (let moduleName = m_moduleName a; on = (\<lambda>t. if moduleName \<noteq> '''' then t else '''') in
      on color2 @ on ''['' @ take 12 moduleName @ on color2 @ on '']'' @ on (spaces (Some moduleName)))"

definition file_field :: "msg \<Rightarrow> string" where
  "file_field a =
     (let file = basename (m_file a); line = m_line a in
      take 30 file @ '':'' @ dec line @ spaces2 (Some file)
      @ (if line < 10 then ''...'' else if line < 100 then ''..'' else if line < 1000 then ''.'' else ''''))"

definition subtitle_field :: "msg \<Rightarrow> string" where
  "subtitle_field a = text_of (m_subtitle a) @ dots_of (m_subtitle a) TYPE_SUBTITLE (m_status a)"

definition message_text :: "msg \<Rightarrow> string \<Rightarrow> string \<Rightarrow> string \<Rightarrow> string" where
  "message_text a color1 color2 color3 =
     color1 @ file_field a @ '': '' @ function_field a @ title_field a @ module_field color2 a
       @ color3 @ subtitle_field a @ text_of (m_status a)"

definition message :: "nat \<Rightarrow> msg \<Rightarrow> string \<Rightarrow> string \<Rightarrow> string \<Rightarrow> string \<times> int" where
  "message bufferSize a color1 color2 color3 = snprintf bufferSize (message_text a color1 color2 color3)"

section \<open>Printing\<close>

text \<open>
  The arguments are formatted behind the header when it left room for them. The room is the difference of
  two \<^verbatim>\<open>int\<close>, converted to \<^verbatim>\<open>size_t\<close>: a negative one would be a huge size. The result is the buffer, \<open>None\<close> when
  the text is written behind its end.
\<close>

definition message_buf :: "nat \<Rightarrow> string \<times> int \<Rightarrow> string option \<Rightarrow> string option" where
  "message_buf B r fmt = (case r of (buf, n) \<Rightarrow>
     (case fmt of None \<Rightarrow> Some buf
      | Some args \<Rightarrow> if n < int B then snprintf_at B buf (nat n) (of_int (int B - n)) args else Some buf))"

text \<open>The first component is the text handed to \<^verbatim>\<open>printf\<close>, \<open>None\<close> when the message is not printed.\<close>

definition vgc_message :: "env \<Rightarrow> int \<Rightarrow> msg \<Rightarrow> string option \<Rightarrow> state \<Rightarrow> (string option \<times> state) option" where
  "vgc_message E level a fmt s =
     (let BufferSize = 2048 in
      if messageLevel s < level then Some (None, s)
      else do {
        let color1 = (if level = 1 then c_red else c_black);
        let color2 = (if level = 1 then c_red else c_green);
        let color3 = (if level = 1 then c_red else c_blue);
        let noHeader = (level = 0);
        let header = (if noHeader
               then message BufferSize (a\<lparr>m_moduleName := [], m_functionName := None, m_title := None\<rparr>)
                      color1 color2 color3
               else message BufferSize a color1 color2 color3);
        buf \<leftarrow> message_buf BufferSize header fmt;
        let (_, s) = PTHREAD_rwlockRdLock E s;
        let line = buf @ c_black @ [char_of (10 :: nat)];
        let (_, s) = PTHREAD_rwlockUnlock E s;
        Some (Some line, s) })"

section \<open>Lemmas\<close>

lemma length_dots_table [simp]:
  "length (dots_table t) = (case t of TYPE_FUNCTION \<Rightarrow> 24 | TYPE_TITLE \<Rightarrow> 30 | TYPE_SUBTITLE \<Rightarrow> 31)"
  by (cases t) simp_all

lemma length_dots:
  "t \<noteq> TYPE_SUBTITLE \<Longrightarrow> length (dots txt t status) =
     (let n = length (dots_table t) in if length txt \<ge> n then 2 else n - length txt)"
  by (cases t) (auto simp: dots_def Let_def)

lemma length_snprintf [simp]: "length (fst (snprintf n txt)) = min (n - 1) (length txt)"
  by (simp add: snprintf_def min.commute)

lemma message_length:
  "message n a c1 c2 c3 = (buf, k) \<Longrightarrow> length buf = min (n - 1) (nat k) \<and> 0 \<le> k"
  unfolding message_def snprintf_def by auto

text \<open>The width of each column.\<close>

lemma length_dec_nat: "length (dec_nat n) = (if n < 10 then 1 else Suc (length (dec_nat (n div 10))))"
  by (subst dec_nat.simps) simp

lemma length_dec:
  assumes "0 \<le> i" and "i < 10000"
  shows "length (dec i) = (if i < 10 then 1 else if i < 100 then 2 else if i < 1000 then 3 else 4)"
proof -
  define n where "n = nat i"
  have i: "i = int n" "n < 10000" using assms by (auto simp: n_def)
  have "n div 10 < 10 \<longleftrightarrow> n < 100" "n div 100 < 10 \<longleftrightarrow> n < 1000" "n div 1000 < 10"
    using i(2) by auto
  then have "length (dec_nat n) = (if n < 10 then 1 else if n < 100 then 2 else if n < 1000 then 3 else 4)"
    by (simp add: length_dec_nat [of n] length_dec_nat [of "n div 10"]
        length_dec_nat [of "n div 100"] length_dec_nat [of "n div 1000"] flip: div_mult2_eq)
  then show ?thesis using i by (simp add: dec_def)
qed

lemma length_spaces2: "length (spaces2 (Some txt)) = 24 - min (length txt) 24"
  by (simp add: spaces2_def Let_def eval_nat_numeral)

lemma length_file_field:
  assumes "length (basename (m_file a)) \<le> 24" and "0 \<le> m_line a" and "m_line a < 10000"
  shows "length (file_field a) = 29"
  using assms by (simp add: file_field_def Let_def length_dec length_spaces2)

lemma length_function_field:
  "m_functionName a = Some f \<Longrightarrow> length (function_field a) = (if length f = 23 then 23 else 24)"
  by (auto simp: function_field_def text_of_def dots_of_def length_dots Let_def)

lemma length_title_field:
  "m_title a = Some t \<Longrightarrow> length (title_field a) = (if length t = 29 then 29 else 30)"
  by (auto simp: title_field_def text_of_def dots_of_def length_dots Let_def)

lemma length_module_field:
  "m_moduleName a \<noteq> '''' \<Longrightarrow> length (module_field c a) = 2 * length c + 15"
  by (auto simp: module_field_def spaces_def Let_def)

lemma rwlock_calls:
  "PTHREAD_rwlockRdLock E s = (b, s') \<Longrightarrow> same_core s s'"
  "PTHREAD_rwlockUnlock E s = (b, s') \<Longrightarrow> same_core s s'"
  by (auto simp: wrapper_reported dest: reported_result)

text \<open>With the guard, what is in the buffer is the text cut to the size.\<close>

lemma message_buf_text:
  assumes "0 < B" and "B < 2 ^ 31"
  shows "message_buf B (message B a c1 c2 c3) fmt = Some (take (B - 1) (message_text a c1 c2 c3 @ text_of fmt))"
proof (cases fmt)
  case (Some args)
  let ?h = "message_text a c1 c2 c3"
  show ?thesis
  proof (cases "length ?h < B")
    case True
    let ?size = "of_int (int B - int (length ?h)) :: size_t"
    have "?size = of_nat (B - length ?h)" using True by (simp add: of_nat_diff)
    then have size: "unat ?size = B - length ?h" using assms(2) by (simp add: unat_of_nat_ok)
    then have "?size \<noteq> 0" using True by (metis diff_is_0_eq not_le unat_0)
    then show ?thesis
      using True size Some
      by (auto simp: message_buf_def message_def snprintf_def snprintf_at_def text_of_def Let_def min_def)
  qed (use Some in \<open>simp add: message_buf_def message_def snprintf_def text_of_def\<close>)
qed (simp add: message_buf_def message_def snprintf_def text_of_def)

text \<open>The text of a message without a bound, by its level.\<close>

definition message_line :: "int \<Rightarrow> msg \<Rightarrow> string option \<Rightarrow> string" where
  "message_line level a fmt =
     (let color = (\<lambda>c. if level = 1 then c_red else c);
          a = (if level = 0 then a\<lparr>m_moduleName := [], m_functionName := None, m_title := None\<rparr> else a)
      in message_text a (color c_black) (color c_green) (color c_blue) @ text_of fmt)"

lemma vgc_message_prints:
  "\<exists>s'. vgc_message E level a fmt s =
     Some (if messageLevel s < level then None
           else Some (take 2047 (message_line level a fmt) @ c_black @ [newline_char]), s') \<and> same_core s s'"
proof -
  obtain b1 s1 where 1: "PTHREAD_rwlockRdLock E s = (b1, s1)" by fastforce
  obtain b2 s2 where 2: "PTHREAD_rwlockUnlock E s1 = (b2, s2)" by fastforce
  have "same_core s s2" using rwlock_calls(1) [OF 1] rwlock_calls(2) [OF 2] same_core_trans by blast
  then show ?thesis
    using 1 2 by (simp add: vgc_message_def message_line_def message_buf_text Let_def)
qed

end
