(* ===== verification/Children.thy ===== *)
theory Children
  imports Startup Network Messages
begin

text \<open>
  \<^verbatim>\<open>src/vgc_mprotect_mp.c\<close>, the multi-process build: every process keeps a thread that listens on a
  Unix socket, and whoever changes the rights of a guard page tells the threads of all the other
  processes to do the same, since page rights are per process.

  This theory is the code of one process. The state \<open>mp\<close> adds to the process' state its number
  (\<^verbatim>\<open>getpid\<close>), the table of children in shared memory, the descriptors it has open, the socket each
  of them is connected to, what it wrote (the descriptor, the socket at the other end if the process
  connected to it, and the bytes), the calls of \<^verbatim>\<open>close\<close> on a descriptor that was not open, and the files of
  the socket directory. What other processes do reaches it through the parameters \<open>E\<close> and \<open>N\<close>.
\<close>

section \<open>State\<close>

record VGC_mallocDebugChild =
  ch_pid :: int
  ch_thread :: nat
  ch_socketFD :: int
  ch_socketName :: string

definition zero_child :: VGC_mallocDebugChild where
  "zero_child = \<lparr>ch_pid = 0, ch_thread = 0, ch_socketFD = 0, ch_socketName = ''''\<rparr>"

abbreviation sizeof_child :: size_t where
  "sizeof_child \<equiv> 120"

abbreviation SocketNameSize :: nat where
  "SocketNameSize \<equiv> 100"

record mp =
  base :: state
  getpid :: int
  maxProcesses :: int
  isFather :: bool
  children_at :: addr
  children :: "VGC_mallocDebugChild list"
  fds :: "int list"
  peers :: "(int \<times> string) list"
  sent :: "(int \<times> string option \<times> byte list) list"
  bad_close :: "int list"
  sockdir :: "(string \<times> bool) list" \<comment> \<open>name and whether it is a socket\<close>

text \<open>
  \<open>children\<close> is the table \<open>children_at\<close> points to, empty when nothing is mapped there; the access
  to a child outside it is a SIGSEGV.
\<close>

definition get_child :: "nat \<Rightarrow> mp \<Rightarrow> VGC_mallocDebugChild option" where
  "get_child i m = (if i < length (children m) then Some (children m ! i) else None)"

definition upd_child :: "nat \<Rightarrow> (VGC_mallocDebugChild \<Rightarrow> VGC_mallocDebugChild) \<Rightarrow> mp \<Rightarrow> mp" where
  "upd_child i f m = m\<lparr>children := (children m)[i := f (children m ! i)]\<rparr>"

text \<open>The part of the table a loop up to \<^verbatim>\<open>maxProcesses\<close> reads.\<close>

definition table :: "mp \<Rightarrow> VGC_mallocDebugChild list option" where
  "table m = (if length (children m) < nat (maxProcesses m) then None
              else Some (take (nat (maxProcesses m)) (children m)))"

definition on_base :: "(state \<Rightarrow> 'a \<times> state) \<Rightarrow> mp \<Rightarrow> 'a \<times> mp" where
  "on_base f m = (case f (base m) of (r, s) \<Rightarrow> (r, m\<lparr>base := s\<rparr>))"

definition say :: "int \<Rightarrow> child_report \<Rightarrow> mp \<Rightarrow> mp" where
  "say lvl r m = m\<lparr>base := report lvl (ChildRep r) (base m)\<rparr>"

section \<open>Descriptors and files\<close>

text \<open>The result of \<^verbatim>\<open>close\<close> is ignored everywhere.\<close>

definition mp_close :: "env \<Rightarrow> int \<Rightarrow> mp \<Rightarrow> mp" where
  "mp_close E fd m =
     (let m = snd (on_base (sys E) m) in
      if fd \<in> set (fds m) then m\<lparr>fds := remove1 fd (fds m), peers := filter (\<lambda>p. fst p \<noteq> fd) (peers m)\<rparr>
      else m\<lparr>bad_close := fd # bad_close m\<rparr>)"

definition mp_socket :: "env \<Rightarrow> net \<Rightarrow> mp \<Rightarrow> bool \<times> int \<times> mp" where
  "mp_socket E N m =
     (case do_socket E N (base m) of (ok, fd, s) \<Rightarrow>
        (ok, fd, m\<lparr>base := s, fds := (if ok then fd # fds m else fds m)\<rparr>))"

definition mp_accept :: "env \<Rightarrow> net \<Rightarrow> mp \<Rightarrow> (bool \<times> int \<times> mp) option" where
  "mp_accept E N m =
     map_option (\<lambda>(ok, fd, s). (ok, fd, m\<lparr>base := s, fds := (if ok then fd # fds m else fds m)\<rparr>))
       (do_accept E N (base m))"

definition mp_read :: "env \<Rightarrow> net \<Rightarrow> size_t \<Rightarrow> mp \<Rightarrow> (bool \<times> size_t \<times> byte list \<times> mp) option" where
  "mp_read E N n m =
     map_option (\<lambda>(ok, k, buf, s). (ok, k, buf, m\<lparr>base := s\<rparr>)) (do_read E N n (base m))"

text \<open>
  The address of a Unix socket is a path. \<^verbatim>\<open>strncpy\<close> copies it into the 108 characters of \<^verbatim>\<open>sun_path\<close>.
\<close>

definition sun_path :: "string \<Rightarrow> string" where
  "sun_path name = take 108 name"

definition mp_connect :: "env \<Rightarrow> int \<Rightarrow> string \<Rightarrow> mp \<Rightarrow> bool \<times> mp" where
  "mp_connect E fd path m =
     (case on_base (do_connect E) m of
        (ok, m) \<Rightarrow> (ok, if ok then m\<lparr>peers := (fd, path) # peers m\<rparr> else m))"

definition mp_write :: "env \<Rightarrow> net \<Rightarrow> int \<Rightarrow> byte list \<Rightarrow> mp \<Rightarrow> (bool \<times> mp) option" where
  "mp_write E N fd data m =
     map_option (\<lambda>(ok, out, s). (ok, m\<lparr>base := s, sent := (if ok then sent m @ [(fd, map_of (peers m) fd, out)] else sent m)\<rparr>))
       (do_write E N data (base m))"

definition SocketPath :: string where
  "SocketPath = ''/tmp/vgc-malloc''"

definition socketName :: "int \<Rightarrow> string" where
  "socketName pid = fst (snprintf SocketNameSize (SocketPath @ ''/malloc-'' @ dec pid @ ''.sock''))"

definition unlink :: "env \<Rightarrow> string \<Rightarrow> mp \<Rightarrow> errno option \<times> mp" where
  "unlink E path m =
     (case on_base (sys E) m of
        (Some e, m) \<Rightarrow> (Some e, m)
      | (None, m) \<Rightarrow>
          if path \<in> (\<lambda>f. SocketPath @ ''/'' @ fst f) ` set (sockdir m)
          then (None, m\<lparr>sockdir := filter (\<lambda>f. SocketPath @ ''/'' @ fst f \<noteq> path) (sockdir m)\<rparr>)
          else (Some ENOENT, m))"

section \<open>The protocol message\<close>

text \<open>The bytes of a \<^verbatim>\<open>MProtectBlock\<close> on x86-64: a pointer and two 32-bit integers, little endian.\<close>

record MProtectBlock =
  blk_header :: addr
  blk_prot :: int
  blk_sourcePID :: int

abbreviation sizeof_MProtectBlock :: size_t where
  "sizeof_MProtectBlock \<equiv> 16"

abbreviation PROT_NONE :: int where "PROT_NONE \<equiv> 0"
abbreviation PROT_READ_WRITE :: int where "PROT_READ_WRITE \<equiv> 3"

fun le_bytes :: "nat \<Rightarrow> nat \<Rightarrow> byte list" where
  "le_bytes 0 n = []"
| "le_bytes (Suc k) n = of_nat n # le_bytes k (n div 256)"

fun le_nat :: "byte list \<Rightarrow> nat" where
  "le_nat [] = 0"
| "le_nat (b # bs) = unat b + 256 * le_nat bs"

definition int_bytes :: "int \<Rightarrow> byte list" where
  "int_bytes i = le_bytes 4 (nat (i mod 2 ^ 32))"

definition bytes_int :: "byte list \<Rightarrow> int" where
  "bytes_int bs = signed_take_bit 31 (int (le_nat bs))"

definition encode_block :: "MProtectBlock \<Rightarrow> byte list" where
  "encode_block b =
     le_bytes 8 (unat (blk_header b)) @ int_bytes (blk_prot b) @ int_bytes (blk_sourcePID b)"

definition decode_block :: "byte list \<Rightarrow> MProtectBlock" where
  "decode_block bs = \<lparr>blk_header = of_nat (le_nat (take 8 bs)),
     blk_prot = bytes_int (take 4 (drop 8 bs)), blk_sourcePID = bytes_int (take 4 (drop 12 bs))\<rparr>"

section \<open>The table of children\<close>

fun firstChild :: "(VGC_mallocDebugChild \<Rightarrow> bool) \<Rightarrow> int \<Rightarrow> VGC_mallocDebugChild list \<Rightarrow> int" where
  "firstChild P pos [] = -1"
| "firstChild P pos (c # cs) = (if P c then pos else firstChild P (pos + 1) cs)"

definition findFreeChild :: "int \<Rightarrow> mp \<Rightarrow> (int \<times> mp) option" where
  "findFreeChild pid m = do {
     cs \<leftarrow> table m;
     if firstChild (\<lambda>c. ch_pid c = pid) 0 cs \<noteq> -1 then Some (-1, m)
     else let pos = firstChild (\<lambda>c. ch_pid c = 0) 0 cs in
       if pos = -1 then Some (-1, m)
       else Some (pos, upd_child (nat pos) (\<lambda>c. c\<lparr>ch_pid := pid\<rparr>) m) }"

definition countChildren :: "mp \<Rightarrow> int option" where
  "countChildren m = do {
     cs \<leftarrow> table m;
     Some (foldl (\<lambda>count c. if ch_pid c \<noteq> 0 then count + 1 else count) 0 cs) }"

text \<open>The thread runs \<open>manageCorruptionThread\<close> below; \<^verbatim>\<open>pthread_create\<close> stores its identity.\<close>

definition startChildThread :: "env \<Rightarrow> (nat \<Rightarrow> nat) \<Rightarrow> nat \<Rightarrow> mp \<Rightarrow> (bool \<times> mp) option" where
  "startChildThread E tid i m = do {
     c \<leftarrow> get_child i m;
     let m = say (VGC_MALLOC_DEBUG_LEVEL + 2) (CR_start (ch_pid c)) m;
     let t = tid (ticks (base m));
     Some (case on_base (PTHREAD_create E) m of
             (False, m) \<Rightarrow> (False, say ERROR_LEVEL CR_create_failed m)
           | (True, m) \<Rightarrow> (True, upd_child i (\<lambda>c. c\<lparr>ch_thread := t\<rparr>) m)) }"

definition removeChildThread :: "env \<Rightarrow> nat \<Rightarrow> mp \<Rightarrow> mp option" where
  "removeChildThread E i m = do {
     c \<leftarrow> get_child i m;
     let m = say (VGC_MALLOC_DEBUG_LEVEL + 2) (CR_stop (ch_pid c)) m;
     let (ok, m) = on_base (PTHREAD_cancel E) m;
     let m = (if ok then m else say ERROR_LEVEL CR_cancel_failed m);
     let (ok, m) = on_base (PTHREAD_join E) m;
     let m = (if ok then m else say ERROR_LEVEL CR_join_failed m);
     let m = upd_child i (\<lambda>c. c\<lparr>ch_pid := 0, ch_thread := 0\<rparr>) m;
     let m = mp_close E (ch_socketFD c) m;
     Some (snd (unlink E (ch_socketName c) m)) }"

definition startChildDebugCorruption :: "env \<Rightarrow> (nat \<Rightarrow> nat) \<Rightarrow> mp \<Rightarrow> mp option" where
  "startChildDebugCorruption E tid m = do {
     (pos, m) \<leftarrow> findFreeChild (getpid m) m;
     if pos = -1 then Some m
     else do {
       (ok, m) \<leftarrow> startChildThread E tid (nat pos) m;
       if \<not> ok then Some m
       else do {
         count \<leftarrow> countChildren m;
         if count > 1 \<and> \<not> isFather m then do {
           let m = m\<lparr>isFather := True\<rparr>;
           (p, m) \<leftarrow> findFreeChild (getpid m) m;
           if p = -1 then Some m
           else do { (ok, m) \<leftarrow> startChildThread E tid (nat p) m; Some m } }
         else Some m } } }"

definition stopChildDebugCorruption :: "env \<Rightarrow> mp \<Rightarrow> mp option" where
  "stopChildDebugCorruption E m = do {
     cs \<leftarrow> table m;
     let i = firstChild (\<lambda>c. ch_pid c = getpid m) 0 cs;
     if i = -1 then Some m else removeChildThread E (nat i) m }"

section \<open>Telling the other processes\<close>

text \<open>\<open>is\<close> are the indices the loop still has to visit; a \<^verbatim>\<open>break\<close> leaves it.\<close>

fun distributeTo :: "env \<Rightarrow> net \<Rightarrow> MProtectBlock \<Rightarrow> nat list \<Rightarrow> mp \<Rightarrow> mp option" where
  "distributeTo E N block [] m = Some m"
| "distributeTo E N block (i # is) m = do {
     c \<leftarrow> get_child i m;
     if ch_pid c = 0 then distributeTo E N block is m
     else if ch_pid c = blk_sourcePID block then distributeTo E N block is m
     else do {
       let m = say (VGC_MALLOC_DEBUG_LEVEL + 2)
         (CR_distribute (blk_prot block = PROT_NONE) (blk_header block) (blk_sourcePID block) (ch_pid c)) m;
       let (ok, fd, m) = mp_socket E N m;
       if \<not> ok then Some m
       else do {
         let (ok, m) = mp_connect E fd (sun_path (ch_socketName c)) m;
         if \<not> ok then removeChildThread E i (mp_close E fd m)
         else do {
           (ok, m) \<leftarrow> mp_write E N fd (encode_block block) m;
           if \<not> ok then removeChildThread E i (mp_close E fd m)
           else do {
             (ok, readBytes, answer, m) \<leftarrow> mp_read E N 4 m;
             if \<not> ok then removeChildThread E i (mp_close E fd m)
             else distributeTo E N block is (mp_close E fd m) } } } } }"

definition mprotectDistribute :: "env \<Rightarrow> net \<Rightarrow> addr \<Rightarrow> int \<Rightarrow> mp \<Rightarrow> mp option" where
  "mprotectDistribute E N header pr m =
     distributeTo E N \<lparr>blk_header = header, blk_prot = pr, blk_sourcePID = getpid m\<rparr>
       [0..<nat (maxProcesses m)] m"

text \<open>\<open>VGC_mprotect\<close> and \<open>VGC_munprotect\<close> as this build has them.\<close>

definition VGC_mprotect_mp :: "env \<Rightarrow> net \<Rightarrow> addr \<Rightarrow> mp \<Rightarrow> (bool \<times> mp) option" where
  "VGC_mprotect_mp E N header m =
     (case on_base (do_mprotect E header (sh_pageSize (shared (hp (base m)))) True) m of
        (False, m) \<Rightarrow> Some (False, m)
      | (True, m) \<Rightarrow> do { m \<leftarrow> mprotectDistribute E N header PROT_NONE m; Some (True, m) })"

definition VGC_munprotect_mp :: "env \<Rightarrow> net \<Rightarrow> addr \<Rightarrow> mp \<Rightarrow> (bool \<times> mp) option" where
  "VGC_munprotect_mp E N header m =
     (case on_base (do_mprotect E header (sh_pageSize (shared (hp (base m)))) False) m of
        (False, m) \<Rightarrow> Some (False, m)
      | (True, m) \<Rightarrow> do { m \<leftarrow> mprotectDistribute E N header PROT_READ_WRITE m; Some (True, m) })"

section \<open>The thread that listens\<close>

text \<open>One request: whether the connection goes on, with the answer sent, or is left by a \<^verbatim>\<open>break\<close>.\<close>

definition serveBlock :: "env \<Rightarrow> net \<Rightarrow> nat \<Rightarrow> int \<Rightarrow> MProtectBlock \<Rightarrow> mp \<Rightarrow> (bool \<times> mp) option" where
  "serveBlock E N i fd block m = do {
     c \<leftarrow> get_child i m;
     if ch_pid c = blk_sourcePID block then Some (False, m)
     else do {
       let protecting = (blk_prot block = PROT_NONE);
       let m = say (VGC_MALLOC_DEBUG_LEVEL + 1)
         (CR_serve protecting (blk_header block) (ch_pid c) (blk_sourcePID block)) m;
       (ok, m) \<leftarrow> (if protecting then VGC_mprotect_mp E N (blk_header block) m
                  else VGC_munprotect_mp E N (blk_header block) m);
       if \<not> ok then do {
         c \<leftarrow> get_child i m;
         let m = say ERROR_LEVEL
           (CR_serve_failed protecting (blk_header block) (ch_pid c) (blk_sourcePID block)) m;
         if protecting then Some (False, m)
         else do { (sent, m) \<leftarrow> mp_write E N fd (int_bytes 0) m; Some (False, m) } }
       else do {
         (ok, m) \<leftarrow> mp_write E N fd (int_bytes 1) m;
         Some (if ok then (True, m) else (False, mp_close E fd m)) } } }"

partial_function (option) serveConnection ::
    "env \<Rightarrow> net \<Rightarrow> nat \<Rightarrow> int \<Rightarrow> mp \<Rightarrow> mp option" where
  "serveConnection E N i fd m = do {
     (ok, readBytes, buf, m) \<leftarrow> mp_read E N sizeof_MProtectBlock m;
     if \<not> ok then Some (mp_close E fd m)
     else if readBytes = 0 then serveConnection E N i fd m
     else do {
       (more, m) \<leftarrow> serveBlock E N i fd (decode_block buf) m;
       if more then serveConnection E N i fd m else Some m } }"

partial_function (option) acceptLoop :: "env \<Rightarrow> net \<Rightarrow> nat \<Rightarrow> mp \<Rightarrow> mp option" where
  "acceptLoop E N i m = do {
     c \<leftarrow> get_child i m;
     (ok, fd, m) \<leftarrow> mp_accept E N m;
     if \<not> ok then Some m
     else do {
       m \<leftarrow> serveConnection E N i fd m;
       acceptLoop E N i (mp_close E fd m) } }"

text \<open>\<^verbatim>\<open>bind\<close> makes the file of the socket.\<close>

definition manageCorruptionThread :: "env \<Rightarrow> net \<Rightarrow> nat \<Rightarrow> mp \<Rightarrow> mp option" where
  "manageCorruptionThread E N i m = do {
     c \<leftarrow> get_child i m;
     let name = socketName (ch_pid c);
     let m = upd_child i (\<lambda>c. c\<lparr>ch_socketName := name\<rparr>) m;
     let fd = net_fd N (ticks (base m));
     let (e, m) = on_base (sys E) m;
     case e of
       Some e \<Rightarrow> Some (say ERROR_LEVEL (CR_socket e) (upd_child i (\<lambda>c. c\<lparr>ch_socketFD := -1\<rparr>) m))
     | None \<Rightarrow> do {
         let m = (upd_child i (\<lambda>c. c\<lparr>ch_socketFD := fd\<rparr>) m)\<lparr>fds := fd # fds m\<rparr>;
         let (ok, m) = on_base (do_bind E) m;
         if \<not> ok then Some m
         else do {
           let m = m\<lparr>sockdir := (drop (length SocketPath + 1) (sun_path name), True) # sockdir m\<rparr>;
           let (ok, m) = on_base (do_listen E) m;
           if \<not> ok then Some m else acceptLoop E N i m } } }"

section \<open>Starting and stopping\<close>

text \<open>
  \<open>errno0\<close> is the value \<^verbatim>\<open>errno\<close> has on entry: the code tests it again when \<^verbatim>\<open>mkdir\<close> succeeded. The
  \<open>k\<close>-th file is \<open>k\<close>-th in the listing of the directory.
\<close>

fun cleanSockets :: "env \<Rightarrow> (string \<times> bool) list \<Rightarrow> mp \<Rightarrow> mp" where
  "cleanSockets E [] m = m"
| "cleanSockets E ((name, sock) # fs) m =
     (if sock
      then let socketFile = fst (snprintf 1024 (SocketPath @ ''/'' @ name));
               m = say VGC_MALLOC_DEBUG_LEVEL (CR_removing socketFile) m
           in case unlink E socketFile m of
                (Some e, m) \<Rightarrow> cleanSockets E fs (say VGC_MALLOC_DEBUG_LEVEL (CR_unlink socketFile e) m)
              | (None, m) \<Rightarrow> cleanSockets E fs m
      else cleanSockets E fs m)"

definition cleanDir :: "env \<Rightarrow> mp \<Rightarrow> mp" where
  "cleanDir E m =
     (let m = say 4 CR_exists m in
      case on_base (sys E) m of
        (Some e, m) \<Rightarrow> m
      | (None, m) \<Rightarrow> snd (on_base (sys E) (cleanSockets E (sockdir m) m)))"

definition initChildDebugCorruption :: "env \<Rightarrow> errno option \<Rightarrow> mp \<Rightarrow> mp option" where
  "initChildDebugCorruption E errno0 m = do {
     let m = say VGC_MALLOC_DEBUG_LEVEL CR_init m;
     cs \<leftarrow> table m;
     let m = m\<lparr>children := map (\<lambda>c. c\<lparr>ch_pid := 0, ch_thread := 0\<rparr>) cs @ drop (length cs) (children m),
               isFather := False\<rparr>;
     let (e, m) = on_base (sys E) m;
     let errno = (if e = None then errno0 else e);
     if e \<noteq> None \<and> e \<noteq> Some EEXIST then Some (say ERROR_LEVEL (CR_mkdir (the e)) m)
     else Some (if errno = Some EEXIST then cleanDir E m else m) }"

text \<open>
  The source compares the result of \<^verbatim>\<open>mmap\<close> with 0, not with \<open>MAP_FAILED\<close>, so a table that could
  not be mapped is found out by the first store into it.
\<close>

definition startMprotect ::
    "env \<Rightarrow> (nat \<Rightarrow> nat) \<Rightarrow> errno option \<Rightarrow> int \<Rightarrow> mp \<Rightarrow> (bool \<times> mp) option" where
  "startMprotect E tid errno0 n m = do {
     let m = m\<lparr>maxProcesses := n\<rparr>;
     let (a, m) = on_base (mmap E (of_int n * sizeof_child)) m;
     let m = m\<lparr>children_at := a, children := (if a = MAP_FAILED then [] else replicate (nat n) zero_child)\<rparr>;
     if a = 0 then Some (False, say ERROR_LEVEL CR_mmap m)
     else do {
       m \<leftarrow> initChildDebugCorruption E errno0 m;
       m \<leftarrow> startChildDebugCorruption E tid m;
       Some (True, m) } }"

fun stopAll :: "env \<Rightarrow> nat list \<Rightarrow> mp \<Rightarrow> mp option" where
  "stopAll E [] m = Some m"
| "stopAll E (i # is) m = do {
     c \<leftarrow> get_child i m;
     if ch_pid c \<noteq> 0
     then if ch_pid c \<noteq> getpid m
       then do { m \<leftarrow> removeChildThread E i m; stopAll E is m }
       else do {
         let m = upd_child i (\<lambda>c. c\<lparr>ch_pid := 0, ch_thread := 0\<rparr>) m;
         let m = mp_close E (ch_socketFD c) m;
         stopAll E is (snd (unlink E (ch_socketName c) m)) }
     else stopAll E is m }"

definition stopMprotect :: "env \<Rightarrow> mp \<Rightarrow> mp option" where
  "stopMprotect E m = do {
     m \<leftarrow> stopAll E [0..<nat (maxProcesses m)] (say (VGC_MALLOC_DEBUG_LEVEL + 2) CR_stopping m);
     if children_at m \<noteq> 0
     then case on_base (munmap E (children_at m) (of_int (maxProcesses m) * sizeof_child)) m of
            (Some e, m) \<Rightarrow> Some (say ERROR_LEVEL (CR_munmap e) m)
          | (None, m) \<Rightarrow> Some (m\<lparr>children := []\<rparr>)
     else Some m }"

definition VGC_mallocStatusDebugCorruption :: "state \<Rightarrow> string" where
  "VGC_mallocStatusDebugCorruption s =
     (if sh_isMprotectEnabled (shared (hp s)) then ''enabled'' else ''disabled'')"

definition startChildMprotect :: "env \<Rightarrow> (nat \<Rightarrow> nat) \<Rightarrow> mp \<Rightarrow> mp option" where
  "startChildMprotect E tid m = startChildDebugCorruption E tid m"

definition stopChildMprotect :: "env \<Rightarrow> mp \<Rightarrow> mp option" where
  "stopChildMprotect E m = stopChildDebugCorruption E m"

text \<open>
  \<open>initializeShared\<close> as this build has it; the result of \<open>startMprotect\<close> is ignored. The record has three
  more fields in this build.
\<close>

abbreviation sizeof_VGC_shared_mp :: size_t where
  "sizeof_VGC_shared_mp \<equiv> 112"

definition initializeShared_mp ::
    "env \<Rightarrow> (nat \<Rightarrow> nat) \<Rightarrow> errno option \<Rightarrow> size_t \<Rightarrow> mp \<Rightarrow> (addr \<times> bool \<times> mp) option" where
  "initializeShared_mp E tid errno0 pageSize m = do {
     (a, ok, s) \<leftarrow> initializeShared_sized E sizeof_VGC_shared_mp pageSize (base m);
     let m = m\<lparr>base := s\<rparr>;
     let m = (if a = 0 then m else m\<lparr>maxProcesses := 0, children_at := 0, children := []\<rparr>);
     if \<not> ok then Some (a, False, m)
     else do {
       if sh_isMprotectEnabled (shared (hp s))
       then do { (started, m) \<leftarrow> startMprotect E tid errno0 10 m; Some (a, True, m) }
       else Some (a, True, m) } }"

end
