(* ===== verification/Children_Facts.thy ===== *)
theory Children_Facts
  imports Children
begin

text \<open>
  What holds of \<open>Children\<close>: the encoding of a request is read back as it was sent, no process
  is twice in the table, and what a distribution does to the table, the descriptors and the messages.
\<close>

section \<open>The encoding\<close>

lemma length_le_bytes [simp]: "length (le_bytes k n) = k"
  by (induction k arbitrary: n) auto

lemma le_nat_le_bytes: "n < 256 ^ k \<Longrightarrow> le_nat (le_bytes k n) = n"
proof (induction k arbitrary: n)
  case (Suc k)
  then have "n div 256 < 256 ^ k" by (simp add: less_mult_imp_div_less mult.commute)
  with Suc.IH [of "n div 256"] show ?case by (simp add: unat_of_nat)
qed simp

lemma bytes_int_int_bytes:
  assumes "- (2 ^ 31) \<le> i" and "i < 2 ^ 31"
  shows "bytes_int (int_bytes i) = i"
proof -
  have "nat (i mod 2 ^ 32) < 256 ^ 4" by (simp add: nat_less_iff)
  then have "int (le_nat (int_bytes i)) = i mod 2 ^ 32"
    by (simp add: int_bytes_def le_nat_le_bytes)
  then show ?thesis
    using assms by (simp add: bytes_int_def signed_take_bit_eq_take_bit_shift take_bit_eq_mod mod_simps)
qed

lemma length_int_bytes [simp]: "length (int_bytes i) = 4"
  by (simp add: int_bytes_def)

lemma decode_encode:
  assumes "- (2 ^ 31) \<le> blk_prot b" "blk_prot b < 2 ^ 31"
    and "- (2 ^ 31) \<le> blk_sourcePID b" "blk_sourcePID b < 2 ^ 31"
  shows "decode_block (encode_block b) = b" and "length (encode_block b) = unat sizeof_MProtectBlock"
  using assms unat_lt64 [of "blk_header b"]
  by (simp_all add: decode_block_def encode_block_def le_nat_le_bytes bytes_int_int_bytes)

section \<open>The table\<close>

definition pids :: "mp \<Rightarrow> int list" where
  "pids m = map ch_pid (children m)"

definition pids_ok :: "mp \<Rightarrow> bool" where
  "pids_ok m \<longleftrightarrow> distinct (filter (\<lambda>p. p \<noteq> 0) (pids m))"

lemma distinct_nonzero:
  "distinct (filter (\<lambda>p. p \<noteq> 0) (ps :: int list)) \<longleftrightarrow> (\<forall>p. p \<noteq> 0 \<longrightarrow> count_list ps p \<le> 1)"
proof (induction ps)
  case (Cons q ps)
  have "q \<notin> set ps \<longleftrightarrow> count_list ps q = 0" by (simp add: count_list_0_iff)
  with Cons show ?case by (cases "q = 0") (auto simp: Ball_def le_Suc_eq)
qed simp

text \<open>\<open>fewer m m'\<close>: the table has the length it had and lists no process more often than before.\<close>

definition fewer :: "mp \<Rightarrow> mp \<Rightarrow> bool" where
  "fewer m m' \<longleftrightarrow> length (children m') = length (children m) \<and> maxProcesses m' = maxProcesses m \<and>
     getpid m' = getpid m \<and> (\<forall>p. p \<noteq> 0 \<longrightarrow> count_list (pids m') p \<le> count_list (pids m) p)"

lemma fewer_refl [simp]: "fewer m m"
  by (simp add: fewer_def)

lemma fewer_trans [trans]: "fewer m n \<Longrightarrow> fewer n k \<Longrightarrow> fewer m k"
  unfolding fewer_def by (metis le_trans)

lemma fewer_pids_ok: "fewer m m' \<Longrightarrow> pids_ok m \<Longrightarrow> pids_ok m'"
  unfolding fewer_def pids_ok_def distinct_nonzero by (meson le_trans)

lemma fewer_same:
  "children m' = children m \<Longrightarrow> maxProcesses m' = maxProcesses m \<Longrightarrow> getpid m' = getpid m \<Longrightarrow> fewer m m'"
  by (simp add: fewer_def pids_def)

lemma count_list_update:
  "i < length xs \<Longrightarrow> count_list (xs[i := y]) p = count_list xs p - (if xs ! i = p then 1 else 0) + (if y = p then 1 else 0)"
proof (induction xs arbitrary: i)
  case (Cons x xs)
  show ?case
  proof (cases i)
    case (Suc j)
    moreover from Suc Cons.prems have "xs ! j = p \<Longrightarrow> 0 < count_list xs p"
      by (metis gr0I count_list_0_iff nth_mem Suc_less_eq length_Cons)
    ultimately show ?thesis using Cons by auto
  qed auto
qed simp

lemma pids_upd_child: "pids (upd_child i f m) = (pids m)[i := ch_pid (f (children m ! i))]"
  by (simp add: pids_def upd_child_def map_update)

lemma count_update_le:
  assumes "y = 0 \<or> y = xs ! i" and "p \<noteq> 0"
  shows "count_list (xs[i := y]) p \<le> count_list xs (p :: int)"
proof (cases "i < length xs \<and> y = 0")
  case True
  then show ?thesis using count_list_update [of i xs y p] assms(2) by simp
next
  case False
  then show ?thesis using assms(1) by (cases "i < length xs") (auto simp: list_update_beyond)
qed

lemma fewer_upd_child:
  assumes "ch_pid (f (children m ! i)) = 0 \<or> ch_pid (f (children m ! i)) = ch_pid (children m ! i)"
  shows "fewer m (upd_child i f m)"
proof -
  have "count_list (pids (upd_child i f m)) p \<le> count_list (pids m) p" if "p \<noteq> 0" for p
  proof (cases "i < length (children m)")
    case True
    then have "pids m ! i = ch_pid (children m ! i)" by (simp add: pids_def)
    then show ?thesis using assms that count_update_le by (simp add: pids_upd_child)
  next
    case False
    then show ?thesis by (simp add: pids_def upd_child_def list_update_beyond)
  qed
  then show ?thesis by (simp add: fewer_def) (simp add: upd_child_def)
qed

lemma fewer_on_base: "on_base f m = (r, m') \<Longrightarrow> fewer m m'"
  by (auto simp: on_base_def fewer_same split: prod.splits)

lemma fewer_say [simp]: "fewer m (say l r m')  = fewer m m'"
  by (simp add: say_def fewer_def pids_def)

lemma fewer_after_say [simp]: "fewer (say l r m) m' = fewer m m'"
  by (simp add: say_def fewer_def pids_def)

lemma fewer_close [simp]: "fewer m (mp_close E fd m') = fewer m m'"
  by (simp add: mp_close_def on_base_def fewer_def pids_def Let_def split: prod.splits)

lemma fewer_unlink: "unlink E path m = (r, m') \<Longrightarrow> fewer m m'"
  by (auto simp: unlink_def on_base_def fewer_same split: prod.splits option.splits if_splits)


text \<open>Every operation but the registration only takes processes out of the table.\<close>

lemmas fewer_steps = fewer_on_base fewer_unlink

lemma fewer_socket: "mp_socket E N m = (ok, fd, m') \<Longrightarrow> fewer m m'"
  by (auto simp: mp_socket_def fewer_same split: prod.splits)

lemma fewer_accept: "mp_accept E N m = Some (ok, fd, m') \<Longrightarrow> fewer m m'"
  by (auto simp: mp_accept_def fewer_same)

lemma fewer_read: "mp_read E N n m = Some (ok, k, buf, m') \<Longrightarrow> fewer m m'"
  by (auto simp: mp_read_def fewer_same)

lemma fewer_write: "mp_write E N fd data m = Some (ok, m') \<Longrightarrow> fewer m m'"
  by (auto simp: mp_write_def fewer_same split: prod.splits if_splits)

lemma fewer_connect: "mp_connect E fd path m = (ok, m') \<Longrightarrow> fewer m m'"
  by (auto simp: mp_connect_def on_base_def fewer_same split: prod.splits if_splits)

lemma removeChildThread_fewer:
  assumes "removeChildThread E i m = Some m'"
  shows "fewer m m'"
proof -
  obtain c where "get_child i m = Some c" using assms by (auto simp: removeChildThread_def bind_eq_Some_conv)
  then obtain ok1 m1 ok2 m2 where
    m1: "on_base (PTHREAD_cancel E) (say (VGC_MALLOC_DEBUG_LEVEL + 2) (CR_stop (ch_pid c)) m) = (ok1, m1)" and
    m2: "on_base (PTHREAD_join E) (if ok1 then m1 else say ERROR_LEVEL CR_cancel_failed m1) = (ok2, m2)"
    by fastforce
  let ?m3 = "if ok2 then m2 else say ERROR_LEVEL CR_join_failed m2"
  let ?m4 = "mp_close E (ch_socketFD c) (upd_child i (\<lambda>c. c\<lparr>ch_pid := 0, ch_thread := 0\<rparr>) ?m3)"
  have "m' = snd (unlink E (ch_socketName c) ?m4)"
    using assms m1 m2 \<open>get_child i m = Some c\<close> by (simp add: removeChildThread_def)
  then have "fewer ?m4 m'" by (metis fewer_unlink prod.collapse)
  moreover have "fewer ?m3 ?m4" by (simp add: fewer_upd_child)
  moreover have "fewer m1 m2" using fewer_on_base [OF m2] by (auto simp: fewer_def pids_def say_def split: if_splits)
  moreover have "fewer m m1" using fewer_on_base [OF m1] by (simp add: fewer_def pids_def say_def)
  moreover have "fewer m2 ?m3" by simp
  ultimately show ?thesis by (blast intro: fewer_trans)
qed

lemma distributeTo_fewer: "distributeTo E N b is m = Some m' \<Longrightarrow> fewer m m'"
proof (induction "is" arbitrary: m)
  case (Cons i "is")
  note step = Cons.prems [simplified]
  obtain c where c: "get_child i m = Some c" using step by (auto simp: bind_eq_Some_conv)
  show ?case
  proof (cases "ch_pid c = 0 \<or> ch_pid c = blk_sourcePID b")
    case True
    then show ?thesis using step c Cons.IH by (auto split: if_splits)
  next
    case False
    let ?m0 = "say (VGC_MALLOC_DEBUG_LEVEL + 2)
         (CR_distribute (blk_prot b = PROT_NONE) (blk_header b) (blk_sourcePID b) (ch_pid c)) m"
    have 0: "fewer m ?m0" by simp
    obtain ok fd m1 where m1: "mp_socket E N ?m0 = (ok, fd, m1)" by (metis prod_cases3)
    obtain ok2 m2 where m2: "mp_connect E fd (sun_path (ch_socketName c)) m1 = (ok2, m2)" by fastforce
    have le: "fewer m m1" "fewer m m2"
      using 0 fewer_socket [OF m1] fewer_connect [OF m2] by (blast intro: fewer_trans)+
    have close: "fewer m k \<Longrightarrow> fewer (mp_close E fd k) m' \<Longrightarrow> fewer m m'" for k
      using fewer_close [of m E fd k] fewer_trans by blast
    show ?thesis
      using step c False m1 m2 le
      by (auto simp: bind_eq_Some_conv split: if_splits dest!: removeChildThread_fewer fewer_write fewer_read Cons.IH
          intro: close fewer_trans)
  qed
qed simp

lemma mprotectDistribute_fewer: "mprotectDistribute E N a p m = Some m' \<Longrightarrow> fewer m m'"
  by (auto simp: mprotectDistribute_def dest: distributeTo_fewer)

lemma protect_fewer:
  "VGC_mprotect_mp E N a m = Some (b, m') \<Longrightarrow> fewer m m'"
  "VGC_munprotect_mp E N a m = Some (b, m') \<Longrightarrow> fewer m m'"
  by (auto simp: VGC_mprotect_mp_def VGC_munprotect_mp_def bind_eq_Some_conv split: prod.splits bool.splits
      dest!: fewer_on_base mprotectDistribute_fewer intro: fewer_trans)


section \<open>Registration\<close>

lemma firstChild_none: "0 \<le> k \<Longrightarrow> firstChild P k cs = -1 \<longleftrightarrow> list_all (\<lambda>c. \<not> P c) cs"
  by (induction cs arbitrary: k) auto

lemma firstChild_some:
  "0 \<le> k \<Longrightarrow> firstChild P k cs \<noteq> -1 \<Longrightarrow>
     \<exists>i < length cs. firstChild P k cs = k + int i \<and> P (cs ! i) \<and> (\<forall>j < i. \<not> P (cs ! j))"
proof (induction cs arbitrary: k)
  case (Cons c cs)
  show ?case
  proof (cases "P c")
    case False
    then obtain i where "i < length cs" "firstChild P (k + 1) cs = k + 1 + int i" "P (cs ! i)"
      "\<forall>j < i. \<not> P (cs ! j)"
      using Cons.IH [of "k + 1"] Cons.prems by auto
    then show ?thesis using False by (intro exI [of _ "Suc i"]) (auto simp: less_Suc_eq_0_disj)
  qed auto
qed simp

text \<open>A process is entered into the first free place, unless it is there already or there is none.\<close>

lemma findFreeChild_cases:
  assumes "findFreeChild pid m = Some (pos, m')" and "table m = Some cs"
  obtains (none) "pos = -1" "m' = m" "pid \<in> ch_pid ` set cs \<or> 0 \<notin> ch_pid ` set cs"
  | (free) i where "pos = int i" "i < length cs" "ch_pid (cs ! i) = 0" "\<forall>j < i. ch_pid (cs ! j) \<noteq> 0"
      "pid \<notin> ch_pid ` set cs" "m' = upd_child i (\<lambda>c. c\<lparr>ch_pid := pid\<rparr>) m"
proof -
  let ?old = "firstChild (\<lambda>c. ch_pid c = pid) 0 cs" and ?new = "firstChild (\<lambda>c. ch_pid c = 0) 0 cs"
  have old: "?old = -1 \<longleftrightarrow> pid \<notin> ch_pid ` set cs" and new: "?new = -1 \<longleftrightarrow> 0 \<notin> ch_pid ` set cs"
    by (auto simp: firstChild_none list_all_iff)
  show thesis
  proof (cases "?old \<noteq> -1 \<or> ?new = -1")
    case True
    then show thesis using assms old new none by (auto simp: findFreeChild_def Let_def split: if_splits)
  next
    case False
    then obtain i where "i < length cs" "?new = int i" "ch_pid (cs ! i) = 0" "\<forall>j < i. ch_pid (cs ! j) \<noteq> 0"
      using firstChild_some [of 0 "\<lambda>c. ch_pid c = 0" cs] by auto
    then show thesis using False assms old by (intro free [of i]) (auto simp: findFreeChild_def Let_def)
  qed
qed

lemma table_cases:
  "table m = Some cs \<Longrightarrow> cs = take (nat (maxProcesses m)) (children m) \<and> length cs = nat (maxProcesses m)"
  by (auto simp: table_def split: if_splits)

text \<open>The part of the table behind \<^verbatim>\<open>maxProcesses\<close> is never written, and holds no process.\<close>

definition table_ok :: "mp \<Rightarrow> bool" where
  "table_ok m \<longleftrightarrow> length (children m) \<le> nat (maxProcesses m) \<and> pids_ok m"

lemma fewer_table_ok: "fewer m m' \<Longrightarrow> table_ok m \<Longrightarrow> table_ok m'"
  unfolding table_ok_def using fewer_pids_ok by (auto simp: fewer_def)

interpretation table: protecting fewer "\<lambda>m (_ :: unit). table_ok m"
  by unfold_locales (simp, rule fewer_trans, assumption+, rule fewer_table_ok)

lemma findFreeChild_ok:
  assumes "findFreeChild pid m = Some (pos, m')" and "table_ok m"
  shows "table_ok m'"
proof -
  obtain cs where cs: "table m = Some cs" using assms(1) by (auto simp: findFreeChild_def bind_eq_Some_conv)
  with assms(2) have len: "children m = cs" using table_cases [OF cs] by (simp add: table_ok_def)
  from assms(1) cs show ?thesis
  proof (cases rule: findFreeChild_cases)
    case (free i)
    have "count_list (pids m) pid = 0" using free(5) len by (auto simp: pids_def count_list_0_iff)
    moreover have "pids m' = (pids m)[i := pid]" "i < length (pids m)"
      using free(2,6) len by (simp_all add: pids_upd_child, simp add: pids_def)
    ultimately have "pids_ok m'"
      using assms(2) unfolding table_ok_def pids_ok_def distinct_nonzero
      by (auto simp: count_list_update)
    then show ?thesis using assms(2) free(6) by (simp add: table_ok_def upd_child_def)
  qed (use assms(2) in simp)
qed

lemma table_ok_father [simp]: "table_ok (m\<lparr>isFather := b\<rparr>) = table_ok m"
  by (simp add: table_ok_def pids_ok_def pids_def)

lemma pids_upd_other: "(\<And>c. ch_pid (f c) = ch_pid c) \<Longrightarrow> pids (upd_child i f m) = pids m"
  by (cases "i < length (children m)")
    (simp_all add: pids_upd_child, simp_all add: pids_def list_update_same_conv list_update_beyond)

lemma fewer_upd_other [simp]:
  "(\<And>c. ch_pid (f c) = ch_pid c) \<Longrightarrow> fewer m (upd_child i f m') = fewer m m'"
  by (simp add: fewer_def pids_upd_other) (simp add: upd_child_def)

lemma startChildThread_fewer:
  assumes "startChildThread E tid i m = Some (b, m')"
  shows "fewer m m'"
proof -
  obtain c where c: "get_child i m = Some c" using assms by (auto simp: startChildThread_def bind_eq_Some_conv)
  let ?m0 = "say (VGC_MALLOC_DEBUG_LEVEL + 2) (CR_start (ch_pid c)) m"
  obtain ok m1 where m1: "on_base (PTHREAD_create E) ?m0 = (ok, m1)" by fastforce
  have "fewer ?m0 m1" using m1 by (rule fewer_on_base)
  then have "fewer m m1" by (rule fewer_trans [rotated]) simp
  then show ?thesis
    using assms c m1 by (cases ok) (auto simp: startChildThread_def Let_def)
qed

lemma startChildDebugCorruption_ok:
  assumes "startChildDebugCorruption E tid m = Some m'" and "table_ok m"
  shows "table_ok m'"
  using assms
  by (auto simp: startChildDebugCorruption_def bind_eq_Some_conv Let_def split: if_splits prod.splits
      dest!: startChildThread_fewer findFreeChild_ok fewer_table_ok)


lemma stopChildDebugCorruption_fewer: "stopChildDebugCorruption E m = Some m' \<Longrightarrow> fewer m m'"
  by (auto simp: stopChildDebugCorruption_def bind_eq_Some_conv Let_def split: if_splits
      dest: removeChildThread_fewer)

lemma stopAll_fewer: "stopAll E is m = Some m' \<Longrightarrow> fewer m m'"
proof (induction "is" arbitrary: m)
  case (Cons i "is")
  obtain c where c: "get_child i m = Some c" using Cons.prems by (auto simp: bind_eq_Some_conv)
  let ?m1 = "mp_close E (ch_socketFD c) (upd_child i (\<lambda>c. c\<lparr>ch_pid := 0, ch_thread := 0\<rparr>) m)"
  have "fewer m ?m1" by (simp add: fewer_upd_child)
  then have own: "fewer m (snd (unlink E (ch_socketName c) ?m1))"
    by (metis fewer_trans fewer_unlink prod.collapse)
  show ?case
    using Cons.prems c
    by (auto simp: bind_eq_Some_conv split: if_splits dest!: removeChildThread_fewer Cons.IH
        intro: fewer_trans [OF own] fewer_trans)
qed simp

section \<open>The listening thread\<close>

lemma serveBlock_fewer:
  assumes "serveBlock E N i fd block m = Some (goes, m')"
  shows "fewer m m'"
proof -
  obtain c where c: "get_child i m = Some c" using assms by (auto simp: serveBlock_def bind_eq_Some_conv)
  let ?m0 = "say 5
    (CR_serve (blk_prot block = PROT_NONE) (blk_header block) (ch_pid c) (blk_sourcePID block)) m"
  show ?thesis
  proof (cases "ch_pid c = blk_sourcePID block")
    case False
    then obtain ok m1 where m1: "(if blk_prot block = PROT_NONE then VGC_mprotect_mp E N (blk_header block) ?m0
        else VGC_munprotect_mp E N (blk_header block) ?m0) = Some (ok, m1)"
      using assms c by (auto simp: serveBlock_def bind_eq_Some_conv Let_def)
    have le: "fewer m m1" using m1 by (auto dest: protect_fewer split: if_splits)
    show ?thesis
    proof (cases ok)
      case True
      then have "\<exists>b k. mp_write E N fd (int_bytes 1) m1 = Some (b, k) \<and> (m' = k \<or> m' = mp_close E fd k)"
        using assms c False m1 by (auto simp: serveBlock_def bind_eq_Some_conv Let_def split: if_splits)
      then show ?thesis using fewer_trans [OF le fewer_write] by auto
    next
      case failed: False
      then have "\<exists>k. (m' = k \<or> (\<exists>b. mp_write E N fd (int_bytes 0) k = Some (b, m'))) \<and> fewer m1 k"
        using assms c False m1 by (auto simp: serveBlock_def bind_eq_Some_conv Let_def split: if_splits)
      then show ?thesis using fewer_trans [OF le] fewer_write fewer_trans by blast
    qed
  qed (use assms c in \<open>simp add: serveBlock_def\<close>)
qed

lemma serveConnection_fewer:
  assumes "serveConnection E N i fd m = Some m'"
  shows "fewer m m'"
proof (rule serveConnection.raw_induct [where P = "\<lambda>E N i fd m m'. fewer m m'", OF _ assms])
  fix rec E N i fd m m'
  assume IH: "\<And>E N i fd m m'. rec E N i fd m = Some m' \<Longrightarrow> fewer m m'"
    and step: "do {
      (ok, readBytes, buf, m) \<leftarrow> mp_read E N sizeof_MProtectBlock m;
      if \<not> ok then Some (mp_close E fd m)
      else if readBytes = 0 then rec E N i fd m
      else do {
        (more, m) \<leftarrow> serveBlock E N i fd (decode_block buf) m;
        if more then rec E N i fd m else Some m } } = Some m'"
  from step show "fewer m m'"
    by (auto simp: bind_eq_Some_conv split: if_splits dest!: fewer_read serveBlock_fewer IH intro: fewer_trans)
qed

lemma acceptLoop_fewer:
  assumes "acceptLoop E N i m = Some m'"
  shows "fewer m m'"
proof (rule acceptLoop.raw_induct [where P = "\<lambda>E N i m m'. fewer m m'", OF _ assms])
  fix rec E N i m m'
  assume IH: "\<And>E N i m m'. rec E N i m = Some m' \<Longrightarrow> fewer m m'"
    and step: "do {
      c \<leftarrow> get_child i m;
      (ok, fd, m) \<leftarrow> mp_accept E N m;
      if \<not> ok then Some m
      else do {
        m \<leftarrow> serveConnection E N i fd m;
        rec E N i (mp_close E fd m) } } = Some m'"
  have close: "fewer (mp_close E fd k) k' \<Longrightarrow> fewer k k'" for fd k k'
    using fewer_trans fewer_close fewer_refl by blast
  from step show "fewer m m'"
    by (auto simp: bind_eq_Some_conv split: if_splits dest!: fewer_accept serveConnection_fewer IH close
        intro: fewer_trans)
qed


lemma manageCorruptionThread_fewer:
  assumes "manageCorruptionThread E N i m = Some m'"
  shows "fewer m m'"
proof -
  obtain c where c: "get_child i m = Some c" using assms by (auto simp: manageCorruptionThread_def bind_eq_Some_conv)
  let ?m0 = "upd_child i (\<lambda>k. k\<lparr>ch_socketName := socketName (ch_pid c)\<rparr>) m"
  obtain e m1 where m1: "on_base (sys E) ?m0 = (e, m1)" by fastforce
  let ?fd = "net_fd N (ticks (base ?m0))"
  let ?m2 = "(upd_child i (\<lambda>c. c\<lparr>ch_socketFD := ?fd\<rparr>) m1)\<lparr>fds := ?fd # fds m1\<rparr>"
  have fds: "fewer k (k'\<lparr>fds := x\<rparr>) = fewer k k'" "fewer k (k'\<lparr>sockdir := y\<rparr>) = fewer k k'" for k k' x y
    by (simp_all add: fewer_def pids_def)
  have "fewer ?m0 m1" using m1 by (rule fewer_on_base)
  then have 1: "fewer m m1" by (rule fewer_trans [rotated]) simp
  show ?thesis
  proof (cases e)
    case (Some e)
    then show ?thesis using assms c m1 1 by (simp add: manageCorruptionThread_def Let_def) auto
  next
    case None
    have 2: "fewer m ?m2" using 1 by (simp add: fds)
    obtain ok m3 where m3: "on_base (do_bind E) ?m2 = (ok, m3)" by fastforce
    let ?m4 = "m3\<lparr>sockdir := (drop (length SocketPath + 1) (sun_path (socketName (ch_pid c))), True) # sockdir m3\<rparr>"
    obtain ok2 m5 where m5: "on_base (do_listen E) ?m4 = (ok2, m5)" by fastforce
    have 3: "fewer m m3" using 2 fewer_on_base [OF m3] by (rule fewer_trans)
    have "fewer m ?m4" using 3 by (simp add: fds)
    then have "fewer m m5" using fewer_on_base [OF m5] by (rule fewer_trans)
    then show ?thesis
      using assms c m1 m3 m5 3 None
      by (auto simp: manageCorruptionThread_def Let_def upd_child_def split: if_splits
          dest!: acceptLoop_fewer intro: fewer_trans)
  qed
qed

section \<open>A run of all the processes\<close>

lemma table_ok_say [simp]: "table_ok (say l r m) = table_ok m"
  by (simp add: table_ok_def pids_ok_def pids_def say_def)

lemma cleanSockets_fewer: "fewer m (cleanSockets E fs m)"
proof (induction fs arbitrary: m)
  case (Cons f fs)
  have "fewer m k \<Longrightarrow> fewer m (cleanSockets E fs k)" for k using Cons.IH fewer_trans by blast
  moreover have "fewer m (snd (unlink E path (say l r m)))" for path l r
    by (rule fewer_trans [of _ "say l r m"]) (simp, metis fewer_unlink prod.collapse)
  then have "unlink E path (say l r m) = (e, m') \<Longrightarrow> fewer m m'" for path l r e m' by (metis snd_conv)
  ultimately show ?case by (cases f) (auto simp: Let_def split: prod.splits option.splits)
qed simp

lemma fewer_tick: "fewer k (snd (on_base f k))"
  by (metis fewer_on_base prod.collapse)

lemma cleanDir_fewer: "fewer m (cleanDir E m)"
proof -
  have "fewer m (snd (on_base (sys E) (say 4 CR_exists m)))"
    by (rule fewer_trans [of _ "say 4 CR_exists m"]) (simp_all add: fewer_tick)
  then show ?thesis
    by (auto simp: cleanDir_def Let_def split: prod.splits option.splits
        intro: fewer_trans [OF fewer_trans [OF _ cleanSockets_fewer] fewer_tick])
qed

lemma initChildDebugCorruption_ok:
  assumes "initChildDebugCorruption E errno0 k = Some k'" and "table_ok k"
  shows "table_ok k'"
proof -
  let ?k = "say VGC_MALLOC_DEBUG_LEVEL CR_init k"
  obtain cs where cs: "table ?k = Some cs"
    using assms(1) by (auto simp: initChildDebugCorruption_def Let_def bind_eq_Some_conv)
  let ?k1 = "?k\<lparr>children := map (\<lambda>c. c\<lparr>ch_pid := 0, ch_thread := 0\<rparr>) cs @ drop (length cs) (children ?k),
             isFather := False\<rparr>"
  obtain e k2 where k2: "on_base (sys E) ?k1 = (e, k2)" by fastforce
  have "table_ok ?k" using assms(2) by simp
  then have "children ?k = cs" "length cs \<le> nat (maxProcesses ?k)"
    using table_cases [OF cs] by (simp_all add: table_ok_def)
  then have "table_ok ?k1" by (simp add: table_ok_def pids_ok_def pids_def comp_def filter_empty_conv)
  then have "table_ok k2" using fewer_on_base [OF k2] by (rule fewer_table_ok [rotated])
  then show ?thesis
    using assms(1) cs k2 fewer_table_ok [OF cleanDir_fewer]
    by (auto simp: initChildDebugCorruption_def Let_def split: if_splits)
qed

lemma startMprotect_ok:
  assumes "startMprotect E tid errno0 n m = Some (b, m')"
  shows "table_ok m'"
proof -
  obtain a m1 where m1: "on_base (mmap E (of_int n * sizeof_child)) (m\<lparr>maxProcesses := n\<rparr>) = (a, m1)"
    by fastforce
  let ?m2 = "m1\<lparr>children_at := a, children := (if a = MAP_FAILED then [] else replicate (nat n) zero_child)\<rparr>"
  have "maxProcesses m1 = n" using fewer_on_base [OF m1] by (simp add: fewer_def)
  then have ok: "table_ok ?m2"
    by (simp add: table_ok_def pids_ok_def pids_def zero_child_def)
  show ?thesis
    using assms m1 ok
    by (auto simp: startMprotect_def Let_def bind_eq_Some_conv split: if_splits
        dest!: initChildDebugCorruption_ok startChildDebugCorruption_ok)
qed

lemma stopMprotect_ok:
  assumes "stopMprotect E m = Some m'" and "table_ok m"
  shows "table_ok m'"
proof -
  have empty: "table_ok (k\<lparr>children := []\<rparr>)" for k by (simp add: table_ok_def pids_ok_def pids_def)
  obtain m1 where m1: "stopAll E [0..<nat (maxProcesses m)] (say (VGC_MALLOC_DEBUG_LEVEL + 2) CR_stopping m) = Some m1"
    using assms(1) by (auto simp: stopMprotect_def bind_eq_Some_conv)
  have "table_ok m1" using fewer_table_ok [OF stopAll_fewer [OF m1]] assms(2) by simp
  then show ?thesis
    using assms(1) m1
    by (auto simp: stopMprotect_def empty split: if_splits prod.splits option.splits
        dest: fewer_table_ok [OF fewer_on_base])
qed

text \<open>
  What the processes do to the shared table. \<open>switch\<close> lets another process run: the table, the
  limit and the socket directory are shared, everything else is its own.
\<close>

inductive mp_step :: "mp \<Rightarrow> mp \<Rightarrow> bool" where
  switch: "mp_step m (m\<lparr>base := s, getpid := p, fds := f, peers := q, bad_close := b, sent := t\<rparr>)"
| start: "startChildMprotect E tid m = Some m' \<Longrightarrow> mp_step m m'"
| stop: "stopChildMprotect E m = Some m' \<Longrightarrow> mp_step m m'"
| protect: "VGC_mprotect_mp E N a m = Some (ok, m') \<Longrightarrow> mp_step m m'"
| unprotect: "VGC_munprotect_mp E N a m = Some (ok, m') \<Longrightarrow> mp_step m m'"
| thread: "manageCorruptionThread E N i m = Some m' \<Longrightarrow> mp_step m m'"
| finish: "stopMprotect E m = Some m' \<Longrightarrow> mp_step m m'"

inductive mp_reach :: "mp \<Rightarrow> bool" where
  init: "startMprotect E tid errno0 n m = Some (ok, m') \<Longrightarrow> mp_reach m'"
| step: "mp_reach m \<Longrightarrow> mp_step m m' \<Longrightarrow> mp_reach m'"

lemma mp_step_ok: "mp_step m m' \<Longrightarrow> table_ok m \<Longrightarrow> table_ok m'"
proof (induction rule: mp_step.induct)
  case (switch m s p f q b t)
  then show ?case by (simp add: table_ok_def pids_ok_def pids_def)
qed (auto simp: startChildMprotect_def stopChildMprotect_def
      dest: startChildDebugCorruption_ok stopChildDebugCorruption_fewer protect_fewer
        manageCorruptionThread_fewer stopMprotect_ok fewer_table_ok)

lemma mp_reach_ok: "mp_reach m \<Longrightarrow> table_ok m"
  by (induction rule: mp_reach.induct) (auto dest: startMprotect_ok mp_step_ok)

end
