(* ===== verification/Distribution.thy ===== *)
theory Distribution
  imports Children_Facts
begin

text \<open>
  What a distribution, the registration of a process and the listening thread do, on the paths
  where the system calls succeed and on those where they do not.
\<close>

section \<open>Telling every other process\<close>

definition is_target :: "int \<Rightarrow> mp \<Rightarrow> nat \<Rightarrow> bool" where
  "is_target pid m i \<longleftrightarrow> ch_pid (children m ! i) \<noteq> 0 \<and> ch_pid (children m ! i) \<noteq> pid"

definition targets :: "mp \<Rightarrow> nat list" where
  "targets m = filter (is_target (getpid m) m) [0..<nat (maxProcesses m)]"

lemma on_base_reliable:
  "f (base m) = (True, (base m)\<lparr>ticks := k\<rparr>) \<Longrightarrow> on_base f m = (True, m\<lparr>base := (base m)\<lparr>ticks := k\<rparr>\<rparr>)"
  by (simp add: on_base_def)

lemma say_sel [simp]:
  "children (say l r m) = children m" "fds (say l r m) = fds m" "peers (say l r m) = peers m" "sent (say l r m) = sent m"
  "bad_close (say l r m) = bad_close m" "getpid (say l r m) = getpid m" "sockdir (say l r m) = sockdir m"
  "maxProcesses (say l r m) = maxProcesses m" "ticks (base (say l r m)) = ticks (base m)"
  "isFather (say l r m) = isFather m" "children_at (say l r m) = children_at m"
  by (simp_all add: say_def)

text \<open>The request to the process at place \<open>i\<close> goes to the socket that is named there.\<close>

lemma tell_ok:
  assumes E: "reliable E" "\<forall>k. \<not> net_blocks N k"
    and i: "i < length (children m)" "is_target (blk_sourcePID b) m i"
  obtains m' where "distributeTo E N b (i # is) m = distributeTo E N b is m'"
    and "children m' = children m" "getpid m' = getpid m" "fds m' = fds m" "bad_close m' = bad_close m"
    and "sent m' = sent m @ [(net_fd N (ticks (base m)), Some (sun_path (ch_socketName (children m ! i))),
      take (net_wrote N (ticks (base m) + 2)) (encode_block b))]"
proof -
  let ?m0 = "say (VGC_MALLOC_DEBUG_LEVEL + 2)
         (CR_distribute (blk_prot b = PROT_NONE) (blk_header b) (blk_sourcePID b) (ch_pid (children m ! i))) m"
  let ?fd = "net_fd N (ticks (base m))" and ?path = "sun_path (ch_socketName (children m ! i))"
  let ?m4 = "?m0\<lparr>fds := ?fd # fds m, peers := (?fd, ?path) # peers m,
    sent := sent m @ [(?fd, Some ?path, take (net_wrote N (ticks (base m) + 2)) (encode_block b))],
    base := (base ?m0)\<lparr>ticks := ticks (base m) + 4\<rparr>\<rparr>"
  have "distributeTo E N b (i # is) m = distributeTo E N b is (mp_close E ?fd ?m4)"
    using assms
    by (simp add: get_child_def is_target_def mp_socket_def do_socket_ok on_base_def mp_connect_def net_calls_ok mp_write_def
        mp_read_def do_read_eq reliable_def Let_def numeral_eq_Suc)
  then show thesis
    by (rule that) (simp_all add: mp_close_def on_base_def sys_reliable [OF E(1)])
qed

lemma distributeTo_ok:
  assumes E: "reliable E" "\<forall>k. \<not> net_blocks N k" "\<forall>k. 16 \<le> net_wrote N k"
    and "\<forall>i \<in> set is. i < length (children m)"
  shows "\<exists>m'. distributeTo E N b is m = Some m' \<and> children m' = children m \<and> fds m' = fds m \<and>
     bad_close m' = bad_close m \<and> map snd (sent m') = map snd (sent m) @
       map (\<lambda>i. (Some (sun_path (ch_socketName (children m ! i))), encode_block b)) (filter (is_target (blk_sourcePID b) m) is)"
  using assms(4)
proof (induction "is" arbitrary: m)
  case (Cons i "is")
  show ?case
  proof (cases "is_target (blk_sourcePID b) m i")
    case True
    have all: "take (net_wrote N k) (encode_block b) = encode_block b" for k
      using E(3) [rule_format, of k] by (simp add: encode_block_def)
    obtain m1 where m1: "distributeTo E N b (i # is) m = distributeTo E N b is m1"
      "children m1 = children m" "fds m1 = fds m" "bad_close m1 = bad_close m"
      "map snd (sent m1) = map snd (sent m) @ [(Some (sun_path (ch_socketName (children m ! i))), encode_block b)]"
      using tell_ok [OF E(1,2) _ True, of "is" thesis] Cons.prems by (auto simp: all)
    have "is_target p m1 = is_target p m" for p by (rule ext) (simp add: is_target_def m1)
    then show ?thesis
      using Cons.IH [of m1] Cons.prems m1 True by simp
  next
    case False
    then show ?thesis using Cons by (auto simp: get_child_def is_target_def)
  qed
qed simp

lemma distributeTo_skip:
  "\<forall>i \<in> set pre. i < length (children m) \<and> \<not> is_target (blk_sourcePID b) m i \<Longrightarrow>
     distributeTo E N b (pre @ is) m = distributeTo E N b is m"
  by (induction pre) (auto simp: get_child_def is_target_def)

lemma mprotectDistribute_alone:
  assumes "nat (maxProcesses m) \<le> length (children m)" and "targets m = []"
  shows "mprotectDistribute E N header pr m = Some m"
proof -
  have "\<not> is_target (getpid m) m i" if "i < nat (maxProcesses m)" for i
    using assms(2) that by (simp add: targets_def filter_empty_conv)
  then show ?thesis
    using distributeTo_skip [of "[0..<nat (maxProcesses m)]" m _ E N "[]"] assms(1)
    by (simp add: mprotectDistribute_def)
qed

lemma protect_alone:
  assumes "nat (maxProcesses m) \<le> length (children m)" and "targets m = []"
  shows "VGC_mprotect_mp E N a m = (case VGC_mprotect E a (base m) of (ok, s) \<Rightarrow> Some (ok, m\<lparr>base := s\<rparr>))"
    "VGC_munprotect_mp E N a m = (case VGC_munprotect E a (base m) of (ok, s) \<Rightarrow> Some (ok, m\<lparr>base := s\<rparr>))"
proof -
  have "mprotectDistribute E N a pr (m\<lparr>base := s\<rparr>) = Some (m\<lparr>base := s\<rparr>)" for pr s
  proof -
    have "targets (m\<lparr>base := s\<rparr>) = targets m" by (simp add: targets_def is_target_def [abs_def])
    then show ?thesis using mprotectDistribute_alone [of "m\<lparr>base := s\<rparr>"] assms by simp
  qed
  then show "VGC_mprotect_mp E N a m = (case VGC_mprotect E a (base m) of (ok, s) \<Rightarrow> Some (ok, m\<lparr>base := s\<rparr>))"
    "VGC_munprotect_mp E N a m = (case VGC_munprotect E a (base m) of (ok, s) \<Rightarrow> Some (ok, m\<lparr>base := s\<rparr>))"
    by (auto simp: VGC_mprotect_mp_def VGC_munprotect_mp_def VGC_mprotect_def VGC_munprotect_def on_base_def
        split: prod.splits bool.splits)
qed

section \<open>A process that does not answer\<close>

lemma removeChildThread_some:
  assumes "i < length (children m)"
  shows "\<exists>m'. removeChildThread E i m = Some m' \<and> ch_pid (children m' ! i) = 0 \<and> sent m' = sent m \<and>
     fds m' = remove1 (ch_socketFD (children m ! i)) (fds m)"
proof -
  obtain ok1 m1 where m1: "on_base (PTHREAD_cancel E)
      (say (VGC_MALLOC_DEBUG_LEVEL + 2) (CR_stop (ch_pid (children m ! i))) m) = (ok1, m1)" by fastforce
  obtain ok2 m2 where m2: "on_base (PTHREAD_join E) (if ok1 then m1 else say ERROR_LEVEL CR_cancel_failed m1) = (ok2, m2)"
    by fastforce
  have base: "on_base f k = (r, k') \<Longrightarrow> children k' = children k \<and> fds k' = fds k \<and> sent k' = sent k"
    for f :: "state \<Rightarrow> bool \<times> state" and k r k'
    by (auto simp: on_base_def split: prod.splits)
  have close: "children (mp_close E fd k) = children k" "sent (mp_close E fd k) = sent k"
    "fds (mp_close E fd k) = remove1 fd (fds k)" for fd k
    by (auto simp: mp_close_def on_base_def Let_def remove1_idem split: prod.splits)
  have unl: "children (snd (unlink E p k)) = children k" "sent (snd (unlink E p k)) = sent k"
    "fds (snd (unlink E p k)) = fds k" for p k
    by (auto simp: unlink_def on_base_def split: prod.splits option.splits)
  show ?thesis
    using assms m1 m2 base [OF m1] base [OF m2]
    by (simp add: removeChildThread_def get_child_def Let_def unl close) (auto simp: upd_child_def)
qed

lemma distributeTo_refused:
  assumes "i < length (children m)" "is_target (blk_sourcePID b) m i"
    and "env_fail E (ticks (base m)) = None" "env_fail E (Suc (ticks (base m))) = Some e"
  shows "\<exists>m'. distributeTo E N b (i # is) m = Some m' \<and> ch_pid (children m' ! i) = 0 \<and> sent m' = sent m \<and>
     fds m' = remove1 (ch_socketFD (children m ! i)) (fds m)"
proof -
  let ?m0 = "say (VGC_MALLOC_DEBUG_LEVEL + 2)
         (CR_distribute (blk_prot b = PROT_NONE) (blk_header b) (blk_sourcePID b) (ch_pid (children m ! i))) m"
  let ?fd = "net_fd N (ticks (base m))"
  let ?m1 = "?m0\<lparr>base := (base ?m0)\<lparr>ticks := Suc (ticks (base m))\<rparr>, fds := ?fd # fds m\<rparr>"
  obtain m2 where m2: "mp_connect E ?fd (sun_path (ch_socketName (children m ! i))) ?m1 = (False, m2)"
    "children m2 = children m" "sent m2 = sent m" "fds m2 = ?fd # fds m"
    using assms(4) by (auto simp: mp_connect_def on_base_def do_connect_def sys_def)
  have "distributeTo E N b (i # is) m = removeChildThread E i (mp_close E ?fd m2)"
    using assms m2(1) by (simp add: get_child_def is_target_def mp_socket_def do_socket_def sys_def)
  moreover have "children (mp_close E ?fd m2) = children m" "sent (mp_close E ?fd m2) = sent m"
    "fds (mp_close E ?fd m2) = fds m"
    using m2 by (auto simp: mp_close_def on_base_def Let_def split: prod.splits)
  ultimately show ?thesis
    using removeChildThread_some [of i "mp_close E ?fd m2" E] assms(1) by simp
qed

lemma mprotectDistribute_refused:
  assumes "nat (maxProcesses m) \<le> length (children m)" and "targets m = i # is"
    and "env_fail E (ticks (base m)) = None" and "env_fail E (Suc (ticks (base m))) = Some e"
  shows "\<exists>m'. mprotectDistribute E N header pr m = Some m' \<and> ch_pid (children m' ! i) = 0 \<and> sent m' = sent m \<and>
     fds m' = remove1 (ch_socketFD (children m ! i)) (fds m)"
proof -
  let ?b = "\<lparr>blk_header = header, blk_prot = pr, blk_sourcePID = getpid m\<rparr>"
  obtain pre post where split: "[0..<nat (maxProcesses m)] = pre @ i # post" "is_target (getpid m) m i"
    "\<forall>j \<in> set pre. \<not> is_target (getpid m) m j"
    using assms(2) by (auto simp: targets_def filter_eq_Cons_iff)
  then have "\<forall>j \<in> set (pre @ [i]). j < length (children m)"
    using assms(1) set_upt [of 0 "nat (maxProcesses m)"] by (force simp del: set_upt)
  then show ?thesis
    using distributeTo_skip [of pre m ?b E N "i # post"] distributeTo_refused [OF _ _ assms(3,4), of i ?b N post] split
    by (simp add: mprotectDistribute_def)
qed

section \<open>The listening thread never leaves a connection the other end closed\<close>

text \<open>
  \<open>answered\<close>: a request is read and answered. \<open>idles\<close>: a read at the end of the stream, which is true with
  no bytes.
\<close>

definition answered :: "env \<Rightarrow> net \<Rightarrow> nat \<Rightarrow> int \<Rightarrow> mp \<Rightarrow> mp \<Rightarrow> bool" where
  "answered E N i fd m m' \<longleftrightarrow> (\<exists>n buf m1. mp_read E N sizeof_MProtectBlock m = Some (True, n, buf, m1) \<and> n \<noteq> 0 \<and>
     serveBlock E N i fd (decode_block buf) m1 = Some (True, m'))"

definition idles :: "env \<Rightarrow> net \<Rightarrow> mp \<Rightarrow> mp \<Rightarrow> bool" where
  "idles E N m m' \<longleftrightarrow> mp_read E N sizeof_MProtectBlock m = Some (True, 0, replicate 16 0, m')"

definition at_eof :: "env \<Rightarrow> net \<Rightarrow> mp \<Rightarrow> bool" where
  "at_eof E N m \<longleftrightarrow> (\<forall>k \<ge> ticks (base m). env_fail E k = None \<and> net_recv N k = [] \<and> \<not> net_blocks N k)"

lemma idles_at_eof:
  assumes "at_eof E N m"
  shows "\<exists>m'. idles E N m m' \<and> at_eof E N m'"
  using assms by (simp add: idles_def at_eof_def mp_read_def do_read_eq)

lemma idles_for_ever:
  assumes "at_eof E N m"
  shows "\<exists>m'. (idles E N ^^ n) m m'"
proof -
  have "\<exists>m'. (idles E N ^^ n) m m' \<and> at_eof E N m'"
  proof (induction n)
    case (Suc n)
    then obtain k where k: "(idles E N ^^ n) m k" "at_eof E N k" by blast
    then obtain m' where "idles E N k m'" "at_eof E N m'" using idles_at_eof by blast
    then show ?case using k(1) by (auto intro: relcomppI)
  qed (use assms in auto)
  then show ?thesis by blast
qed

lemma serveConnection_answered: "answered E N i fd m m' \<Longrightarrow> serveConnection E N i fd m = serveConnection E N i fd m'"
  by (subst serveConnection.simps) (auto simp: answered_def)

lemma serveConnection_answers:
  "(answered E N i fd)\<^sup>*\<^sup>* m m' \<Longrightarrow> serveConnection E N i fd m = serveConnection E N i fd m'"
  by (induction rule: rtranclp_induct) (simp_all add: serveConnection_answered)

lemma serveConnection_eof:
  assumes "\<forall>k \<ge> ticks (base m). env_fail E k = None \<and> net_recv N k = []"
  shows "serveConnection E N i fd m = None"
proof (rule ccontr)
  let ?eof = "\<lambda>E N m. \<forall>k \<ge> ticks (base m). env_fail E k = None \<and> net_recv N k = []"
  assume "serveConnection E N i fd m \<noteq> None"
  then obtain m' where m': "serveConnection E N i fd m = Some m'" by blast
  have "\<not> ?eof E N m"
  proof (rule serveConnection.raw_induct [where P = "\<lambda>E N i fd m m'. \<not> ?eof E N m", OF _ m'])
    fix rec E N i fd m m'
    assume IH: "\<And>E N i fd m m'. rec E N i fd m = Some m' \<Longrightarrow> \<not> ?eof E N m"
      and step: "do {
        (ok, readBytes, buf, m) \<leftarrow> mp_read E N sizeof_MProtectBlock m;
        if \<not> ok then Some (mp_close E fd m)
        else if readBytes = 0 then rec E N i fd m
        else do {
          (more, m) \<leftarrow> serveBlock E N i fd (decode_block buf) m;
          if more then rec E N i fd m else Some m } } = Some m'"
    show "\<not> ?eof E N m"
    proof
      assume eof: "?eof E N m"
      then have "rec E N i fd (m\<lparr>base := (base m)\<lparr>ticks := Suc (ticks (base m))\<rparr>\<rparr>) = Some m'"
        using step by (simp add: mp_read_def do_read_eq split: if_splits)
      from IH [OF this] eof show False by simp
    qed
  qed
  with assms show False by blast
qed

lemma listener_deaf:
  assumes "(answered E N i fd)\<^sup>*\<^sup>* m m'" and "at_eof E N m'"
  shows "serveConnection E N i fd m = None" "\<exists>m''. (idles E N ^^ n) m' m''"
  using assms serveConnection_answers [OF assms(1)] serveConnection_eof [of m' E N i fd] idles_for_ever
  by (simp_all add: at_eof_def)

section \<open>Registration\<close>

lemma countChildren_eq: "table m = Some cs \<Longrightarrow> countChildren m = Some (int (length (filter (\<lambda>c. ch_pid c \<noteq> 0) cs)))"
proof -
  have "foldl (\<lambda>count c. if ch_pid c \<noteq> 0 then count + 1 else count) k cs =
     k + int (length (filter (\<lambda>c. ch_pid c \<noteq> 0) cs))" for k :: int and cs :: "VGC_mallocDebugChild list"
    by (induction cs arbitrary: k) auto
  then show "table m = Some cs \<Longrightarrow> ?thesis" by (simp add: countChildren_def)
qed


text \<open>The father is never given a thread: the second search looks for a process that has just been entered.\<close>

lemma startChildThread_ok:
  assumes "reliable E" and "i < length (children m)"
  shows "\<exists>m'. startChildThread E tid i m = Some (True, m') \<and> pids m' = pids m \<and>
     maxProcesses m' = maxProcesses m \<and> getpid m' = getpid m \<and> isFather m' = isFather m \<and>
     length (children m') = length (children m) \<and> ticks (base m') = Suc (ticks (base m)) \<and>
     ch_thread (children m' ! i) = tid (ticks (base m))"
proof -
  let ?m1 = "say (VGC_MALLOC_DEBUG_LEVEL + 2) (CR_start (ch_pid (children m ! i))) m"
  let ?m2 = "?m1\<lparr>base := (base ?m1)\<lparr>ticks := Suc (ticks (base m))\<rparr>\<rparr>"
  have "startChildThread E tid i m = Some (True, upd_child i (\<lambda>c. c\<lparr>ch_thread := tid (ticks (base m))\<rparr>) ?m2)"
    using assms by (simp add: startChildThread_def get_child_def on_base_def wrapper_reported
        reported_ok Let_def)
  then show ?thesis
    using assms(2) by (simp add: pids_upd_other) (simp add: upd_child_def pids_def)
qed

lemma length_nonzero_pids: "table m = Some cs \<Longrightarrow> countChildren m =
    Some (int (length (filter (\<lambda>p. p \<noteq> 0) (take (nat (maxProcesses m)) (pids m)))))"
  using table_cases [of m cs] by (simp add: countChildren_eq pids_def filter_map comp_def take_map)

lemma count_nonzero_update:
  "i < length ps \<Longrightarrow> ps ! i = 0 \<Longrightarrow> p \<noteq> 0 \<Longrightarrow>
     length (filter (\<lambda>q. q \<noteq> 0) (ps[i := p])) = Suc (length (filter (\<lambda>q. q \<noteq> (0::int)) ps))"
proof (induction ps arbitrary: i)
  case (Cons q ps)
  then show ?case by (cases i) auto
qed simp

lemma table_father [simp]: "table (m\<lparr>isFather := b\<rparr>) = table m"
  by (simp add: table_def)

lemma startChildDebugCorruption_one_thread:
  assumes E: "reliable E" and table: "table m = Some cs"
    and new: "getpid m \<notin> ch_pid ` set cs" "getpid m \<noteq> 0" and room: "0 \<in> ch_pid ` set cs"
    and count: "countChildren m = Some n" "0 < n"
  shows "\<exists>m'. startChildDebugCorruption E tid m = Some m' \<and> isFather m' \<and>
     countChildren m' = Some (n + 1) \<and> ticks (base m') = Suc (ticks (base m))"
proof -
  obtain pos m0 where f: "findFreeChild (getpid m) m = Some (pos, m0)"
    using table by (cases "findFreeChild (getpid m) m") (auto simp: findFreeChild_def Let_def split: if_splits)
  from f table obtain i where i: "pos = int i" "i < length cs" "ch_pid (cs ! i) = 0"
      "m0 = upd_child i (\<lambda>c. c\<lparr>ch_pid := getpid m\<rparr>) m"
    using new room by (cases rule: findFreeChild_cases) auto
  have len: "length cs = nat (maxProcesses m)" "nat (maxProcesses m) \<le> length (children m)" "i < length (children m)"
    using table_cases [OF table] table i(2) by (auto simp: table_def split: if_splits)
  have m0: "length (children m0) = length (children m)" "maxProcesses m0 = maxProcesses m"
      "isFather m0 = isFather m" "getpid m0 = getpid m" "ticks (base m0) = ticks (base m)" "pids m0 = (pids m)[i := getpid m]"
    using i(4) by (simp_all add: pids_upd_child, simp_all add: upd_child_def)
  obtain m1 where m1: "startChildThread E tid i m0 = Some (True, m1)" "pids m1 = pids m0"
      "maxProcesses m1 = maxProcesses m" "getpid m1 = getpid m" "isFather m1 = isFather m"
      "length (children m1) = length (children m)" "ticks (base m1) = Suc (ticks (base m))"
    using startChildThread_ok [OF E, of i m0] len m0 by auto
  obtain ds where ds: "table m1 = Some ds" using len m1 by (auto simp: table_def)
  have take1: "take (nat (maxProcesses m)) (pids m1) = (take (nat (maxProcesses m)) (pids m))[i := getpid m]"
    using m1(2) m0(6) len i(2) by (simp add: take_update_swap)
  have zero: "i < length (take (nat (maxProcesses m)) (pids m))" "take (nat (maxProcesses m)) (pids m) ! i = 0"
    using i(2,3) len table_cases [OF table] by (auto simp: pids_def)
  have c1: "countChildren m1 = Some (n + 1)"
    using length_nonzero_pids [OF ds] length_nonzero_pids [OF table] count(1) m1(3) take1
      count_nonzero_update [OF zero new(2)] by simp
  let ?m2 = "m1\<lparr>isFather := True\<rparr>"
  have t2: "table ?m2 = Some ds" using ds by simp
  have c2: "countChildren ?m2 = Some (n + 1)" using c1 by (simp add: countChildren_def)
  have "getpid m \<in> ch_pid ` set ds"
  proof -
    have "getpid m \<in> set (take (nat (maxProcesses m)) (pids m1))"
      using take1 zero(1) by (simp add: set_update_memI)
    then show ?thesis using table_cases [OF ds] m1(3) by (simp add: pids_def take_map)
  qed
  then have again: "findFreeChild (getpid m) ?m2 = Some (-1, ?m2)"
    using t2 by (auto simp: findFreeChild_def firstChild_none list_all_iff)
  show ?thesis
    using f i(1) m1 c1 c2 again count(2)
    by (cases "isFather m1") (auto simp: startChildDebugCorruption_def)
qed

section \<open>Starting\<close>

text \<open>A table that could not be mapped is not noticed: the first store into it is a SIGSEGV.\<close>

lemma startMprotect_unmapped:
  assumes "env_mmap E (ticks (base m)) (maps (hp (base m))) (of_int n * sizeof_child) = MAP_FAILED" and "0 < n"
  shows "startMprotect E tid errno0 n m = None"
proof -
  let ?m1 = "say VGC_MALLOC_DEBUG_LEVEL CR_init
    (m\<lparr>maxProcesses := n, base := (base m)\<lparr>ticks := Suc (ticks (base m))\<rparr>, children_at := MAP_FAILED, children := []\<rparr>)"
  have "table ?m1 = None" using assms(2) by (simp add: table_def)
  then show ?thesis
    using assms(1) by (simp add: startMprotect_def on_base_def mmap_def initChildDebugCorruption_def Let_def)
qed

end
