(* ===== verification/Handshake.thy ===== *)
theory Handshake
  imports Distribution
begin

text \<open>
  The processes of \<open>Children\<close> together. A step relation on the program counters of the threads that
  call \<open>VGC_mprotect\<close> or \<open>VGC_munprotect\<close> (\<open>Caller p\<close>) and of the threads that listen
  (\<open>Listener p\<close>), for runs in which no system call fails: the loop of \<^verbatim>\<open>mprotectDistribute\<close> sends a
  request to each live process of the table and waits for the answer; the listener reads a
  request and calls \<open>VGC_mprotect\<close>, which in this build runs the same loop, before it answers.
\<close>

section \<open>State\<close>

datatype thread = Caller int | Listener int

fun pid_of :: "thread \<Rightarrow> int" where
  "pid_of (Caller p) = p"
| "pid_of (Listener p) = p"

text \<open>
  \<open>P_loop k qs\<close> is the head of the loop of \<^verbatim>\<open>mprotectDistribute\<close> with the places \<open>qs\<close> of the table
  still to visit, \<open>P_wait k c qs\<close> its \<^verbatim>\<open>do_read\<close> of the answer on connection \<open>c\<close>; \<open>k\<close> is the connection
  the listener serves meanwhile. \<open>P_idle\<close> and \<open>P_done\<close> are a caller before and after its call.
\<close>

datatype pc =
    P_idle
  | P_loop "nat option" "int list"
  | P_wait "nat option" nat "int list"
  | P_done
  | P_accept
  | P_read nat

record conn =
  c_src :: int
  c_read :: bool
  c_answered :: bool
  c_closed :: bool

record proto =
  pcs :: "thread \<Rightarrow> pc"
  conns :: "conn list"
  backlog :: "int \<Rightarrow> nat list"

definition proto_init :: proto where
  "proto_init = \<lparr>pcs = (\<lambda>t. case t of Caller p \<Rightarrow> P_idle | Listener p \<Rightarrow> P_accept), conns = [],
     backlog = (\<lambda>p. [])\<rparr>"

definition goto :: "thread \<Rightarrow> pc \<Rightarrow> proto \<Rightarrow> proto" where
  "goto t l s = s\<lparr>pcs := (pcs s)(t := l)\<rparr>"

definition upd_conn :: "nat \<Rightarrow> (conn \<Rightarrow> conn) \<Rightarrow> proto \<Rightarrow> proto" where
  "upd_conn c f s = s\<lparr>conns := (conns s)[c := f (conns s ! c)]\<rparr>"

section \<open>Steps\<close>

text \<open>
  \<open>ps\<close> are the process numbers in the table, 0 where a place is free. First the loop of
  \<^verbatim>\<open>mprotectDistribute\<close>, whichever thread runs it.
\<close>

inductive distribute_step :: "int list \<Rightarrow> proto \<Rightarrow> proto \<Rightarrow> bool" for ps where
  call: "pcs s (Caller p) = P_idle \<Longrightarrow> distribute_step ps s (goto (Caller p) (P_loop None ps) s)"
| skip: "pcs s t = P_loop k (q # qs) \<Longrightarrow> q = 0 \<or> q = pid_of t \<Longrightarrow> distribute_step ps s (goto t (P_loop k qs) s)"
| send: "pcs s t = P_loop k (q # qs) \<Longrightarrow> q \<noteq> 0 \<Longrightarrow> q \<noteq> pid_of t \<Longrightarrow>
    distribute_step ps s (goto t (P_wait k (length (conns s)) qs)
      (s\<lparr>conns := conns s @ [\<lparr>c_src = pid_of t, c_read = False, c_answered = False, c_closed = False\<rparr>],
         backlog := (backlog s)(q := backlog s q @ [length (conns s)])\<rparr>))"
| resume: "pcs s t = P_wait k c qs \<Longrightarrow> c < length (conns s) \<Longrightarrow> c_answered (conns s ! c) \<Longrightarrow>
    distribute_step ps s (goto t (P_loop k qs) (upd_conn c (\<lambda>x. x\<lparr>c_closed := True\<rparr>) s))"
| return: "pcs s (Caller p) = P_loop k [] \<Longrightarrow> distribute_step ps s (goto (Caller p) P_done s)"

text \<open>Then the loops of \<^verbatim>\<open>manageCorruptionThread\<close>.\<close>

inductive listen_step :: "int list \<Rightarrow> proto \<Rightarrow> proto \<Rightarrow> bool" for ps where
  accept: "pcs s (Listener p) = P_accept \<Longrightarrow> backlog s p = c # cs \<Longrightarrow>
    listen_step ps s (goto (Listener p) (P_read c) (s\<lparr>backlog := (backlog s)(p := cs)\<rparr>))"
| own: "pcs s (Listener p) = P_read c \<Longrightarrow> c < length (conns s) \<Longrightarrow> \<not> c_read (conns s ! c) \<Longrightarrow>
    c_src (conns s ! c) = p \<Longrightarrow>
    listen_step ps s (goto (Listener p) P_accept (upd_conn c (\<lambda>x. x\<lparr>c_read := True, c_closed := True\<rparr>) s))"
| serve: "pcs s (Listener p) = P_read c \<Longrightarrow> c < length (conns s) \<Longrightarrow> \<not> c_read (conns s ! c) \<Longrightarrow>
    c_src (conns s ! c) \<noteq> p \<Longrightarrow>
    listen_step ps s (goto (Listener p) (P_loop (Some c) ps) (upd_conn c (\<lambda>x. x\<lparr>c_read := True\<rparr>) s))"
| answer: "pcs s (Listener p) = P_loop (Some c) [] \<Longrightarrow>
    listen_step ps s (goto (Listener p) (P_read c) (upd_conn c (\<lambda>x. x\<lparr>c_answered := True\<rparr>) s))"
| spin: "pcs s (Listener p) = P_read c \<Longrightarrow> c < length (conns s) \<Longrightarrow> c_read (conns s ! c) \<Longrightarrow>
    c_closed (conns s ! c) \<Longrightarrow> listen_step ps s s"

definition proto_step :: "int list \<Rightarrow> proto \<Rightarrow> proto \<Rightarrow> bool" where
  "proto_step ps s s' \<longleftrightarrow> distribute_step ps s s' \<or> listen_step ps s s'"

definition proto_reach :: "int list \<Rightarrow> proto \<Rightarrow> bool" where
  "proto_reach ps s \<longleftrightarrow> (proto_step ps)\<^sup>*\<^sup>* proto_init s"

section \<open>Nobody answers\<close>

text \<open>
  To answer, a listener must have come to the end of its own loop, for which somebody must have answered it.
\<close>

definition unanswered :: "proto \<Rightarrow> bool" where
  "unanswered s \<longleftrightarrow> list_all (\<lambda>c. \<not> c_answered c) (conns s) \<and>
     (\<forall>t k qs. pcs s t = P_loop k qs \<longrightarrow> (\<exists>q \<in> set qs. q \<noteq> 0 \<and> q \<noteq> pid_of t)) \<and>
     (\<forall>t. pcs s t \<noteq> P_done)"

lemma unanswered_init: "unanswered proto_init"
  by (simp add: unanswered_def proto_init_def split: thread.splits)

lemma upd_conn_unanswered:
  "list_all (\<lambda>c. \<not> c_answered c) (conns s) \<Longrightarrow> (\<And>x. c_answered (f x) = c_answered x) \<Longrightarrow>
     list_all (\<lambda>c. \<not> c_answered c) (conns (upd_conn c f s))"
  by (cases "c < length (conns s)") (auto simp: upd_conn_def list_all_length nth_list_update)

lemma goto_sel [simp]: "conns (goto t l s) = conns s" "pcs (goto t l s) = (pcs s)(t := l)"
  by (simp_all add: goto_def)

lemma upd_conn_sel [simp]: "pcs (upd_conn c f s) = pcs s"
  by (simp add: upd_conn_def)

lemma unanswered_goto:
  assumes "unanswered s" and "pcs s' = (pcs s)(t := l)" and "list_all (\<lambda>c. \<not> c_answered c) (conns s')"
    and "l \<noteq> P_done" and "\<And>k qs. l = P_loop k qs \<Longrightarrow> \<exists>q \<in> set qs. q \<noteq> 0 \<and> q \<noteq> pid_of t"
  shows "unanswered s'"
  using assms by (auto simp: unanswered_def)

lemma unanswered_step:
  assumes live: "a \<in> set ps" "b \<in> set ps" "a \<noteq> 0" "b \<noteq> 0" "a \<noteq> b"
    and "proto_step ps s s'" and inv: "unanswered s"
  shows "unanswered s'"
proof -
  have other: "\<exists>q \<in> set ps. q \<noteq> 0 \<and> q \<noteq> p" for p using live by metis
  have loop: "\<exists>q \<in> set qs. q \<noteq> 0 \<and> q \<noteq> pid_of t" if "pcs s t = P_loop k qs" for t k qs
    using inv that unfolding unanswered_def by blast
  have conns: "list_all (\<lambda>c. \<not> c_answered c) (conns s)" using inv by (simp add: unanswered_def)
  consider "distribute_step ps s s'" | "listen_step ps s s'" using assms(6) by (auto simp: proto_step_def)
  then show ?thesis
  proof cases
    case 1
    then show ?thesis
    proof cases
      case (resume t k c qs)
      then show ?thesis using conns by (auto simp: list_all_length)
    qed (use conns other in \<open>auto intro!: unanswered_goto [OF inv] dest!: loop\<close>)
  next
    case 2
    then show ?thesis
    proof cases
      case (spin p c)
      then show ?thesis using inv by simp
    qed (use conns other in \<open>auto simp: upd_conn_unanswered intro!: unanswered_goto [OF inv] dest!: loop\<close>)
  qed
qed

lemma proto_reach_unanswered:
  assumes "a \<in> set ps" "b \<in> set ps" "a \<noteq> 0" "b \<noteq> 0" "a \<noteq> b" and "proto_reach ps s"
  shows "unanswered s"
  using assms(6) unfolding proto_reach_def
  by (induction rule: rtranclp_induct) (auto intro: unanswered_init unanswered_step [OF assms(1-5)])

text \<open>With no other process in the table, a call returns.\<close>

lemma alone_returns:
  assumes "\<forall>q \<in> set ps. q = 0 \<or> q = p"
  shows "\<exists>s. proto_reach ps s \<and> pcs s (Caller p) = P_done"
proof -
  have loop: "\<exists>s'. (proto_step ps)\<^sup>*\<^sup>* s s' \<and> pcs s' (Caller p) = P_done"
    if "pcs s (Caller p) = P_loop None qs" "\<forall>q \<in> set qs. q = 0 \<or> q = p" for s qs
    using that
  proof (induction qs arbitrary: s)
    case Nil
    have "proto_step ps s (goto (Caller p) P_done s)" using Nil.prems(1) distribute_step.return unfolding proto_step_def by blast
    then show ?case by (intro exI [of _ "goto (Caller p) P_done s"]) auto
  next
    case (Cons q qs)
    have "proto_step ps s (goto (Caller p) (P_loop None qs) s)"
      using Cons.prems distribute_step.skip [of s "Caller p" None q qs ps] by (auto simp: proto_step_def)
    moreover obtain s' where "(proto_step ps)\<^sup>*\<^sup>* (goto (Caller p) (P_loop None qs) s) s'" "pcs s' (Caller p) = P_done"
      using Cons.IH [of "goto (Caller p) (P_loop None qs) s"] Cons.prems by auto
    ultimately show ?case by (meson converse_rtranclp_into_rtranclp)
  qed
  have "proto_step ps proto_init (goto (Caller p) (P_loop None ps) proto_init)"
    using distribute_step.call [of proto_init p ps] by (simp add: proto_step_def proto_init_def)
  then show ?thesis
    using loop [of "goto (Caller p) (P_loop None ps) proto_init" ps] assms
    unfolding proto_reach_def by (auto intro: converse_rtranclp_into_rtranclp)
qed

end
