(* ===== verification/Response.thy ===== *)
theory Response
  imports Startup Messages
begin

text \<open>
  The dump of an mmap block into a buffer of the caller, from \<^verbatim>\<open>dumpMmapBlock\<close> of
  \<^verbatim>\<open>src/vgc_malloc.c\<close>: \<open>response\<close> is the string the buffer holds, \<open>cap\<close> the parameter \<^verbatim>\<open>size\<close>, the room it has.
  The three lines of the head are written without a look at \<open>size\<close>; the others are only added
  when they fit, and the first that does not ends the dump.
\<close>

section \<open>Formats\<close>

fun hex_digit :: "nat \<Rightarrow> char" where
  "hex_digit n = (if n < 10 then char_of (48 + n) else char_of (87 + n))"

fun hex_nat :: "nat \<Rightarrow> string" where
  "hex_nat n = (if n < 16 then [hex_digit n] else hex_nat (n div 16) @ [hex_digit (n mod 16)])"

declare hex_nat.simps [simp del]

definition pad_left :: "char \<Rightarrow> nat \<Rightarrow> string \<Rightarrow> string" where
  "pad_left c n t = replicate (n - length t) c @ t"

text \<open>\<^verbatim>\<open>0x%.12lx\<close>, \<^verbatim>\<open>%3d\<close> and \<^verbatim>\<open>%9d\<close>; the sizes are cast to \<^verbatim>\<open>int\<close>.\<close>

definition ptr_text :: "addr \<Rightarrow> string" where
  "ptr_text a = ''0x'' @ pad_left CHR ''0'' 12 (hex_nat (unat a))"

definition int_text :: "nat \<Rightarrow> int \<Rightarrow> string" where
  "int_text n i = pad_left CHR '' '' n (dec i)"

definition size_text :: "size_t \<Rightarrow> string" where
  "size_text n = int_text 9 (to_int32 (uint n))"

definition newline :: string where
  "newline = [char_of (10 :: nat)]"

definition dashes :: string where
  "dashes = replicate 69 (CHR ''-'')"

section \<open>The lines\<close>

definition head_lines :: "addr \<Rightarrow> string list" where
  "head_lines mmapBlock = [newline @ ''MMAP at '' @ ptr_text mmapBlock @ newline,
     '' ID memory         prev           next           status    size'' @ newline, dashes @ newline]"

definition block_line :: "nat \<Rightarrow> addr \<Rightarrow> VGC_mallocHeader \<Rightarrow> string" where
  "block_line i mallocBlock b = fst (snprintf 200
     (c_blue @ int_text 3 (int i) @ c_black @ '' '' @ ptr_text (mallocBlock + sizeof_mallocHeader) @ c_red
      @ '' '' @ ptr_text (user_ptr (mb_prev b)) @ '' '' @ ptr_text (user_ptr (mb_next b)) @ '' ''
      @ (if mb_status b = VGC_MALLOC_FREE then c_green @ ''FREE'' else c_blue @ ''BUSY'') @ c_black
      @ '' '' @ size_text (mb_size b) @ '' bytes'' @ newline))"

definition total_lines :: "size_t \<Rightarrow> size_t \<Rightarrow> size_t \<Rightarrow> size_t \<Rightarrow> size_t \<Rightarrow> string list" where
  "total_lines blockSize busySize freeSize totalSize maxSize = map (\<lambda>l. fst (snprintf 100 l))
     [dashes @ newline,
      c_black @ ''size allocated.: '' @ c_blue @ size_text blockSize @ '' bytes'' @ newline,
      c_black @ ''size busy......: '' @ c_blue @ size_text busySize @ '' bytes'' @ newline,
      c_black @ ''size free......: '' @ c_blue @ size_text freeSize @ '' bytes'' @ newline,
      c_black @ ''size total.....: '' @ c_green @ size_text totalSize @ '' bytes *'' @ newline,
      c_black @ ''size max.......: '' @ c_green @ size_text maxSize @ '' bytes *'' @ newline,
      c_black @ dashes @ newline]"

section \<open>Writing them\<close>

text \<open>\<open>None\<close> when the line does not fit, so that the dump ends.\<close>

definition append_line :: "nat \<Rightarrow> string \<Rightarrow> string \<Rightarrow> string option" where
  "append_line cap line response =
     (if cap \<le> length response + length line then None else Some (response @ line))"

fun append_lines :: "nat \<Rightarrow> string list \<Rightarrow> string \<Rightarrow> string" where
  "append_lines cap [] response = response"
| "append_lines cap (l # ls) response =
     (case append_line cap l response of None \<Rightarrow> response | Some r \<Rightarrow> append_lines cap ls r)"

text \<open>
  The loop: the text, the stack traces it prints, and the sums, which are \<open>None\<close> when a line did
  not fit.
\<close>

partial_function (option) responseLoop ::
    "env \<Rightarrow> heap \<Rightarrow> nat \<Rightarrow> nat \<Rightarrow> addr \<Rightarrow> size_t \<times> size_t \<times> size_t \<Rightarrow> report list \<Rightarrow> string
     \<Rightarrow> (string \<times> report list \<times> (size_t \<times> size_t \<times> size_t) option) option" where
  "responseLoop E h cap i mallocBlock sums out response =
     (if mallocBlock = 0 then Some (response, out, Some sums)
      else do {
        b \<leftarrow> mallocH h mallocBlock;
        case append_line cap (block_line i mallocBlock b) response of
          None \<Rightarrow> Some (response, out, None)
        | Some response \<Rightarrow> do {
            trace \<leftarrow> (if mb_status b = VGC_MALLOC_BUSY then vgc_stacktraceShow E b else Some []);
            responseLoop E h cap (Suc i) (mb_next b) (add_sums b sums) (out @ trace) response } })"

definition dumpMmapBlock_response ::
    "env \<Rightarrow> nat \<Rightarrow> addr \<Rightarrow> string \<Rightarrow> state \<Rightarrow> (string \<times> state) option" where
  "dumpMmapBlock_response E cap mmapBlock response s =
     (if mmapBlock = 0 then Some (response, s)
      else do {
        mm \<leftarrow> get_mm mmapBlock s;
        let response = response @ concat (map (\<lambda>l. fst (snprintf (unat (mm_maxSize mm)) l)) (head_lines mmapBlock));
        (response, out, sums) \<leftarrow>
          responseLoop E (hp s) cap 0 (firstMallocHeaderInMMAP mmapBlock) (0, 0, 0) [] response;
        let s = fold (report INFO_LEVEL) out s;
        Some (case sums of
            None \<Rightarrow> (response, s)
          | Some (busySize, freeSize, headersSize) \<Rightarrow>
              (let blockSize = sh_mmapBlockSize (shared (hp s));
                   maxSize = blockSize - sizeof_mmapHeader - headersSize;
                   totalSize = busySize + freeSize
               in (append_lines cap (total_lines blockSize busySize freeSize totalSize maxSize) response, s))) })"

section \<open>The debugging entry point with a buffer\<close>

partial_function (option) checkMMAPLoop_response ::
    "env \<Rightarrow> nat \<Rightarrow> addr \<Rightarrow> string \<Rightarrow> state \<Rightarrow> (string \<times> state) option" where
  "checkMMAPLoop_response E cap mmapBlock response s =
     (if mmapBlock = 0 then Some (response, s)
      else do {
        (ok, s) \<leftarrow> PTHREAD_mutexLock E (MBlock mmapBlock) s;
        let s = (if ok then s else report ERROR_LEVEL (Rep F_vgc_mallocCheckMMAP S_mutexLock) s);
        (sane, s) \<leftarrow> checkMmapBlock E mmapBlock s;
        let s = (if sane then s else report ERROR_LEVEL (Rep F_vgc_mallocCheckMMAP S_memory_problem) s);
        (response, s) \<leftarrow> dumpMmapBlock_response E cap mmapBlock response s;
        s \<leftarrow> unlock_reporting E F_vgc_mallocCheckMMAP (MBlock mmapBlock) s;
        mm \<leftarrow> get_mm mmapBlock s;
        checkMMAPLoop_response E cap (mm_next mm) response s })"

text \<open>The parameter \<^verbatim>\<open>size\<close> is an \<^verbatim>\<open>int\<close> and becomes a \<^verbatim>\<open>size_t\<close> when it is passed on.\<close>

definition vgc_mallocCheckMMAP_response ::
    "env \<Rightarrow> addr \<Rightarrow> string \<Rightarrow> int \<Rightarrow> state \<Rightarrow> (string \<times> state) option" where
  "vgc_mallocCheckMMAP_response E a response cap s =
     (if a = 0 then Some (response, s)
      else do {
        (ok, s) \<leftarrow> PTHREAD_mutexLock E MShared s;
        let s = (if ok then s else report ERROR_LEVEL (Rep F_vgc_mallocCheckMMAP S_mutexLock) s);
        (response, s) \<leftarrow> checkMMAPLoop_response E (unat (of_int cap :: size_t))
                            (sh_mmapBlockFirst (shared (hp s))) response s;
        s \<leftarrow> unlock_reporting E F_vgc_mallocCheckMMAP MShared s;
        Some (response, s) })"

section \<open>How long the text gets\<close>

lemma append_line_bound:
  "append_line cap l r = Some r' \<Longrightarrow> length r' < cap \<and> length r \<le> length r'"
  by (auto simp: append_line_def split: if_splits)

lemma append_lines_bound:
  "length r \<le> length (append_lines cap ls r) \<and> length (append_lines cap ls r) \<le> max (length r) (cap - 1)"
proof (induction ls arbitrary: r)
  case (Cons l ls)
  show ?case
  proof (cases "append_line cap l r")
    case (Some r')
    then show ?thesis using Cons.IH [of r'] append_line_bound [OF Some] by auto
  qed simp
qed simp

lemma responseLoop_bound:
  assumes "responseLoop E h cap i a sums out r = Some x"
  shows "length r \<le> length (fst x) \<and> length (fst x) \<le> max (length r) (cap - 1)"
proof (rule responseLoop.raw_induct [where P = "\<lambda>E h cap i a sums out r x.
    length r \<le> length (fst x) \<and> length (fst x) \<le> max (length r) (cap - 1)", OF _ assms])
  fix rec E h cap i a sums out r x
  assume IH: "\<And>E h cap i a sums out r x. rec E h cap i a sums out r = Some x \<Longrightarrow>
      length r \<le> length (fst x) \<and> length (fst x) \<le> max (length r) (cap - 1)"
    and step: "(if a = 0 then Some (r, out, Some sums)
      else do {
        b \<leftarrow> mallocH h a;
        case append_line cap (block_line i a b) r of
          None \<Rightarrow> Some (r, out, None)
        | Some response \<Rightarrow> do {
            trace \<leftarrow> (if mb_status b = VGC_MALLOC_BUSY then vgc_stacktraceShow E b else Some []);
            rec E h cap (Suc i) (mb_next b) (add_sums b sums) (out @ trace) response } }) = Some x"
  show "length r \<le> length (fst x) \<and> length (fst x) \<le> max (length r) (cap - 1)"
    using step
    by (fastforce simp: bind_eq_Some_conv split: if_splits option.splits dest: append_line_bound IH)
qed

text \<open>The head has a fixed length, for addresses of 12 hexadecimal digits.\<close>

lemma length_hex_nat: "n < 16 ^ Suc k \<Longrightarrow> length (hex_nat n) \<le> Suc k"
proof (induction k arbitrary: n)
  case (Suc k)
  then have "n div 16 < 16 ^ Suc k" by (simp add: less_mult_imp_div_less mult.commute)
  then show ?case using Suc.IH by (subst hex_nat.simps) simp
qed (simp add: hex_nat.simps)

lemma length_ptr_text: "unat a < 2 ^ 48 \<Longrightarrow> length (ptr_text a) = 14"
  using length_hex_nat [of "unat a" 11] by (simp add: ptr_text_def pad_left_def)

lemma length_head_lines:
  assumes "unat a < 2 ^ 48" and "100 \<le> n"
  shows "length (concat (map (\<lambda>l. fst (snprintf n l)) (head_lines a))) = 158"
  using assms by (simp add: head_lines_def newline_def dashes_def length_ptr_text)

lemma dumpMmapBlock_response_bound:
  assumes "dumpMmapBlock_response E cap a r s = Some (r', s')" and "a \<noteq> 0" and "unat a < 2 ^ 48"
    and "get_mm a s = Some mm" and "100 \<le> unat (mm_maxSize mm)"
  shows "length r + 158 \<le> length r' \<and> length r' \<le> max (length r + 158) (cap - 1)"
proof -
  let ?r0 = "r @ concat (map (\<lambda>l. fst (snprintf (unat (mm_maxSize mm)) l)) (head_lines a))"
  have r0: "length ?r0 = length r + 158" using length_head_lines [OF assms(3,5)] by simp
  obtain r1 out sums where
    loop: "responseLoop E (hp s) cap 0 (firstMallocHeaderInMMAP a) (0, 0, 0) [] ?r0 = Some (r1, out, sums)"
    using assms(1,2,4) by (auto simp: dumpMmapBlock_response_def bind_eq_Some_conv Let_def)
  have "r' = r1 \<or> (\<exists>ls. r' = append_lines cap ls r1)"
    using assms(1,2,4) loop
    by (auto simp: dumpMmapBlock_response_def Let_def split: option.splits prod.splits)
  moreover have "length ?r0 \<le> length r1" "length r1 \<le> max (length ?r0) (cap - 1)"
    using responseLoop_bound [OF loop] by simp_all
  moreover have "length r1 \<le> length (append_lines cap ls r1)"
    "length (append_lines cap ls r1) \<le> max (length r1) (cap - 1)" for ls
    using append_lines_bound [of r1 cap] by simp_all
  ultimately show ?thesis unfolding r0 by (fastforce intro: le_trans)
qed

text \<open>The dump ends on every well formed chain.\<close>

lemma responseLoop_seg:
  assumes E: "reliable E" and "seg h m p bs 0" and "layout a bs e" and "0 < a"
  shows "\<exists>x. responseLoop E h cap i (first_addr bs 0) t out r = Some x"
  using assms(2-)
proof (induction bs arbitrary: p a i t out r)
  case Nil
  then show ?case by (simp add: responseLoop.simps)
next
  case (Cons b bs)
  from Cons.prems obtain hr where *: "mallocH h (b_addr b) = Some hr"
    "mb_next hr = first_addr bs 0" by (auto elim: holdsE)
  from Cons.prems have "b_addr b \<noteq> 0" by auto
  moreover have "\<exists>x. responseLoop E h cap j (first_addr bs 0) t2 out2 r2 = Some x" for j t2 out2 r2
    using Cons.IH [of "b_addr b" "a + 8192 + unat (b_size b)"] Cons.prems by simp
  moreover obtain tr where "(if mb_status hr = VGC_MALLOC_BUSY then vgc_stacktraceShow E hr else Some []) = Some tr"
    using block_trace_some [OF E] by blast
  ultimately show ?case
    using * by (subst responseLoop.simps) (auto split: option.splits if_splits)
qed

lemma dumpMmapBlock_response_ok:
  assumes E: "reliable E" and mem: "chunk_mem (hp s) p n c" and size: "12388 \<le> unat (c_size c)"
  shows "\<exists>r' s'. dumpMmapBlock_response E cap (c_addr c) r s = Some (r', s') \<and> hp s' = hp s \<and>
     length r + 158 \<le> length r' \<and> length r' \<le> max (length r + 158) (cap - 1)"
proof -
  note sh = chunk_shapeD [OF chunk_mem_shape [OF mem]]
  have seg: "seg (hp s) (c_addr c) 0 (c_blks c) 0" and mm: "get_mm (c_addr c) s = Some (chunk_hdr p n c)"
    using mem by (simp_all add: chunk_mem_def get_mm_def)
  have "unat (mm_maxSize (chunk_hdr p n c)) = unat (c_size c) - 12288"
    using size sh(4) by (simp add: chunk_hdr_def unat_sub_if_size word_size)
  then have max: "100 \<le> unat (mm_maxSize (chunk_hdr p n c))" using size by simp
  obtain r' s' where r': "dumpMmapBlock_response E cap (c_addr c) r s = Some (r', s')" "hp s' = hp s"
  proof -
    have fold: "hp (fold (report INFO_LEVEL) out t) = hp t" for out t
      using fold_report_msgs [of INFO_LEVEL out t] by auto
    obtain r1 out sums where loop: "responseLoop E (hp s) cap 0 (first_addr (c_blks c) 0) (0, 0, 0) []
        (r @ concat (map (\<lambda>l. fst (snprintf (unat (mm_maxSize (chunk_hdr p n c))) l)) (head_lines (c_addr c))))
        = Some (r1, out, sums)"
      using responseLoop_seg [OF E seg sh(6)] by (metis add_pos_pos prod_cases3 zero_less_numeral add_gr_0)
    show thesis
      using that loop sh(1) mm fold
      by (cases sums) (auto simp: dumpMmapBlock_response_def first_header [OF chunk_mem_shape [OF mem]] Let_def
          split: prod.splits)
  qed
  moreover have "unat (c_addr c) < 2 ^ 48" using sh(3) by simp
  ultimately show ?thesis using dumpMmapBlock_response_bound [OF _ sh(1) _ mm max] by blast
qed

end
