(* ===== verification/Stacktrace.thy ===== *)
theory Stacktrace
  imports Startup Messages
begin

text \<open>
  \<^verbatim>\<open>src/vgc_stacktrace.c\<close>: the signal handler; and the constructor and destructor of
  \<^verbatim>\<open>src/vgc_malloc.c\<close>, which install it and load and unload the library. The text of a stack
  trace is in \<open>Trace\<close>, what is kept of a trace in \<open>Malloc\<close> and \<open>Blocks\<close>.
\<close>

section \<open>The signal handler\<close>

abbreviation SIGSEGV :: int where "SIGSEGV \<equiv> 11"

definition access_codes :: "int list" where
  "access_codes = [2, 3, 4]" \<comment> \<open>\<^verbatim>\<open>SEGV_ACCERR\<close>, \<^verbatim>\<open>SEGV_BNDERR\<close>, \<^verbatim>\<open>SEGV_PKUERR\<close>\<close>

text \<open>Where the process goes on: the line it prints and the status it exits with.\<close>

definition continueAfterCrash :: "string \<times> int" where
  "continueAfterCrash =
     (''resuming after crash: normal running now, closing nicely'' @ [newline_char], 1)"

datatype handled =
    Default int \<comment> \<open>the default action is put back and the signal raised again\<close>
  | Resume_at "string \<times> int" state \<comment> \<open>the instruction pointer of the interrupted code is overwritten\<close>

text \<open>The list \<^verbatim>\<open>backtrace_symbols\<close> returns is used without a test, and only if the loop has a frame to show.\<close>

definition vgc_stacktrace :: "env \<Rightarrow> int \<Rightarrow> int \<Rightarrow> addr \<Rightarrow> addr \<Rightarrow> state \<Rightarrow> handled option" where
  "vgc_stacktrace E sigNumber si_code si_addr rip s =
     (if \<not> (sigNumber = SIGSEGV \<and> si_code \<in> set access_codes) then Some (Default sigNumber)
      else do {
        let btArray = take VGC_MALLOC_STACKTRACE_SIZE (env_backtrace E (ticks s));
        let s = report ERROR_LEVEL (CrashRep sigNumber si_addr rip) (s\<lparr>ticks := Suc (ticks s)\<rparr>);
        lines \<leftarrow> (case env_symbols E btArray of
            Some messages \<Rightarrow> stacktrace (env_addr2line E) (getProcessPath (env_link E)) (frames messages)
          | None \<Rightarrow> if frames btArray = [] then Some [] else None);
        Some (Resume_at continueAfterCrash (fold (report INFO_LEVEL) (map TraceLine lines) s)) })"

fun install_handlers :: "env \<Rightarrow> int list \<Rightarrow> state \<Rightarrow> bool \<times> state" where
  "install_handlers E [] s = (True, s)"
| "install_handlers E (sig # sigs) s =
     (if sig = 0 then (True, s)
      else case sys E (report DEBUG_LEVEL (SigRep False sig) s) of
             (None, s) \<Rightarrow> install_handlers E sigs s
           | (Some e, s) \<Rightarrow> (False, report ERROR_LEVEL (SigRep True sig) s))"

definition vgc_stacktraceInit :: "env \<Rightarrow> state \<Rightarrow> bool \<times> state" where
  "vgc_stacktraceInit E s = install_handlers E [SIGSEGV, 0] s"

section \<open>Loading and unloading\<close>

datatype loaded = Exit state | Loaded addr state

text \<open>
  The line each prints is the first component. \<open>a\<close> is the pointer \<^verbatim>\<open>shared\<close>; the destructor reads
  through it without a test.
\<close>

definition my_init :: "env \<Rightarrow> int \<Rightarrow> string option \<Rightarrow> size_t \<Rightarrow> state \<Rightarrow> (string \<times> loaded) option" where
  "my_init E getpid level pageSize s =
     (let master = getpid;
          line = ''Starting.....................: '' @ dec master @ [char_of (10 :: nat)];
          s = vgc_messageInit level s;
          (ok, s) = vgc_stacktraceInit E s
      in if \<not> ok then Some (line, Exit s)
         else do {
           (a, ok, s) \<leftarrow> initializeShared E pageSize s;
           if \<not> ok then Some (line, Exit s)
           else Some (line, Loaded a (upd_shared (\<lambda>h. h\<lparr>sh_pid := master\<rparr>) s)) })"

definition my_fini :: "env \<Rightarrow> int \<Rightarrow> addr \<Rightarrow> state \<Rightarrow> (string \<times> state) option" where
  "my_fini E getpid a s =
     (if a = 0 then None
      else if getpid = sh_pid (shared (hp s))
      then do {
        s \<leftarrow> mallocCleanup E a s;
        Some (''Stopping.....................: '' @ dec getpid @ [char_of (10 :: nat)], s) }
      else Some ('''', s))"

section \<open>Lemmas\<close>

lemma sys_eq: "sys E s = (env_fail E (ticks s), s\<lparr>ticks := Suc (ticks s)\<rparr>)"
  by (simp add: sys_def)

lemma vgc_stacktraceInit_result:
  "fst (vgc_stacktraceInit E s) = (env_fail E (ticks s) = None)"
  "hp (snd (vgc_stacktraceInit E s)) = hp s"
  by (simp_all add: vgc_stacktraceInit_def sys_eq split: option.splits)

section \<open>Loading and unloading restore the mapped regions\<close>

lemma mutexattrDestroy_ok:
  "reliable E \<Longrightarrow> attrs s i = Some x \<Longrightarrow> \<exists>s'. PTHREAD_mutexattrDestroy E i s = (True, s') \<and> hp s' = hp s \<and> mtx s' = mtx s"
  by (auto simp: PTHREAD_mutexattrDestroy_def sys_reliable)

text \<open>The regions an unmapping leaves.\<close>

definition outside :: "addr \<Rightarrow> size_t \<Rightarrow> addr \<times> size_t \<Rightarrow> bool" where
  "outside a n r \<longleftrightarrow> \<not> (unat a \<le> unat (fst r) \<and> unat (fst r) + unat (snd r) \<le> unat a + unat n)"

lemma munmap_ok:
  "reliable E \<Longrightarrow> n \<noteq> 0 \<Longrightarrow> \<exists>s'. munmap E a n s = (None, s') \<and> maps (hp s') = filter (outside a n) (maps (hp s)) \<and>
     shared (hp s') = shared (hp s)"
  by (auto simp: munmap_def sys_reliable outside_def intro: filter_cong)

lemma filter_outside:
  assumes "\<forall>r \<in> set ms. disjoint_regions (a, n) r \<and> snd r \<noteq> 0"
  shows "filter (outside a n) ms = ms" "filter (outside a n) ((a, n) # ms) = ms"
proof -
  have "outside a n r" if "r \<in> set ms" for r
  proof -
    have "0 < unat (snd r)" using assms that by (simp add: unat_gt_0)
    then show ?thesis using assms that by (fastforce simp: disjoint_regions_def outside_def)
  qed
  then show "filter (outside a n) ms = ms" by (simp add: filter_id_conv)
  then show "filter (outside a n) ((a, n) # ms) = ms" by (simp add: outside_def)
qed

lemma unmapShared_sized_maps:
  "reliable E \<Longrightarrow> n \<noteq> 0 \<Longrightarrow> maps (hp (unmapShared_sized E n a s)) = filter (outside a n) (maps (hp s))"
  using munmap_ok [of E n a s] by (auto simp: unmapShared_sized_def)

lemma unmapShared_maps: "reliable E \<Longrightarrow> maps (hp (unmapShared E a s)) = filter (outside a sizeof_VGC_shared) (maps (hp s))"
  by (simp add: unmapShared_def unmapShared_sized_maps)

lemma cleanupLocks_empty:
  assumes E: "reliable E" and ok: "heap_ok s []"
  shows "\<exists>s'. cleanupLocks E s = Some s' \<and> hp s' = hp s"
proof -
  note h = heap_okD [OF ok]
  obtain s1 where s1: "PTHREAD_mutexattrDestroy E MShared s = (True, s1)" "hp s1 = hp s" "mtx s1 = mtx s"
    using mutexattrDestroy_ok [OF E h(7)] by blast
  let ?s2 = "s1\<lparr>ticks := Suc (ticks s1), mtx := (mtx s1)(MShared := (mtx s1 MShared)\<lparr>pm_lock := Uninit\<rparr>)\<rparr>"
  have "PTHREAD_mutexDestroy E MShared s1 = Some (True, ?s2)"
    using PTHREAD_mutexDestroy_free [OF E] s1(3) h(6) by simp
  then show ?thesis using h(2) s1 by (simp add: cleanupLocks_def Let_def)
qed

lemma mallocCleanup_empty:
  assumes E: "reliable E" and "heap_ok s []" and "a \<noteq> 0"
    and maps: "maps (hp s) = (a, sizeof_VGC_shared) # ms"
    and apart: "\<forall>r \<in> set ms. disjoint_regions (a, sizeof_VGC_shared) r \<and> snd r \<noteq> 0"
  shows "\<exists>s'. mallocCleanup E a s = Some s' \<and> maps (hp s') = ms"
proof -
  obtain s1 where "cleanupLocks E s = Some s1" "hp s1 = hp s" using cleanupLocks_empty assms by blast
  then show ?thesis
    using assms(3) maps unmapShared_maps [OF E, of a s1] filter_outside(2) [OF apart]
    by (simp add: mallocCleanup_def del: filter.simps)
qed

lemma my_init_ok:
  assumes E: "reliable E" and "env_mmap E (Suc (ticks s)) (maps (hp s)) sizeof_VGC_shared = a"
    and "a \<noteq> MAP_FAILED" and "a \<noteq> 0"
  shows "\<exists>l s'. my_init E p level 4096 s = Some (l, Loaded a s') \<and> heap_ok s' [] \<and>
     maps (hp s') = (a, sizeof_VGC_shared) # maps (hp s) \<and> sh_pid (shared (hp s')) = p"
proof -
  let ?s0 = "vgc_messageInit level s"
  have s0: "hp ?s0 = hp s" "ticks ?s0 = ticks s"
    by (simp_all add: vgc_messageInit_def Let_def split: option.splits)
  obtain s1 where s1: "vgc_stacktraceInit E ?s0 = (True, s1)" "hp s1 = hp s" "ticks s1 = Suc (ticks s)"
    using s0 by (simp add: vgc_stacktraceInit_def sys_reliable [OF E])
  then obtain s2 where s2: "initializeShared E 4096 s1 = Some (a, True, s2)" "heap_ok s2 []"
      "maps (hp s2) = (a, sizeof_VGC_shared) # maps (hp s)"
    using initializeShared_ok [OF E _ assms(3,4), of s1] assms(2) by auto
  have "heap_ok (upd_shared (\<lambda>h. h\<lparr>sh_pid := p\<rparr>) s2) []"
    using s2(2) by (simp add: heap_ok_def cfg_def upd_shared_def)
  then show ?thesis using s1 s2 by (simp add: my_init_def Let_def upd_shared_def)
qed

lemma load_unload:
  assumes E: "reliable E" "mmap_ok E" and "env_mmap E (Suc (ticks s)) (maps (hp s)) sizeof_VGC_shared \<noteq> MAP_FAILED"
    and "\<forall>r \<in> set (maps (hp s)). snd r \<noteq> 0"
  shows "\<exists>l a s1 l2 s2. my_init E p level 4096 s = Some (l, Loaded a s1) \<and>
     my_fini E p a s1 = Some (l2, s2) \<and> maps (hp s2) = maps (hp s) \<and>
     (\<forall>q. q = p \<or> my_fini E q a s1 = Some ('''', s1))"
proof -
  let ?a = "env_mmap E (Suc (ticks s)) (maps (hp s)) sizeof_VGC_shared"
  have a: "?a \<noteq> 0" "\<forall>r \<in> set (maps (hp s)). disjoint_regions (?a, sizeof_VGC_shared) r"
    using E(2) assms(3) unfolding mmap_ok_def by blast+
  obtain l s1 where s1: "my_init E p level 4096 s = Some (l, Loaded ?a s1)" "heap_ok s1 []"
      "maps (hp s1) = (?a, sizeof_VGC_shared) # maps (hp s)" "sh_pid (shared (hp s1)) = p"
    using my_init_ok [OF E(1) refl assms(3) a(1)] by blast
  obtain s2 where "mallocCleanup E ?a s1 = Some s2" "maps (hp s2) = maps (hp s)"
    using mallocCleanup_empty [OF E(1) s1(2) a(1) s1(3)] a(2) assms(4) by blast
  then show ?thesis using s1 a(1) by (auto simp: my_fini_def)
qed

end
