(* ===== verification/Loading_mp.thy ===== *)
theory Loading_mp
  imports Distribution Stacktrace
begin

text \<open>
  Loading and unloading in the multi-process build, from \<^verbatim>\<open>src/vgc_malloc.c\<close>: the constructor, the
  destructor and \<^verbatim>\<open>mallocCleanup\<close>, which here start and stop the threads of
  \<^verbatim>\<open>src/vgc_mprotect_mp.c\<close> and map and unmap the table of the processes.
\<close>

definition mallocCleanup_mp :: "env \<Rightarrow> addr \<Rightarrow> mp \<Rightarrow> mp option" where
  "mallocCleanup_mp E a m =
     (if a = 0 then Some m
      else do {
        s \<leftarrow> cleanupLocks E (base m);
        let m = m\<lparr>base := s\<rparr>;
        m \<leftarrow> (if sh_isMprotectEnabled (shared (hp s)) then stopMprotect E m else Some m);
        Some (m\<lparr>base := unmapShared_sized E sizeof_VGC_shared_mp a (base m)\<rparr>) })"

datatype loaded_mp = Exit_mp mp | Loaded_mp addr mp

definition my_init_mp ::
    "env \<Rightarrow> (nat \<Rightarrow> nat) \<Rightarrow> errno option \<Rightarrow> string option \<Rightarrow> size_t \<Rightarrow> mp \<Rightarrow> (string \<times> loaded_mp) option" where
  "my_init_mp E tid errno0 level pageSize m =
     (let master = getpid m;
          line = ''Starting.....................: '' @ dec master @ [newline_char];
          (ok, s) = vgc_stacktraceInit E (vgc_messageInit level (base m));
          m = m\<lparr>base := s\<rparr>
      in if \<not> ok then Some (line, Exit_mp m)
         else do {
           (a, ok, m) \<leftarrow> initializeShared_mp E tid errno0 pageSize m;
           if \<not> ok then Some (line, Exit_mp m)
           else Some (line, Loaded_mp a (m\<lparr>base := upd_shared (\<lambda>h. h\<lparr>sh_pid := master\<rparr>) (base m)\<rparr>)) })"

definition my_fini_mp :: "env \<Rightarrow> addr \<Rightarrow> mp \<Rightarrow> (string \<times> mp) option" where
  "my_fini_mp E a m =
     (if a = 0 then None
      else if getpid m = sh_pid (shared (hp (base m)))
      then do {
        m \<leftarrow> mallocCleanup_mp E a m;
        Some (''Stopping.....................: '' @ dec (getpid m) @ [newline_char], m) }
      else Some ('''', m))"

section \<open>What the operations on the table leave alone\<close>

text \<open>\<open>settled m m'\<close>: nothing of the memory and the locks changed, and the table is where it was.\<close>

definition settled :: "mp \<Rightarrow> mp \<Rightarrow> bool" where
  "settled m m' \<longleftrightarrow> quiet (base m) (base m') \<and> children_at m' = children_at m"

lemma settled_refl [simp]: "settled m m"
  by (simp add: settled_def)

lemma settled_trans: "settled m n \<Longrightarrow> settled n k \<Longrightarrow> settled m k"
  using quiet_trans by (auto simp: settled_def)

interpretation settled: protecting settled "\<lambda>m cs. heap_ok (base m) cs"
  by unfold_locales (simp, rule settled_trans, assumption+, simp add: settled_def wf_quiet)

lemma settled_say [simp]: "settled m (say l r k) = settled m k"
  by (simp add: settled_def say_def)

lemma settled_upd_child [simp]: "settled m (upd_child i f k) = settled m k"
  by (simp add: settled_def upd_child_def)

lemma settled_fields [simp]:
  "settled m (k\<lparr>sockdir := d\<rparr>) = settled m k" "settled m (k\<lparr>fds := x\<rparr>) = settled m k"
  "settled m (k\<lparr>bad_close := x\<rparr>) = settled m k" "settled m (k\<lparr>peers := q\<rparr>) = settled m k" "settled m (k\<lparr>isFather := b\<rparr>) = settled m k"
  "settled m (k\<lparr>children := cs\<rparr>) = settled m k"
  by (simp_all add: settled_def)

lemma quiet_tick [simp]: "quiet s (t\<lparr>ticks := n\<rparr>) = quiet s t"
  by (simp add: quiet_def)

lemma settled_sys: "settled m (snd (on_base (sys E) k)) = settled m k"
  by (simp add: settled_def on_base_def sys_eq)

lemma settled_reported: "on_base (reported E r) k = (b, k') \<Longrightarrow> settled m k' = settled m k"
  by (auto simp: settled_def on_base_def reported_def sys_eq split: option.splits)

lemma settled_thread_calls:
  "on_base (PTHREAD_create E) k = (r, k') \<Longrightarrow> settled m k' = settled m k"
  "on_base (PTHREAD_cancel E) k = (r, k') \<Longrightarrow> settled m k' = settled m k"
  "on_base (PTHREAD_join E) k = (r, k') \<Longrightarrow> settled m k' = settled m k"
  using settled_reported unfolding on_base_def wrapper_reported by blast+

lemma settled_unlink: "unlink E path k = (r, k') \<Longrightarrow> settled m k' = settled m k"
  using settled_sys [of m E k] by (auto simp: unlink_def split: prod.splits option.splits if_splits)

lemma settled_close [simp]: "settled m (mp_close E fd k) = settled m k"
  using settled_sys [of m E k] by (simp add: mp_close_def Let_def)

lemma settled_cleanSockets: "settled m k \<Longrightarrow> settled m (cleanSockets E fs k)"
proof (induction fs arbitrary: k)
  case (Cons f fs)
  obtain name sock where f: "f = (name, sock)" by fastforce
  let ?file = "fst (snprintf 1024 (SocketPath @ ''/'' @ name))"
  obtain e k1 where k1: "unlink E ?file (say VGC_MALLOC_DEBUG_LEVEL (CR_removing ?file) k) = (e, k1)" by fastforce
  have "settled m k1" using settled_unlink [OF k1] Cons.prems by simp
  then show ?case using f k1 Cons by (simp add: Let_def split: option.splits)
qed simp

lemma settled_cleanDir: "settled m k \<Longrightarrow> settled m (cleanDir E k)"
proof -
  assume "settled m k"
  obtain e k1 where k1: "on_base (sys E) (say 4 CR_exists k) = (e, k1)" by fastforce
  have "settled m k1" using settled_sys [of m E "say 4 CR_exists k"] k1 \<open>settled m k\<close> by simp
  moreover from this have "settled m (snd (on_base (sys E) (cleanSockets E (sockdir k1) k1)))"
    by (simp add: settled_sys settled_cleanSockets)
  ultimately show ?thesis using k1 by (simp add: cleanDir_def Let_def split: option.splits)
qed

section \<open>Stopping\<close>

lemma settled_removeChildThread:
  assumes "removeChildThread E i k = Some k'"
  shows "settled m k' = settled m k"
proof -
  obtain c where c: "get_child i k = Some c" using assms by (auto simp: removeChildThread_def bind_eq_Some_conv)
  obtain ok1 k1 where 1: "on_base (PTHREAD_cancel E) (say (VGC_MALLOC_DEBUG_LEVEL + 2) (CR_stop (ch_pid c)) k) = (ok1, k1)"
    by fastforce
  obtain ok2 k2 where 2: "on_base (PTHREAD_join E) (if ok1 then k1 else say ERROR_LEVEL CR_cancel_failed k1) = (ok2, k2)"
    by fastforce
  have "settled m k1 = settled m k" using settled_thread_calls(2) [OF 1] by simp
  moreover have "settled m k2 = settled m k1" using settled_thread_calls(3) [OF 2] by (simp split: if_splits)
  moreover obtain e where u: "unlink E (ch_socketName c) (mp_close E (ch_socketFD c)
      (upd_child i (\<lambda>c. c\<lparr>ch_pid := 0, ch_thread := 0\<rparr>) (if ok2 then k2 else say ERROR_LEVEL CR_join_failed k2))) = (e, k')"
    using assms c 1 2 by (simp add: removeChildThread_def) (metis prod.collapse)
  ultimately show ?thesis using settled_unlink [OF u, of m] by (simp split: if_splits)
qed

lemma stopAll_settled:
  "\<forall>i \<in> set is. i < length (children k) \<Longrightarrow> settled m k \<Longrightarrow> \<exists>k'. stopAll E is k = Some k' \<and> settled m k'"
proof (induction "is" arbitrary: k)
  case (Cons i "is")
  then have c: "get_child i k = Some (children k ! i)" by (simp add: get_child_def)
  have rest: "\<exists>k'. stopAll E is k1 = Some k' \<and> settled m k'" if "fewer k k1" "settled m k1" for k1
    using Cons.IH [OF _ that(2)] that(1) Cons.prems(1) by (simp add: fewer_def)
  show ?case
  proof (cases "ch_pid (children k ! i) \<noteq> 0 \<and> ch_pid (children k ! i) \<noteq> getpid k")
    case True
    obtain k1 where k1: "removeChildThread E i k = Some k1"
      using removeChildThread_some Cons.prems(1) by (metis list.set_intros(1))
    show ?thesis
      using True c k1 rest [OF removeChildThread_fewer [OF k1]] settled_removeChildThread [OF k1, of m] Cons.prems(2)
      by simp
  next
    case False
    let ?k1 = "mp_close E (ch_socketFD (children k ! i)) (upd_child i (\<lambda>c. c\<lparr>ch_pid := 0, ch_thread := 0\<rparr>) k)"
    obtain e k2 where k2: "unlink E (ch_socketName (children k ! i)) ?k1 = (e, k2)" by fastforce
    have "fewer k k2" using fewer_unlink [OF k2] by (rule fewer_trans [rotated]) (simp add: fewer_upd_child)
    moreover have "settled m k2" using settled_unlink [OF k2] Cons.prems(2) by simp
    ultimately show ?thesis using False c k2 rest Cons.prems(2) by auto
  qed
qed simp

text \<open>The table is unmapped, and with it every process is gone.\<close>

lemma stopMprotect_releases:
  assumes E: "reliable E" and len: "length (children m) = 10" "maxProcesses m = 10"
    and at: "children_at m \<noteq> 0"
  shows "\<exists>m'. stopMprotect E m = Some m' \<and> children m' = [] \<and>
     maps (hp (base m')) = filter (outside (children_at m) 1200) (maps (hp (base m)))"
proof -
  let ?k = "say (VGC_MALLOC_DEBUG_LEVEL + 2) CR_stopping m"
  have "\<forall>i \<in> set [0..<nat (maxProcesses m)]. i < length (children ?k)" using len by (simp add: say_def)
  then obtain m1 where m1: "stopAll E [0..<nat (maxProcesses m)] ?k = Some m1" "settled m m1"
    using stopAll_settled settled_say settled_refl by blast
  have "maxProcesses m1 = maxProcesses m" using stopAll_fewer [OF m1(1)] by (simp add: fewer_def say_def)
  moreover have "hp (base m1) = hp (base m)" "children_at m1 = children_at m"
    using m1(2) by (simp_all add: settled_def quiet_def)
  ultimately show ?thesis
    using m1(1) len at munmap_ok [OF E, of 1200 "children_at m" "base m1"]
    by (auto simp: stopMprotect_def on_base_def)
qed

lemma mallocCleanup_mp_releases:
  assumes E: "reliable E" and ok: "heap_ok (base m) []" and "a \<noteq> 0" and "children_at m = b" and "b \<noteq> 0"
    and len: "length (children m) = 10" "maxProcesses m = 10"
    and maps: "maps (hp (base m)) = (b, 1200) # (a, sizeof_VGC_shared_mp) # ms"
    and "\<forall>r \<in> set ((a, sizeof_VGC_shared_mp) # ms). disjoint_regions (b, 1200) r \<and> snd r \<noteq> 0"
    and "\<forall>r \<in> set ms. disjoint_regions (a, sizeof_VGC_shared_mp) r \<and> snd r \<noteq> 0"
  shows "\<exists>m'. mallocCleanup_mp E a m = Some m' \<and> maps (hp (base m')) = ms \<and> children m' = []"
proof -
  obtain s where s: "cleanupLocks E (base m) = Some s" "hp s = hp (base m)"
    using cleanupLocks_empty [OF E ok] by blast
  let ?m = "m\<lparr>base := s\<rparr>"
  obtain m1 where m1: "stopMprotect E ?m = Some m1" "children m1 = []"
      "maps (hp (base m1)) = filter (outside b 1200) (maps (hp s))"
    using stopMprotect_releases [OF E, of ?m] assms(4,5) len by auto
  have "maps (hp (base m1)) = (a, sizeof_VGC_shared_mp) # ms"
    unfolding m1(3) s(2) maps by (rule filter_outside(2) [OF assms(9)])
  then show ?thesis
    using assms(3) s m1(1,2) unmapShared_sized_maps [OF E, of sizeof_VGC_shared_mp a "base m1"] filter_outside(2) [OF assms(10)]
      cfgD(3) [OF heap_okD(1) [OF ok]]
    by (simp add: mallocCleanup_mp_def del: filter.simps)
qed

section \<open>Starting\<close>

lemma mmap_heap_ok: "mmap E n s = (a, t) \<Longrightarrow> heap_ok s [] \<Longrightarrow> heap_ok t []"
  by (auto simp: mmap_def heap_ok_def cfg_def Let_def split: if_splits)

text \<open>\<open>enters m k\<close>: at most the entries of the table changed.\<close>

definition enters :: "mp \<Rightarrow> mp \<Rightarrow> bool" where
  "enters m k \<longleftrightarrow> settled m k \<and> length (children k) = length (children m) \<and>
     maxProcesses k = maxProcesses m \<and> getpid k = getpid m"

interpretation enters: frame enters
  by unfold_locales (auto simp: enters_def intro: settled_trans)

lemma enters_say: "enters m (say l r m)"
  unfolding enters_def settled_say by (simp add: say_def)

lemma enters_call:
  "on_base f m = (r, k) \<Longrightarrow> settled m k \<Longrightarrow> enters m k"
  by (auto simp: enters_def on_base_def split: prod.splits)

lemma enters_upd_child: "enters m (upd_child i f m)"
  by (simp add: enters_def) (simp add: upd_child_def)

lemma enters_startChildThread:
  assumes "i < length (children m)"
  shows "\<exists>ok k. startChildThread E tid i m = Some (ok, k) \<and> enters m k"
proof -
  have c: "get_child i m = Some (children m ! i)" using assms by (simp add: get_child_def)
  let ?m1 = "say (VGC_MALLOC_DEBUG_LEVEL + 2) (CR_start (ch_pid (children m ! i))) m"
  obtain ok m2 where m2: "on_base (PTHREAD_create E) ?m1 = (ok, m2)" by fastforce
  have "enters ?m1 m2" using enters_call [OF m2] settled_thread_calls(1) [OF m2, of ?m1] by simp
  then have "enters m m2" using enters_say enters.then_rel by blast
  then show ?thesis
    using c m2 enters_say enters_upd_child enters.then_rel
    by (cases ok) (auto simp: startChildThread_def Let_def)
qed

lemma enters_findFreeChild:
  assumes "length (children m) = nat (maxProcesses m)"
  shows "\<exists>pos k. findFreeChild p m = Some (pos, k) \<and> (pos = -1 \<or> nat pos < length (children k)) \<and> enters m k"
proof -
  have t: "table m = Some (children m)" using assms by (simp add: table_def)
  obtain pos k where f: "findFreeChild p m = Some (pos, k)"
    using t by (cases "findFreeChild p m") (auto simp: findFreeChild_def Let_def split: if_splits)
  from f t show ?thesis
  proof (cases rule: findFreeChild_cases)
    case none
    then show ?thesis using f enters.same by blast
  next
    case (free i)
    then have "nat pos < length (children k)" by (simp add: upd_child_def)
    then show ?thesis using f free(6) enters_upd_child by blast
  qed
qed

lemma enters_startChildDebugCorruption:
  assumes "length (children m) = nat (maxProcesses m)"
  shows "\<exists>k. startChildDebugCorruption E tid m = Some k \<and> enters m k"
proof -
  have full: "length (children k) = nat (maxProcesses k)" if "enters m k" for k
    using assms that by (simp add: enters_def)
  have count: "\<exists>n. countChildren k = Some n" if "enters m k" for k
    using full [OF that] by (simp add: countChildren_def table_def)
  obtain pos m1 where m1: "findFreeChild (getpid m) m = Some (pos, m1)" "enters m m1"
      "pos = -1 \<or> nat pos < length (children m1)"
    using enters_findFreeChild [OF assms] by blast
  show ?thesis
  proof (cases "pos = -1")
    case False
    then obtain ok m2 where m2: "startChildThread E tid (nat pos) m1 = Some (ok, m2)" "enters m m2"
      using m1 enters_startChildThread enters.then_rel by blast
    let ?m3 = "m2\<lparr>isFather := True\<rparr>"
    have m3: "enters m ?m3" using m2(2) by (simp add: enters_def)
    obtain pos2 m4 where m4: "findFreeChild (getpid ?m3) ?m3 = Some (pos2, m4)" "enters m m4"
        "pos2 = -1 \<or> nat pos2 < length (children m4)"
      using enters_findFreeChild [OF full [OF m3]] m3 enters.then_rel by blast
    obtain n where n: "countChildren m2 = Some n" using count m2(2) by blast
    show ?thesis
    proof (cases "pos2 = -1")
      case True
      then show ?thesis using False m1 m2 m3 m4 n by (auto simp: startChildDebugCorruption_def)
    next
      case neg: False
      then obtain ok2 m5 where "startChildThread E tid (nat pos2) m4 = Some (ok2, m5)" "enters m m5"
        using m4 enters_startChildThread enters.then_rel by blast
      then show ?thesis using False neg m1 m2 m3 m4 n by (auto simp: startChildDebugCorruption_def)
    qed
  qed (use m1 in \<open>simp add: startChildDebugCorruption_def\<close>)
qed

lemma enters_fewer: "settled m k \<Longrightarrow> fewer m k \<Longrightarrow> enters m k"
  by (simp add: enters_def fewer_def)

lemma enters_initChildDebugCorruption:
  assumes "length (children m) = nat (maxProcesses m)"
  shows "\<exists>k. initChildDebugCorruption E errno0 m = Some k \<and> enters m k"
proof -
  let ?m1 = "say VGC_MALLOC_DEBUG_LEVEL CR_init m"
  let ?m2 = "?m1\<lparr>children := map (\<lambda>c. c\<lparr>ch_pid := 0, ch_thread := 0\<rparr>) (children m), isFather := False\<rparr>"
  have t: "table ?m1 = Some (children m)" using assms by (simp add: table_def say_def)
  have m2: "enters m ?m2" unfolding enters_def settled_fields settled_say by (simp add: say_def)
  obtain e k where k: "on_base (sys E) ?m2 = (e, k)" by fastforce
  have "settled ?m2 k" using settled_sys [of ?m2 E ?m2] k by simp
  then have mk: "enters m k" using enters_call [OF k] m2 enters.then_rel by blast
  moreover have "enters m (cleanDir E k)"
    using enters_fewer [OF settled_cleanDir [OF settled_refl] cleanDir_fewer] mk enters.then_rel by blast
  moreover have "enters m (say ERROR_LEVEL (CR_mkdir (the e)) k)" using enters_say mk enters.then_rel by blast
  moreover have "children ?m1 = children m" by (simp add: say_def)
  ultimately show ?thesis
    using t k by (auto simp: initChildDebugCorruption_def Let_def)
qed

lemma startMprotect_starts:
  assumes "env_mmap E (ticks (base m)) (maps (hp (base m))) 1200 = b" and "b \<noteq> MAP_FAILED" and "b \<noteq> 0"
    and "heap_ok (base m) []"
  shows "\<exists>k. startMprotect E tid errno0 10 m = Some (True, k) \<and> heap_ok (base k) [] \<and>
     maps (hp (base k)) = (b, 1200) # maps (hp (base m)) \<and> children_at k = b \<and>
     length (children k) = 10 \<and> maxProcesses k = 10 \<and> getpid k = getpid m"
proof -
  obtain t where t: "mmap E 1200 (base m) = (b, t)" "maps (hp t) = (b, 1200) # maps (hp (base m))"
    using assms(1,2) by (simp add: mmap_def Let_def)
  let ?m1 = "m\<lparr>maxProcesses := 10, base := t, children_at := b, children := replicate 10 zero_child\<rparr>"
  obtain k1 where k1: "initChildDebugCorruption E errno0 ?m1 = Some k1" "enters ?m1 k1"
    using enters_initChildDebugCorruption [of ?m1] by auto
  then have "length (children k1) = nat (maxProcesses k1)" by (simp add: enters_def)
  then obtain k where k: "startChildDebugCorruption E tid k1 = Some k" "enters ?m1 k"
    using enters_startChildDebugCorruption k1(2) enters.then_rel by blast
  have "heap_ok (base k) []"
    using settled.carries [of ?m1 k] mmap_heap_ok [OF t(1) assms(4)] k(2) by (simp add: enters_def)
  moreover have "startMprotect E tid errno0 10 m = Some (True, k)"
    using assms(2,3) t(1) k1(1) k(1) by (simp add: startMprotect_def on_base_def Let_def)
  ultimately show ?thesis
    using k(2) t(2) by (simp add: enters_def settled_def quiet_def)
qed

section \<open>Loading and unloading\<close>

text \<open>There is room for the shared record and for the table behind it.\<close>

definition mp_room :: "env \<Rightarrow> (addr \<times> size_t) list \<Rightarrow> bool" where
  "mp_room E ms \<longleftrightarrow> (\<forall>k. env_mmap E k ms sizeof_VGC_shared_mp \<noteq> MAP_FAILED \<and>
     (\<forall>a l. env_mmap E l ((a, sizeof_VGC_shared_mp) # ms) 1200 \<noteq> MAP_FAILED))"

lemma my_init_mp_ok:
  assumes E: "reliable E" "mmap_ok E" and room: "mp_room E (maps (hp (base m)))"
  shows "\<exists>l a b k. my_init_mp E tid errno0 level 4096 m = Some (l, Loaded_mp a k) \<and> heap_ok (base k) [] \<and>
     a \<noteq> 0 \<and> b \<noteq> 0 \<and> children_at k = b \<and> length (children k) = 10 \<and> maxProcesses k = 10 \<and>
     getpid k = getpid m \<and> sh_pid (shared (hp (base k))) = getpid m \<and>
     maps (hp (base k)) = (b, 1200) # (a, sizeof_VGC_shared_mp) # maps (hp (base m)) \<and>
     (\<forall>r \<in> set ((a, sizeof_VGC_shared_mp) # maps (hp (base m))). disjoint_regions (b, 1200) r) \<and>
     (\<forall>r \<in> set (maps (hp (base m))). disjoint_regions (a, sizeof_VGC_shared_mp) r)"
proof -
  let ?ms = "maps (hp (base m))"
  have "hp (vgc_messageInit level (base m)) = hp (base m)"
    by (simp add: vgc_messageInit_def Let_def split: option.splits)
  then obtain s1 where s1: "vgc_stacktraceInit E (vgc_messageInit level (base m)) = (True, s1)" "hp s1 = hp (base m)"
    by (simp add: vgc_stacktraceInit_def sys_reliable [OF E(1)])
  define a where "a = env_mmap E (ticks s1) ?ms sizeof_VGC_shared_mp"
  have a: "a \<noteq> MAP_FAILED" using room by (simp add: a_def mp_room_def)
  then have a': "a \<noteq> 0" "\<forall>r \<in> set ?ms. disjoint_regions (a, sizeof_VGC_shared_mp) r"
    using E(2) unfolding a_def mmap_ok_def by blast+
  have "env_mmap E (ticks s1) (maps (hp s1)) sizeof_VGC_shared_mp = a" using s1(2) by (simp add: a_def)
  then obtain s2 where s2: "initializeShared_sized E sizeof_VGC_shared_mp 4096 s1 = Some (a, True, s2)" "heap_ok s2 []"
      "maps (hp s2) = (a, sizeof_VGC_shared_mp) # ?ms"
    using initializeShared_sized_ok [OF E(1) _ a a'(1)] s1(2) by metis
  define b where "b = env_mmap E (ticks s2) (maps (hp s2)) 1200"
  have b: "b \<noteq> MAP_FAILED" using room by (simp add: b_def mp_room_def s2(3))
  then have b': "b \<noteq> 0" "\<forall>r \<in> set (maps (hp s2)). disjoint_regions (b, 1200) r"
    using E(2) unfolding b_def mmap_ok_def by blast+
  let ?m2 = "m\<lparr>base := s2, maxProcesses := 0, children_at := 0, children := []\<rparr>"
  obtain k where k: "startMprotect E tid errno0 10 ?m2 = Some (True, k)" "heap_ok (base k) []"
      "maps (hp (base k)) = (b, 1200) # maps (hp s2)" "children_at k = b" "length (children k) = 10"
      "maxProcesses k = 10" "getpid k = getpid m"
    using startMprotect_starts [of E ?m2 b tid errno0, OF _ b b'(1)] s2(2) by (auto simp: b_def)
  have "heap_ok (upd_shared (\<lambda>h. h\<lparr>sh_pid := getpid m\<rparr>) (base k)) []"
    using k(2) by (simp add: heap_ok_def cfg_def upd_shared_def)
  moreover have "initializeShared_mp E tid errno0 4096 (m\<lparr>base := s1\<rparr>) = Some (a, True, k)"
    using s2(1) a'(1) k(1) cfgD(3) [OF heap_okD(1) [OF s2(2)]] by (simp add: initializeShared_mp_def)
  ultimately show ?thesis
    using s1(1) k a' b' s2(3) by (simp add: my_init_mp_def Let_def upd_shared_def)
qed

lemma load_unload_mp:
  assumes E: "reliable E" "mmap_ok E" and room: "mp_room E (maps (hp (base m)))"
    and "\<forall>r \<in> set (maps (hp (base m))). snd r \<noteq> 0"
  shows "\<exists>l a m1 l2 m2. my_init_mp E tid errno0 level 4096 m = Some (l, Loaded_mp a m1) \<and>
     length (children m1) = 10 \<and> my_fini_mp E a m1 = Some (l2, m2) \<and>
     maps (hp (base m2)) = maps (hp (base m)) \<and> children m2 = []"
proof -
  obtain l a b k where k: "my_init_mp E tid errno0 level 4096 m = Some (l, Loaded_mp a k)" "heap_ok (base k) []"
      "a \<noteq> 0" "b \<noteq> 0" "children_at k = b" "length (children k) = 10" "maxProcesses k = 10"
      "getpid k = getpid m" "sh_pid (shared (hp (base k))) = getpid m"
      "maps (hp (base k)) = (b, 1200) # (a, sizeof_VGC_shared_mp) # maps (hp (base m))"
      "\<forall>r \<in> set ((a, sizeof_VGC_shared_mp) # maps (hp (base m))). disjoint_regions (b, 1200) r"
      "\<forall>r \<in> set (maps (hp (base m))). disjoint_regions (a, sizeof_VGC_shared_mp) r"
    using my_init_mp_ok [OF E room] by blast
  obtain m2 where "mallocCleanup_mp E a k = Some m2" "maps (hp (base m2)) = maps (hp (base m))" "children m2 = []"
    using mallocCleanup_mp_releases [OF E(1) k(2,3,5,4,6,7,10)] k(11,12) assms(4) by auto
  then show ?thesis using k by (simp add: my_fini_mp_def)
qed

end
