(* ===== verification/Race.thy ===== *)
theory Race
  imports Session
begin

text \<open>
  Calls of the library by several threads of a process. \<^verbatim>\<open>vgc_malloc\<close> reads and writes
  \<^verbatim>\<open>shared->mmapBlockFirst\<close> before it takes the lock: a thread's call is three steps here, the
  test whether there is an mmap block, the making of the first one, and the rest, whose search runs
  under the lock and is one step. \<^verbatim>\<open>vgc_free\<close> does everything under the lock.
\<close>

section \<open>The steps of a call\<close>

definition malloc_test :: "state \<Rightarrow> bool" where
  "malloc_test s \<longleftrightarrow> sh_mmapBlockFirst (shared (hp s)) = 0"

text \<open>The result says whether the call ends here, with the null pointer.\<close>

definition malloc_first :: "env \<Rightarrow> state \<Rightarrow> (bool \<times> state) option" where
  "malloc_first E s = do {
     (mmapBlock, s) \<leftarrow> mmapBlockAllocate E (sh_mmapBlockSize (shared (hp s))) 0 s;
     Some (mmapBlock = MAP_FAILED, upd_shared (\<lambda>h. h\<lparr>sh_mmapBlockFirst := mmapBlock\<rparr>) s) }"

definition malloc_rest :: "env \<Rightarrow> size_t \<Rightarrow> state \<Rightarrow> (addr \<times> state) option" where
  "malloc_rest E sz s =
     (if sz = 0 then Some (0, report ERROR_LEVEL (Rep F_vgc_malloc S_size_zero) s)
      else do {
        let sz = (if sh_isMprotectEnabled (shared (hp s)) then sz else pointer_round sz);
        first \<leftarrow> get_mm (sh_mmapBlockFirst (shared (hp s))) s;
        if mm_maxSize first \<le> sz
        then Some (0, report ERROR_LEVEL (Rep F_vgc_malloc S_size_too_big) s)
        else do {
          (ok, s) \<leftarrow> PTHREAD_mutexLock E MShared s;
          if \<not> ok then Some (0, report ERROR_LEVEL (Rep F_vgc_malloc S_mutexLock) s)
          else do {
            (memory, s) \<leftarrow> search_body E sz s;
            s \<leftarrow> unlock_reporting E F_vgc_malloc MShared s;
            Some (memory, s) } } })"

lemma vgc_malloc_steps:
  "vgc_malloc E sz s =
     (if malloc_test s
      then do {
        (over, s) \<leftarrow> malloc_first E s;
        if over then Some (0, s) else malloc_rest E sz s }
      else malloc_rest E sz s)"
  by (auto simp: vgc_malloc_def malloc_test_def malloc_first_def malloc_rest_def search_body_def Let_def
      case_prod_unfold if_distrib [where f = "\<lambda>m. Option.bind m k" for k] cong: if_cong)

text \<open>
  Where each thread is: in no call, or in a call of \<^verbatim>\<open>vgc_malloc\<close> before it makes the first mmap block
  or before the rest. A call of \<^verbatim>\<open>vgc_free\<close> or \<^verbatim>\<open>vgc_mallocCheckMMAP\<close> is one step: it takes the lock first.
\<close>

datatype stage = Rests | Maps size_t | Goes_on size_t

text \<open>
  Any thread may start a call at any time and release any pointer that was handed out; \<open>ps\<close> are the pointers the
  threads hold, with their sizes. As in \<open>lib_step\<close>, a request of whole pages is not met here.
\<close>

type_synonym threads = "(nat \<Rightarrow> stage) \<times> (addr \<times> size_t) list \<times> state"

inductive race :: "env \<Rightarrow> threads \<Rightarrow> threads \<Rightarrow> bool" for E where
  looks: "pcs t = Rests \<Longrightarrow>
    race E (pcs, ps, s) (pcs(t := if malloc_test s then Maps sz else Goes_on sz), ps, s)"
| made: "pcs t = Maps sz \<Longrightarrow> malloc_first E (s\<lparr>self := t\<rparr>) = Some (over, s') \<Longrightarrow>
    race E (pcs, ps, s) (pcs(t := if over then Rests else Goes_on sz), ps, s')"
| given: "pcs t = Goes_on sz \<Longrightarrow> malloc_rest E sz (s\<lparr>self := t\<rparr>) = Some (p, s') \<Longrightarrow>
    p \<noteq> 0 \<Longrightarrow> unat sz mod 4096 \<noteq> 0 \<Longrightarrow> race E (pcs, ps, s) (pcs(t := Rests), (p, sz) # ps, s')"
| refused: "pcs t = Goes_on sz \<Longrightarrow> malloc_rest E sz (s\<lparr>self := t\<rparr>) = Some (0, s') \<Longrightarrow>
    race E (pcs, ps, s) (pcs(t := Rests), ps, s')"
| freed: "pcs t = Rests \<Longrightarrow> x \<in> set ps \<Longrightarrow> vgc_free E (fst x) (s\<lparr>self := t\<rparr>) = Some s' \<Longrightarrow>
    race E (pcs, ps, s) (pcs, remove1 x ps, s')"
| checked: "pcs t = Rests \<Longrightarrow> a \<noteq> 0 \<Longrightarrow> vgc_mallocCheckMMAP E a (s\<lparr>self := t\<rparr>) = Some s' \<Longrightarrow>
    race E (pcs, ps, s) (pcs, ps, s')"
| stored: "pcs t = Rests \<Longrightarrow> race E (pcs, ps, s) (pcs, ps, s\<lparr>hp := (hp s)\<lparr>bytes := f\<rparr>\<rparr>)"

inductive_cases raceE: "race E (pcs, ps, s) y"

section \<open>Once there is an mmap block\<close>

text \<open>A step after which the shared record still names an mmap block.\<close>

definition race_on :: "env \<Rightarrow> threads \<Rightarrow> threads \<Rightarrow> bool" where
  "race_on E x y \<longleftrightarrow> race E x y \<and> \<not> malloc_test (snd (snd y))"

text \<open>
  Then no thread makes a first one, and every interleaving of the steps is a run of a client that calls
  one after the other.
\<close>

fun past_first :: "stage \<Rightarrow> bool" where
  "past_first (Maps sz) \<longleftrightarrow> False"
| "past_first st \<longleftrightarrow> True"

definition serial :: "env \<Rightarrow> threads \<Rightarrow> bool" where
  "serial E x \<longleftrightarrow> (case x of (pcs, ps, s) \<Rightarrow> client E s ps \<and> \<not> malloc_test s \<and> (\<forall>t. past_first (pcs t)))"

lemma malloc_test_simps [simp]:
  "malloc_test (s\<lparr>self := t\<rparr>) = malloc_test s" "malloc_test (s\<lparr>hp := (hp s)\<lparr>bytes := f\<rparr>\<rparr>) = malloc_test s"
  by (simp_all add: malloc_test_def)

lemma client_self: "client E s ps \<Longrightarrow> client E (s\<lparr>self := t\<rparr>) ps"
  by (rule client.called [OF _ lib_step.switched])

text \<open>The end of a call is a whole call, as the test would still fail.\<close>

lemma rest_is_call: "\<not> malloc_test s \<Longrightarrow> malloc_rest E sz (s\<lparr>self := t\<rparr>) = vgc_malloc E sz (s\<lparr>self := t\<rparr>)"
  by (simp add: vgc_malloc_steps)

lemma malloc_keeps_first:
  assumes E: "reliable E" and mm: "mmap_ok E" and cl: "client E s ps" and test: "\<not> malloc_test s"
    and run: "vgc_malloc E sz s = Some (p, s')"
  shows "sh_mmapBlockFirst (shared (hp s')) \<noteq> MAP_FAILED" "\<not> malloc_test s'"
proof -
  obtain cs where ok: "heap_ok s cs" using client_invariant [OF E mm cl] by blast
  have ne: "cs \<noteq> []" using heap_okD(2) [OF ok] test by (auto simp: malloc_test_def)
  obtain new where "heap_ok s' (snd (malloc_spec sz new cs))" "is_fresh new"
    using vgc_malloc_all [OF E mm ok ne, of sz] run by auto
  moreover have "snd (malloc_spec sz new cs) \<noteq> []" using malloc_spec_nonempty ne by blast
  ultimately obtain c ds where c: "heap_ok s' (c # ds)" by (metis list.exhaust)
  then have "chunk_shape c" using chain_shape [OF heap_okD(4) [OF c]] by simp
  then show "sh_mmapBlockFirst (shared (hp s')) \<noteq> MAP_FAILED" "\<not> malloc_test s'"
    using heap_okD(2) [OF c] by (auto simp: chunk_shape_def unat_MAP_FAILED malloc_test_def)
qed

lemma race_on_serial:
  assumes E: "reliable E" and mm: "mmap_ok E" and step: "race_on E x y" and inv: "serial E x"
  shows "serial E y"
proof -
  obtain pcs ps s where x: "x = (pcs, ps, s)" by (cases x)
  have race: "race E (pcs, ps, s) y" and alive: "\<not> malloc_test (snd (snd y))" using step x by (simp_all add: race_on_def)
  have cl: "client E s ps" and test: "\<not> malloc_test s" and past: "past_first (pcs t)" for t
    using inv x by (simp_all add: serial_def)
  note clt = client_self [OF cl]
  show ?thesis
    using race
  proof (cases rule: raceE [consumes 1, case_names looks made given refused freed checked stored])
    case (looks t sz)
    then show ?thesis using cl test past by (simp add: serial_def)
  next
    case (made t sz over s')
    then show ?thesis using past [of t] by simp
  next
    case (given t sz p s')
    then have "vgc_malloc E sz (s\<lparr>self := t\<rparr>) = Some (p, s')" using rest_is_call [OF test, of E sz t] by simp
    from lib_step.given [OF this given(4)] have "client E s' ((p, sz) # ps)"
      using given(5) by (intro client.called [OF clt]) simp
    then show ?thesis using given(1) alive past by (simp add: serial_def)
  next
    case (refused t sz s')
    then have run: "vgc_malloc E sz (s\<lparr>self := t\<rparr>) = Some (0, s')" using rest_is_call [OF test, of E sz t] by simp
    have "\<not> malloc_test (s\<lparr>self := t\<rparr>)" using test by simp
    from client.called [OF clt lib_step.refused [OF run malloc_keeps_first(1) [OF E mm clt this run]]]
    have "client E s' ps" .
    then show ?thesis using refused(1) alive past by (simp add: serial_def)
  next
    case (freed t x s')
    then have "sh_mmapBlockFirst (shared (hp s')) \<noteq> 0" using alive by (simp add: malloc_test_def)
    then have "client E s' (remove1 x ps)" using client.called [OF clt lib_step.freed [OF freed(3,4)]] by simp
    then show ?thesis using freed(1) alive past by (simp add: serial_def)
  next
    case (checked t a s')
    from client.called [OF clt lib_step.checked [OF checked(3,4)]] have "client E s' ps" .
    then show ?thesis using checked(1) alive past by (simp add: serial_def)
  next
    case (stored t f)
    then show ?thesis using client.stored [OF cl] alive past by (simp add: serial_def)
  qed
qed

lemma races_on_serial:
  assumes "reliable E" and "mmap_ok E" and "(race_on E)\<^sup>*\<^sup>* x y" and "serial E x"
  shows "serial E y"
  using assms(3,4) by (induction rule: rtranclp_induct) (use race_on_serial [OF assms(1,2)] in blast)+

text \<open>No thread is stuck: the rest of a call returns, and so does every call.\<close>

lemma serial_progress:
  assumes E: "reliable E" and mm: "mmap_ok E" and "serial E (pcs, ps, s)"
  shows "malloc_rest E sz (s\<lparr>self := t\<rparr>) \<noteq> None" "x \<in> set ps \<Longrightarrow> vgc_free E (fst x) (s\<lparr>self := t\<rparr>) \<noteq> None"
proof -
  have cl: "client E s ps" and test: "\<not> malloc_test s" using assms(3) by (simp_all add: serial_def)
  note progress = client_progress [OF E mm client_self [OF cl, of t]]
  show "malloc_rest E sz (s\<lparr>self := t\<rparr>) \<noteq> None" using progress(1) rest_is_call [OF test] by (metis option.distinct(1))
  show "x \<in> set ps \<Longrightarrow> vgc_free E (fst x) (s\<lparr>self := t\<rparr>) \<noteq> None" using progress(2) by fastforce
qed

lemma race_apart:
  assumes E: "reliable E" and mm: "mmap_ok E" and "client E s ps" and "\<not> malloc_test s"
    and run: "(race_on E)\<^sup>*\<^sup>* (\<lambda>t. Rests, ps, s) (pcs, qs, s')"
    and xy: "x \<in> set qs" "y \<in> set qs" "x \<noteq> y"
  shows "client E s' qs \<and> malloc_rest E sz (s'\<lparr>self := t\<rparr>) \<noteq> None \<and> vgc_free E (fst x) (s'\<lparr>self := t\<rparr>) \<noteq> None \<and>
    user_area (fst x) (snd x) \<inter> user_area (fst y) (snd y) = {} \<and> access_ok (fst x) (unat (snd x)) s'"
proof -
  have "serial E (\<lambda>t. Rests, ps, s)" using assms(3,4) by (simp add: serial_def)
  from races_on_serial [OF E mm run this] have ser: "serial E (pcs, qs, s')" .
  then have cl: "client E s' qs" by (simp add: serial_def)
  then show ?thesis
    using serial_progress [OF E mm ser] client_live(1,3) [OF E mm cl] xy by blast
qed

section \<open>Before there is one\<close>

text \<open>
  A thread that saw none maps its own, whatever the others did meanwhile, and overwrites the pointer
  to the first.
\<close>

lemma late_first:
  assumes E: "reliable E" and mm: "mmap_ok E" and ok: "heap_ok s cs" and own: "owns cs ps"
    and a: "env_mmap E (ticks s) (maps (hp s)) 32768000 = a" "a \<noteq> MAP_FAILED"
  shows "\<exists>s'. malloc_first E s = Some (False, s') \<and> sh_mmapBlockFirst (shared (hp s')) = a \<and>
     (\<forall>x \<in> set ps. isInMmapBlock (fst x) s' = Some False)"
proof -
  note w = heap_okD [OF ok] and r = mmap_result [OF mm a]
  obtain t where t: "allocMMAP E 32768000 0 s = Some (a, t)" "chunk_ok t 0 0 (fresh_chunk a 32768000)"
      "fresh_frame a 32768000 0 s t"
    using allocMMAP_ok [OF E mm a _ _ _ cfgD(1) [OF w(1)], of 0] by auto
  let ?s' = "upd_shared (\<lambda>h. h\<lparr>sh_mmapBlockFirst := a\<rparr>) t"
  have size: "sh_mmapBlockSize (shared (hp ?s')) = 32768000"
    using t(3) cfgD(2) [OF w(1)] by (simp add: fresh_frame_def upd_shared_def)
  have hdr: "mmapH (hp ?s') a = Some (chunk_hdr 0 0 (fresh_chunk a 32768000))"
    using t(2) by (simp add: chunk_ok_def chunk_mem_def upd_shared_def)
  have "isInMmapBlock (fst x) ?s' = Some False" if x: "x \<in> set ps" for x
  proof -
    obtain b where b: "b \<in> set (live cs)" "serves x b" using own x by (auto simp: owns_def)
    then have "0 < unat (snd x)" by (auto simp: serves_def intro: gr0I)
    moreover have "mapped (fst x) (unat (snd x)) s"
      using serves_block(3) [OF ok b] by (simp add: access_ok_def)
    ultimately have "unat (fst x) < unat a \<or> unat a + 32768000 \<le> unat (fst x)"
      using r(4) by (fastforce simp: mapped_def list_ex_iff in_region_def disjoint_regions_def)
    moreover have "unat (a + 32768000) = unat a + 32768000" using r(3) by (simp add: unat_add_ok)
    ultimately show ?thesis
      using r(1) size hdr
      by (simp add: isInMmapBlock_def isInLoop.simps upd_shared_def chunk_hdr_def word_less_nat_alt) auto
  qed
  then show ?thesis
    using t(1) a(2) cfgD(2) [OF w(1)] by (simp add: malloc_first_def mmapBlockAllocate_def upd_shared_def)
qed

text \<open>Two threads make their first calls: the pointer one of them gets is in no mmap block of the chain.\<close>

lemma first_calls_race:
  assumes E: "reliable E" and mm: "mmap_ok E" and ok: "heap_ok s []"
    and run: "vgc_malloc E sz (s\<lparr>self := t\<rparr>) = Some (p, s1)" and p: "p \<noteq> 0" and off: "unat sz mod 4096 \<noteq> 0"
    and a: "env_mmap E (ticks s1) (maps (hp s1)) 32768000 \<noteq> MAP_FAILED"
    and pcs: "pcs t = Rests" "pcs u = Rests" "t \<noteq> u"
  shows "\<exists>s'. (race E)\<^sup>*\<^sup>* (pcs, [], s) (pcs(u := Goes_on n), [(p, sz)], s') \<and> isInMmapBlock p s' = Some False"
proof -
  let ?t = "s\<lparr>self := t\<rparr>"
  have test: "malloc_test s" "malloc_test ?t" using heap_okD(2) [OF ok] by (simp_all add: malloc_test_def)
  have okt: "heap_ok ?t []" using heap_ok_self [OF ok] .
  obtain over s0 where s0: "malloc_first E ?t = Some (over, s0)" "over \<Longrightarrow> p = 0"
      "\<not> over \<Longrightarrow> malloc_rest E sz s0 = Some (p, s1)"
    using run test(2) by (auto simp: vgc_malloc_steps bind_eq_Some_conv split: if_splits)
  have "\<not> over" using s0(2) p by blast
  have "self s0 = t"
  proof -
    have "cfg ?t" "chain ?t 0 [] 0" using heap_okD [OF okt] by simp_all
    from mmapBlockAllocate_ok [OF E mm this] show ?thesis
      using s0(1) \<open>\<not> over\<close> cfgD(2) [OF \<open>cfg ?t\<close>]
      by (auto simp: malloc_first_def upd_shared_def chunk_added_def fresh_frame_def last_chunk_def)
  qed
  then have same: "s0\<lparr>self := t\<rparr> = s0" by simp
  obtain s2 ds where "heap_ok s2 ds" "ds \<noteq> []" "owns ds []" "vgc_malloc E sz s2 = Some (p, s1)"
    using client_chunk [OF E mm okt _ run] p by (auto simp: owns_Nil)
  then obtain cs where cs: "heap_ok s1 cs" "owns cs [(p, sz)]" using malloc_owns [OF E mm _ _ _ _ p off] by blast
  have "heap_ok (s1\<lparr>self := u\<rparr>) cs" using heap_ok_self [OF cs(1)] .
  from late_first [OF E mm this cs(2) refl] a obtain s' where s': "malloc_first E (s1\<lparr>self := u\<rparr>) = Some (False, s')"
      "isInMmapBlock p s' = Some False"
    by auto
  let ?p1 = "pcs(t := Maps sz)" and ?p2 = "pcs(t := Maps sz, u := Maps n)" and ?p3 = "pcs(t := Goes_on sz, u := Maps n)"
    and ?p4 = "pcs(u := Maps n)"
  have "race E (pcs, [], s) (?p1, [], s)" using race.looks [of pcs t E "[]" s sz] test(1) pcs(1) by simp
  moreover have "race E (?p1, [], s) (?p2, [], s)" using race.looks [of ?p1 u E "[]" s n] test(1) pcs by simp
  moreover have "race E (?p2, [], s) (?p3, [], s0)"
    using race.made [of ?p2 t sz E s over s0 "[]"] s0(1) \<open>\<not> over\<close> pcs(3) by (simp add: fun_upd_twist)
  moreover have "?p3(t := Rests) = ?p4" using pcs(1,3) by (auto simp: fun_eq_iff)
  then have "race E (?p3, [], s0) (?p4, [(p, sz)], s1)"
    using race.given [of ?p3 t sz E s0 p s1 "[]"] s0(3) \<open>\<not> over\<close> same pcs(3) p off by simp
  moreover have "race E (?p4, [(p, sz)], s1) (pcs(u := Goes_on n), [(p, sz)], s')"
    using race.made [of ?p4 u n E s1 False s' "[(p, sz)]"] s'(1) by simp
  ultimately have "(race E)\<^sup>*\<^sup>* (pcs, [], s) (pcs(u := Goes_on n), [(p, sz)], s')"
    by (meson converse_rtranclp_into_rtranclp r_into_rtranclp)
  then show ?thesis using s'(2) by blast
qed

section \<open>A chunk that goes between the test and the lock\<close>

text \<open>
  \<^verbatim>\<open>vgc_malloc\<close> reads \<^verbatim>\<open>mmapBlockFirst->maxSize\<close> before it takes the lock. When another thread frees the last
  block in use after the test, the pointer is null by then. No header is at address 0.
\<close>

lemma free_during_malloc:
  assumes E: "reliable E" and ok: "heap_ok s [c]" and bs: "c_blks c = xs @ b # ys"
    and busy: "\<not> is_free b" and x: "x \<in> set ps" "points_to (fst x) b" and single: "tl (release xs b ys) = []"
    and null: "mmapH (hp s) 0 = None"
    and pcs: "pcs t = Rests" "pcs u = Rests" "t \<noteq> u" and sz: "sz \<noteq> 0"
  shows "\<exists>s'. (race E)\<^sup>*\<^sup>* (pcs, ps, s) (pcs(t := Goes_on sz), remove1 x ps, s') \<and>
     malloc_rest E sz (s'\<lparr>self := t\<rparr>) = None"
proof -
  have nz: "c_addr c \<noteq> 0" using chain_shape [OF heap_okD(4) [OF ok]] by (simp add: chunk_shape_def)
  then have test: "\<not> malloc_test s" using heap_okD(2) [OF ok] by (simp add: malloc_test_def)
  have "heap_ok (s\<lparr>self := u\<rparr>) ([] @ c # [])" using heap_ok_self [OF ok] by simp
  from vgc_free_gone [OF E this bs busy x(2) single] obtain s' where s': "vgc_free E (fst x) (s\<lparr>self := u\<rparr>) = Some s'"
      "wf_at s' 0 []" "headers_kept [c] (s\<lparr>self := u\<rparr>) s'"
    by auto
  have "mmapH (hp s') 0 = None" using s'(3) null nz by (simp add: headers_kept_def in_range_def unat_eq_0)
  then have rest: "malloc_rest E sz (s'\<lparr>self := t\<rparr>) = None"
    using s'(2) sz by (simp add: malloc_rest_def wf_at_def get_mm_def Let_def)
  let ?p1 = "pcs(t := Goes_on sz)"
  have "race E (pcs, ps, s) (?p1, ps, s)" using race.looks [of pcs t E ps s sz] pcs(1) test by simp
  moreover have "race E (?p1, ps, s) (?p1, remove1 x ps, s')"
    using race.freed [of ?p1 u x ps E s s'] s'(1) x(1) pcs(2,3) by simp
  ultimately have "(race E)\<^sup>*\<^sup>* (pcs, ps, s) (?p1, remove1 x ps, s')"
    by (meson converse_rtranclp_into_rtranclp r_into_rtranclp)
  then show ?thesis using rest by blast
qed

end
