(* ===== verification/Fences.thy ===== *)
theory Fences
  imports Session Edges Stacktrace
begin

text \<open>
  How long an overrun is found: the guard page behind a block, from the call of \<^verbatim>\<open>vgc_malloc\<close> that
  sets it to the call of \<^verbatim>\<open>vgc_free\<close> that opens it, and what the signal handler does with the
  access that faults.
\<close>

section \<open>A heap has one abstract state\<close>

lemma seg_unique:
  assumes "seg h m p bs 0" and "seg h m q cs 0" and "first_addr bs 0 = first_addr cs 0"
    and "layout a bs e" and "layout b cs d" and "0 < a" and "0 < b"
  shows "bs = cs"
  using assms
proof (induction bs arbitrary: p q a b cs)
  case Nil
  then show ?case by (cases cs) (auto dest!: first_addr_eq_0 [of b _ d])
next
  case (Cons x xs)
  then have "first_addr cs 0 \<noteq> 0" using layout_nonzero [OF Cons.prems(4,6), of x] by simp
  then obtain y ys where cs: "cs = y # ys" by (cases cs) auto
  have "b_addr x = b_addr y" using Cons.prems(3) cs by simp
  moreover from this have "b_size x = b_size y" "b_status x = b_status y" "first_addr xs 0 = first_addr ys 0"
    using Cons.prems(1,2) cs by (auto elim!: holdsE)
  ultimately have "x = y" by simp
  moreover have "xs = ys"
    using Cons.IH [of "b_addr x" "b_addr y" ys] Cons.prems cs \<open>first_addr xs 0 = first_addr ys 0\<close> by auto
  ultimately show ?case using cs by simp
qed

lemma chain_unique:
  assumes "chain s p cs 0" and "chain s q ds 0" and "first_chunk cs 0 = first_chunk ds 0"
  shows "cs = ds"
  using assms
proof (induction cs arbitrary: p q ds)
  case Nil
  then show ?case by (cases ds) (auto simp: chunk_ok_def chunk_mem_def chunk_shape_def)
next
  case (Cons c cs)
  have c: "chunk_mem (hp s) p (first_chunk cs 0) c" using Cons.prems(1) by (simp add: chunk_ok_def)
  note mc = chunk_memD [OF c] and sc = chunk_shapeD [OF chunk_memD(1) [OF c]]
  obtain d es where ds: "ds = d # es" using Cons.prems(3) sc(1) by (cases ds) auto
  have d: "chunk_mem (hp s) q (first_chunk es 0) d" using Cons.prems(2) ds by (simp add: chunk_ok_def)
  note md = chunk_memD [OF d] and sd = chunk_shapeD [OF chunk_memD(1) [OF d]]
  have a: "c_addr c = c_addr d" using Cons.prems(3) ds by simp
  then have h: "c_size c = c_size d" "first_chunk cs 0 = first_chunk es 0"
    using mc(2) md(2) by (simp_all add: chunk_hdr_def)
  obtain x xs y ys where b: "c_blks c = x # xs" "c_blks d = y # ys"
    using sc(5) sd(5) by (meson neq_Nil_conv)
  have "b_addr x = b_addr y" using sc(6) sd(6) a b by (simp add: word_eq_unat)
  then have "first_addr (c_blks c) 0 = first_addr (c_blks d) 0" using b by simp
  then have "c_blks c = c_blks d"
    using seg_unique [OF mc(3) md(3) [folded a] _ sc(6) sd(6)] by simp
  then have "c = d" using a h(1) by simp
  moreover have "cs = es" using Cons.IH [OF _ _ h(2)] Cons.prems(1,2) ds by auto
  ultimately show ?case using ds by simp
qed

lemma heap_ok_unique: "heap_ok s cs \<Longrightarrow> heap_ok s ds \<Longrightarrow> cs = ds"
  using chain_unique heap_okD(2,4) by metis

section \<open>The guard page behind a pointer\<close>

text \<open>
  \<open>fenced cs s x\<close>: the block of \<open>x\<close> was split for it, so that the bytes end where the next header
  starts, and the first page of that header, the guard page, is closed.
\<close>

definition ends_at :: "addr \<times> size_t \<Rightarrow> nat" where
  "ends_at x = unat (fst x) + unat (snd x)"

definition split_for :: "chunk list \<Rightarrow> addr \<times> size_t \<Rightarrow> chunk \<Rightarrow> blk \<Rightarrow> bool" where
  "split_for cs x c b \<longleftrightarrow> c \<in> set cs \<and> b \<in> set (c_blks c) \<and> \<not> is_free b \<and> serves x b \<and>
     ends_at x = unat (b_addr b) + 8192 + unat (b_size b) \<and> ends_at x + 4096 \<le> unat (c_addr c) + unat (c_size c)"

definition shut :: "state \<Rightarrow> addr \<times> size_t \<Rightarrow> bool" where
  "shut s x \<longleftrightarrow> (\<forall>y. in_range (fst x + snd x) 4096 y \<longrightarrow> prot (hp s) y)"

definition fenced :: "chunk list \<Rightarrow> state \<Rightarrow> addr \<times> size_t \<Rightarrow> bool" where
  "fenced cs s x \<longleftrightarrow> (\<exists>c b. split_for cs x c b) \<and> shut s x"

lemma split_for_ends:
  assumes "split_for cs x c b" and "chunk_shape c"
  shows "unat (fst x + snd x) = ends_at x" "b \<in> set (live cs)"
    "in_range (fst x + snd x) 4096 y \<Longrightarrow> in_range (c_addr c) (c_size c) y"
proof -
  note sh = chunk_shapeD [OF assms(2)]
  have b: "c \<in> set cs" "b \<in> set (c_blks c)" "ends_at x + 4096 \<le> unat (c_addr c) + unat (c_size c)"
    "ends_at x = unat (b_addr b) + 8192 + unat (b_size b)"
    using assms(1) by (simp_all add: split_for_def)
  show e: "unat (fst x + snd x) = ends_at x"
    using b(3) sh(3) by (simp add: ends_at_def unat_add_ok)
  show "b \<in> set (live cs)" using assms(1) by (auto simp: split_for_def live_iff)
  show "in_range (fst x + snd x) 4096 y \<Longrightarrow> in_range (c_addr c) (c_size c) y"
    using b(3,4) in_chunk(1) [OF assms(2) b(2)] e by (simp add: in_range_def)
qed

text \<open>An access to the page faults, at any of its bytes.\<close>

lemma shut_faults:
  assumes "shut s x" and "ends_at x + 4096 \<le> 2 ^ 47" and "i < 4096"
  shows "memset (fst x + snd x + of_nat i) v 1 s = None"
proof -
  have "unat (fst x + snd x) = ends_at x" using assms(2) by (simp add: ends_at_def unat_add_ok)
  moreover from this have "unat (fst x + snd x + of_nat i) = ends_at x + i"
    using assms(2,3) by (simp add: unat_add_ok unat_of_nat_ok)
  ultimately have "prot (hp s) (fst x + snd x + of_nat i)"
    using assms(1,3) by (simp add: shut_def in_range_def)
  then show ?thesis by (simp add: memset_def access_ok_def)
qed

section \<open>What keeps it shut\<close>

lemma shut_kept:
  assumes "split_for cs x c b" and "chunk_shape c" and "shut s x" and "guards_kept ds s s'" and "c \<in> set ds"
  shows "shut s' x"
  using assms split_for_ends(3) [OF assms(1,2)] by (auto simp: shut_def guards_kept_def)

text \<open>A call of \<^verbatim>\<open>vgc_malloc\<close> leaves the blocks in use where they are.\<close>

lemma alloc_chunks_in_use:
  assumes "alloc_chunks len cs = Some (a, cs')" and "split_for cs x c b"
  shows "\<exists>d. split_for cs' x d b"
  using assms(1)
proof (rule alloc_chunks_SomeE)
  fix us e vs xs f ys
  assume e: "cs = us @ e # vs" "c_blks e = xs @ f # ys" "fits len f"
    "cs' = us @ with_blks e (xs @ carve (page_round 4096 len) f @ ys) # vs"
  let ?e = "with_blks e (xs @ carve (page_round 4096 len) f @ ys)"
  show ?thesis
  proof (cases "c = e")
    case True
    have "b \<noteq> f" using assms(2) fits_free [OF e(3)] by (auto simp: split_for_def)
    then have "split_for cs' x ?e b" using assms(2) True e by (auto simp: split_for_def)
    then show ?thesis ..
  next
    case False
    then have "split_for cs' x c b" using assms(2) e by (auto simp: split_for_def)
    then show ?thesis ..
  qed
qed

lemma split_for_append: "split_for cs x c b \<Longrightarrow> set cs \<subseteq> set ds \<Longrightarrow> split_for ds x c b"
  by (auto simp: split_for_def)

lemma malloc_spec_in_use:
  assumes "split_for cs x c b"
  shows "\<exists>d. split_for (snd (malloc_spec sz new cs)) x d b"
proof (cases "alloc_chunks sz cs")
  case (Some r)
  then show ?thesis
    using assms alloc_chunks_in_use [OF _ assms] by (cases r) (auto simp: malloc_spec_def)
next
  case None
  have "split_for (cs @ ds) x c b" for ds using split_for_append [OF assms] by simp
  then show ?thesis using assms None by (auto simp: malloc_spec_def split: option.splits)
qed

lemma malloc_keeps_fence:
  assumes E: "reliable E" and mm: "mmap_ok E" and ok: "heap_ok s cs" and run: "vgc_malloc E sz s = Some (p, s')"
    and ok': "heap_ok s' cs'" and fence: "fenced cs s x"
  shows "fenced cs' s' x"
proof -
  obtain c b where b: "split_for cs x c b" and shut: "shut s x" using fence by (auto simp: fenced_def)
  then have c: "c \<in> set cs" by (simp add: split_for_def)
  then have "cs \<noteq> []" by auto
  from vgc_malloc_all [OF E mm ok this, of sz] obtain new where
    "heap_ok s' (snd (malloc_spec sz new cs))" "guards_kept cs s s'" using run by auto
  moreover from this(1) have "cs' = snd (malloc_spec sz new cs)" by (rule heap_ok_unique [OF ok'])
  ultimately show ?thesis
    using malloc_spec_in_use [OF b] shut_kept [OF b chain_shape [OF heap_okD(4) [OF ok] c] shut _ c]
    unfolding fenced_def by blast
qed

text \<open>\<^verbatim>\<open>vgc_free\<close> opens it when it releases the block whose header the page is in.\<close>

lemma page_steps: "4096 dvd (a :: nat) \<Longrightarrow> 4096 dvd b \<Longrightarrow> a < b \<Longrightarrow> a + 4096 \<le> b"
  by (auto simp: dvd_def)

lemma fence_not_opened:
  assumes "chunk_shape c" and bs: "c_blks c = xs @ f # ys" and b: "split_for cs x c b" and "b \<noteq> f"
    and "unat (b_addr f) \<noteq> ends_at x" and y: "in_range (fst x + snd x) 4096 y"
  shows "\<not> in_range (b_addr f) 4096 y \<and> (ys \<noteq> [] \<longrightarrow> \<not> in_range (b_addr (hd ys)) 4096 y)"
proof -
  note sh = chunk_shapeD [OF assms(1)] and lay = chunk_shapeD(6) [OF assms(1), unfolded bs]
  have f: "f \<in> set (c_blks c)" using bs by simp
  have e: "ends_at x = unat (b_addr b) + 8192 + unat (b_size b)" "b \<in> set (c_blks c)"
    using b by (simp_all add: split_for_def)
  have pg: "4096 dvd ends_at x" "4096 dvd unat (b_addr f)"
    using in_chunk(4,5) [OF assms(1) e(2)] in_chunk(4) [OF assms(1) f] by (simp_all add: e(1))
  have y: "ends_at x \<le> unat y" "unat y < ends_at x + 4096"
    using y split_for_ends(1) [OF b assms(1)] by (simp_all add: in_range_def)
  consider "b \<in> set xs" | "b \<in> set ys" using e(2) bs \<open>b \<noteq> f\<close> by auto
  then show ?thesis
  proof cases
    case 1
    have "ends_at x < unat (b_addr f)" using layout_before [OF lay 1] e(1) assms(5) by simp
    then have "unat y < unat (b_addr f)" using page_steps [OF pg] y(2) by simp
    then show ?thesis using layout_after [OF lay, of "hd ys"] by (auto simp: in_range_def)
  next
    case 2
    then obtain g gs where ys: "ys = g # gs" by (cases ys) auto
    have lay': "layout (unat (c_addr c) + 4096) ((xs @ [f]) @ g # gs) (unat (c_addr c) + unat (c_size c))"
      using lay ys by simp
    have "unat (b_addr g) \<le> unat (b_addr b)"
      using 2 ys layout_after [OF lay', of b] by (cases "b = g") auto
    moreover have "unat (b_addr f) \<le> unat (b_addr g)" using layout_after [OF lay, of g] ys by simp
    ultimately show ?thesis using y(1) e(1) ys by (simp add: in_range_def)
  qed
qed

lemma wf_at_unique:
  assumes "heap_ok s cs" and "wf_at s (if us = [] then 0 else first_chunk (us @ vs) 0) (us @ vs)"
  shows "cs = us @ vs"
proof (cases "us = []")
  case True
  then have "first_chunk cs 0 = 0" using assms heap_okD(2) by (simp add: wf_at_def)
  then have "cs = []"
    using chain_shape [OF heap_okD(4) [OF assms(1)]] by (cases cs) (auto simp: chunk_shape_def)
  moreover from this have "int (length (us @ vs)) = int 0"
    using heap_okD(3) [OF assms(1)] assms(2) by (simp add: wf_at_def)
  then have "us @ vs = []" unfolding of_nat_eq_iff by simp
  ultimately show ?thesis by simp
next
  case False
  then have "heap_ok s (us @ vs)" using assms(2) wf_at_wf [of s "us @ vs"] by simp
  then show ?thesis by (rule heap_ok_unique [OF assms(1)])
qed

lemma free_keeps_fence:
  assumes E: "reliable E" and ok: "heap_ok s cs" and own: "owns cs ps" and x: "x \<in> set ps" and y: "y \<in> set ps"
    and "x \<noteq> y" and behind: "hdr y \<noteq> fst x + snd x" and run: "vgc_free E (fst y) s = Some s'"
    and ok': "heap_ok s' cs'" and fence: "fenced cs s x"
  shows "fenced cs' s' x"
proof -
  obtain d b where b: "split_for cs x d b" and shut: "shut s x" using fence by (auto simp: fenced_def)
  have d: "d \<in> set cs" "b \<in> set (c_blks d)" "\<not> is_free b" "serves x b" using b by (simp_all add: split_for_def)
  note sh = chain_shape [OF heap_okD(4) [OF ok]]
  obtain f where f: "f \<in> set (live cs)" "serves y f" using own y by (auto simp: owns_def)
  then obtain c where c: "c \<in> set cs" "f \<in> set (c_blks c)" "\<not> is_free f" by (auto simp: live_iff)
  obtain us vs where cs: "cs = us @ c # vs" using c(1) by (auto simp: in_set_conv_decomp)
  obtain xs ys where bs: "c_blks c = xs @ f # ys" using c(2) by (auto simp: in_set_conv_decomp)
  note ok1 = ok [unfolded cs] and pt = serves_block(2) [OF ok f]
  have "hdr x \<noteq> hdr y" using own x y \<open>x \<noteq> y\<close> by (auto simp: owns_def distinct_map inj_on_def)
  then have ne: "b \<noteq> f" using serves_hdr d(4) f(2) by metis
  have far: "unat (b_addr f) \<noteq> ends_at x"
    using behind split_for_ends(1) [OF b sh [OF d(1)]] serves_hdr [OF f(2)] by (auto simp: word_eq_unat)
  show ?thesis
  proof (cases "tl (release xs f ys) = []")
    case False
    let ?c = "with_blks c (release xs f ys)"
    obtain t where t: "vgc_free E (fst y) s = Some t" "heap_ok t (us @ ?c # vs)" "opened f ys (hp s) (hp t)"
      using vgc_free_keep [OF E ok1 bs c(3) pt False] by blast
    then have "s' = t" "cs' = us @ ?c # vs" using run heap_ok_unique [OF ok'] by auto
    moreover have "\<exists>e. split_for (us @ ?c # vs) x e b"
    proof (cases "d = c")
      case True
      have "b \<in> set (in_use xs @ in_use ys)" using d(2,3) bs ne True by (auto simp: in_use_def)
      then have "b \<in> set (in_use (release xs f ys))" by (simp only: in_use_release)
      then have "split_for (us @ ?c # vs) x ?c b" using b True by (simp add: split_for_def in_use_def)
      then show ?thesis ..
    next
      case False
      then have "split_for (us @ ?c # vs) x d b" using b cs by (auto simp: split_for_def)
      then show ?thesis ..
    qed
    moreover have "shut t x"
      unfolding shut_def
    proof (intro allI impI)
      fix z assume z: "in_range (fst x + snd x) 4096 z"
      have "\<not> in_range (b_addr f) 4096 z \<and> (ys \<noteq> [] \<longrightarrow> \<not> in_range (b_addr (hd ys)) 4096 z)"
      proof (cases "d = c")
        case True
        then show ?thesis using fence_not_opened [OF sh [OF c(1)] bs _ ne far z] b by blast
      next
        case False
        then have "apart c d" using apart_others [of us c vs d] heap_okD(5) [OF ok] cs d(1) by auto
        then have out: "\<not> in_range (c_addr c) (c_size c) z"
          using apart_in_range split_for_ends(3) [OF b sh [OF d(1)] z] by blast
        have "\<not> in_range (b_addr e) 4096 z" if "e \<in> set (c_blks c)" for e
          using out in_chunk(1,2) [OF sh [OF c(1)] that] by (auto simp: in_range_def)
        then show ?thesis using bs by (cases ys) simp_all
      qed
      then show "prot (hp t) z" using t(3) shut z by (simp add: opened_def shut_def)
    qed
    ultimately show ?thesis by (auto simp: fenced_def)
  next
    case True
    obtain t where t: "vgc_free E (fst y) s = Some t"
      "wf_at t (if us = [] then 0 else first_chunk (us @ vs) 0) (us @ vs)" "guards_kept (us @ vs) s t"
      using vgc_free_gone [OF E ok1 bs c(3) pt True] by blast
    then have t': "s' = t" "cs' = us @ vs" using run wf_at_unique ok' by auto
    have "in_use xs @ in_use ys = []" using in_use_release [of xs f ys] release_single [OF True] by simp
    then have "d \<noteq> c" using d(2,3) bs ne by (auto simp: in_use_def filter_empty_conv)
    then have kept: "d \<in> set (us @ vs)" using d(1) cs by auto
    then have "split_for (us @ vs) x d b" using b by (simp add: split_for_def)
    then show ?thesis using t' shut_kept [OF b sh [OF d(1)] shut t(3) kept] by (auto simp: fenced_def)
  qed
qed

section \<open>Runs that do not open it\<close>

text \<open>
  A step of a client that keeps the pointer \<open>x\<close>, and does not release the block behind it.
\<close>

definition spares :: "env \<Rightarrow> addr \<times> size_t \<Rightarrow> state \<times> (addr \<times> size_t) list \<Rightarrow> state \<times> (addr \<times> size_t) list \<Rightarrow> bool" where
  "spares E x y z \<longleftrightarrow> lib_step E y z \<and> x \<in> set (snd z) \<and>
     fst x + snd x \<notin> hdr ` (set (snd y) - set (snd z))"

lemma shut_hp: "hp t = hp s \<Longrightarrow> fenced cs s x \<Longrightarrow> fenced cs t x"
  by (simp add: fenced_def shut_def)

lemma spares_fence:
  assumes E: "reliable E" and mm: "mmap_ok E" and step: "spares E x (s, ps) (s', ps')"
    and ok: "heap_ok s cs" and own: "owns cs ps" and x: "x \<in> set ps" and fence: "fenced cs s x"
  shows "\<exists>cs'. heap_ok s' cs' \<and> owns cs' ps' \<and> fenced cs' s' x"
proof -
  have lib: "lib_step E (s, ps) (s', ps')" and x': "x \<in> set ps'"
    and behind: "fst x + snd x \<notin> hdr ` (set ps - set ps')"
    using step by (simp_all add: spares_def)
  obtain cs' where cs': "heap_ok s' cs'" "owns cs' ps'" using lib_step_invariant [OF E mm lib ok own] by blast
  have "fenced cs' s' x"
    using lib
  proof (cases rule: lib_step.cases)
    case (given sz p)
    then show ?thesis using malloc_keeps_fence [OF E mm ok _ cs'(1) fence] by blast
  next
    case (refused sz)
    then show ?thesis using malloc_keeps_fence [OF E mm ok _ cs'(1) fence] by blast
  next
    case (freed y)
    have "distinct ps" using own by (auto simp: owns_def distinct_map)
    then have "y \<notin> set ps'" using freed(1) by simp
    then have "hdr y \<noteq> fst x + snd x" "x \<noteq> y" using behind freed(2) x' by (metis DiffI imageI, blast)
    then show ?thesis using free_keeps_fence [OF E ok own x freed(2) _ _ freed(3) cs'(1) fence] by blast
  next
    case (checked a)
    obtain t where "vgc_mallocCheckMMAP E a s = Some t" "heap_ok t cs" "hp t = hp s"
      using vgc_mallocCheckMMAP_ok [OF E ok checked(2)] by blast
    then show ?thesis using checked(3) shut_hp [of t s cs x] fence heap_ok_unique [OF cs'(1)] by auto
  next
    case (switched t)
    then show ?thesis
      using shut_hp [of s' s cs x] fence heap_ok_unique [OF cs'(1)] heap_ok_self [OF ok] by auto
  qed
  with cs' show ?thesis by blast
qed

lemma spares_fences:
  assumes E: "reliable E" and mm: "mmap_ok E" and "(spares E x)\<^sup>*\<^sup>* (s, ps) (t, qs)"
    and "heap_ok s cs" and "owns cs ps" and "x \<in> set ps" and "fenced cs s x"
  shows "\<exists>ds. heap_ok t ds \<and> owns ds qs \<and> fenced ds t x \<and> x \<in> set qs"
  using assms(3-7)
proof (induction "(t, qs)" arbitrary: t qs)
  case (step y)
  obtain u rs where y: "y = (u, rs)" by (cases y)
  then obtain ds where ds: "heap_ok u ds" "owns ds rs" "fenced ds u x" "x \<in> set rs" using step by blast
  have "x \<in> set qs" using step.hyps(2) by (simp add: spares_def)
  then show ?case using spares_fence [OF E mm step.hyps(2) [unfolded y] ds(1,2,4,3)] by blast
qed blast

section \<open>From the call that sets it to the access that faults\<close>

lemma handed_fenced:
  assumes E: "reliable E" and mm: "mmap_ok E" and ok: "heap_ok s cs" and ne: "cs \<noteq> []"
    and run: "vgc_malloc E sz s = Some (p, s')" and p: "p \<noteq> 0" and off: "unat sz mod 4096 \<noteq> 0"
    and ok': "heap_ok s' cs'"
  shows "\<exists>h ys. handed cs' (p, sz) h ys \<and>
    (if ys \<noteq> [] \<and> is_free (hd ys) then p + sz = b_addr (hd ys) \<and> fenced cs' s' (p, sz)
     else b_size h \<le> page_round 4096 sz + sizeof_mallocHeader)"
proof -
  let ?L = "page_round 4096 sz"
  obtain ds h ys where "heap_ok s' ds" "handed ds (p, sz) h ys" and split: "if ys \<noteq> [] \<and> is_free (hd ys)
     then b_size h = ?L \<and> b_addr (hd ys) = b_addr h + (?L + sizeof_mallocHeader) \<and>
       (\<forall>x. in_range (b_addr (hd ys)) 4096 x \<longrightarrow> prot (hp s') x)
     else b_size h \<le> ?L + sizeof_mallocHeader"
    using vgc_malloc_handed_in [OF E mm ok ne run p] by metis
  then have h: "handed cs' (p, sz) h ys" using heap_ok_unique [OF ok'] by blast
  then obtain c xs where c: "c \<in> set cs'" "c_blks c = xs @ h # ys" by (auto simp: handed_def)
  note sh = chain_shape [OF heap_okD(4) [OF ok'] c(1)]
  have b: "h \<in> set (c_blks c)" and hp: "p = user_memory sz (b_addr h)" "unat sz \<le> unat (b_size h)" "\<not> is_free h"
    using h c(2) by (simp_all add: handed_def)
  note ua = user_area_in_sized [OF sh b hp(2) off]
  have "p + sz = b_addr (hd ys) \<and> fenced cs' s' (p, sz)" if behind: "ys \<noteq> []" "is_free (hd ys)"
  proof -
    obtain d ds where ys: "ys = d # ds" using behind(1) by (cases ys) auto
    then have d: "d \<in> set (c_blks c)" using c(2) by simp
    have L: "b_size h = ?L" "\<forall>x. in_range (b_addr d) 4096 x \<longrightarrow> prot (hp s') x" using split behind ys by auto
    have top: "unat (b_addr d) + 8192 + unat (b_size d) \<le> unat (c_addr c) + unat (c_size c)"
      "unat (c_addr c) + unat (c_size c) \<le> 140737488355328"
      using in_chunk(2) [OF sh d] chunk_shapeD(3) [OF sh] by simp_all
    have e: "unat p + unat sz = unat (b_addr h) + 8192 + unat (b_size h)" using ua(2) hp(1) L(1) by simp
    moreover have "unat (b_addr d) = unat (b_addr h) + 8192 + unat (b_size h)"
      using chunk_shapeD(6) [OF sh] c(2) ys by simp
    ultimately have "p + sz = b_addr d" using top by (simp add: word_eq_unat unat_add_ok)
    moreover have "split_for cs' (p, sz) c h"
      using c(1) b hp e top off \<open>unat (b_addr d) = _\<close> by (simp add: split_for_def serves_def ends_at_def)
    ultimately show ?thesis using L(2) ys by (auto simp: fenced_def shut_def)
  qed
  then show ?thesis using h split by (intro exI [of _ h] exI [of _ ys]) (auto split: if_splits)
qed

text \<open>What the handler does with a fault, in a program that is linked with symbols.\<close>

lemma handler_reports:
  assumes E: "reliable E" and sym: "env_symbols E (take VGC_MALLOC_STACKTRACE_SIZE (env_backtrace E (ticks s))) \<noteq> None"
    and code: "code \<in> set access_codes"
  shows "\<exists>u. vgc_stacktrace E SIGSEGV code a rip s = Some (Resume_at continueAfterCrash u) \<and> hp u = hp s \<and>
     set (msgs (report ERROR_LEVEL (CrashRep SIGSEGV a rip) s)) \<subseteq> set (msgs u)"
proof -
  obtain ms where ms: "env_symbols E (take VGC_MALLOC_STACKTRACE_SIZE (env_backtrace E (ticks s))) = Some ms"
    using sym by blast
  have "traceable (env_symbols E) (env_link E) (env_addr2line E)" using E by (simp add: reliable_def)
  from trace_some [OF this ms]
  obtain ls where ls: "stacktrace (env_addr2line E) (getProcessPath (env_link E)) (frames ms) = Some ls" by blast
  let ?s = "report ERROR_LEVEL (CrashRep SIGSEGV a rip) (s\<lparr>ticks := Suc (ticks s)\<rparr>)"
  let ?u = "fold (report INFO_LEVEL) (map TraceLine ls) ?s"
  obtain out where "?u = ?s\<lparr>msgs := out\<rparr>" using fold_report_msgs [of INFO_LEVEL "map TraceLine ls" ?s] by blast
  then have "hp ?u = hp s" by simp
  moreover have "msgs (report ERROR_LEVEL (CrashRep SIGSEGV a rip) s) = msgs ?s" by (simp add: report_def)
  then have "set (msgs (report ERROR_LEVEL (CrashRep SIGSEGV a rip) s)) \<subseteq> set (msgs ?u)"
    using fold_report_keeps [of ?s INFO_LEVEL "map TraceLine ls"] by simp
  ultimately show ?thesis using ms ls code by (simp add: vgc_stacktrace_def)
qed

lemma overrun_faults:
  assumes E: "reliable E" and mm: "mmap_ok E" and cl: "client E s ps"
    and run: "vgc_malloc E sz s = Some (p, s1)" and p: "p \<noteq> 0" and off: "unat sz mod 4096 \<noteq> 0"
  shows "\<exists>cs h ys. heap_ok s1 cs \<and> handed cs (p, sz) h ys \<and>
    (if ys \<noteq> [] \<and> is_free (hd ys)
     then p + sz = b_addr (hd ys) \<and>
       (\<forall>t qs i v. (spares E (p, sz))\<^sup>*\<^sup>* (s1, (p, sz) # ps) (t, qs) \<longrightarrow> i < 4096 \<longrightarrow>
          memset (p + sz + of_nat i) v 1 t = None)
     else b_size h \<le> page_round 4096 sz + sizeof_mallocHeader)"
proof -
  obtain cs where cs: "heap_ok s cs" "owns cs ps" using client_invariant [OF E mm cl] by blast
  obtain s0 ds where ds: "heap_ok s0 ds" "ds \<noteq> []" "vgc_malloc E sz s0 = Some (p, s1)"
    using client_chunk [OF E mm cs run] p by blast
  have "client E s1 ((p, sz) # ps)" using client.called [OF cl] lib_step.given run p off by blast
  then obtain cs1 where cs1: "heap_ok s1 cs1" "owns cs1 ((p, sz) # ps)" using client_invariant [OF E mm] by blast
  have "memset (p + sz + of_nat i) v 1 t = None"
    if f: "fenced cs1 s1 (p, sz)" and runs: "(spares E (p, sz))\<^sup>*\<^sup>* (s1, (p, sz) # ps) (t, qs)" and i: "i < 4096" for t qs i v
  proof -
    obtain es where es: "heap_ok t es" "fenced es t (p, sz)"
      using spares_fences [OF E mm runs cs1 _ f] by auto
    then obtain c b where c: "split_for es (p, sz) c b" "shut t (p, sz)" by (auto simp: fenced_def)
    then have "chunk_shape c" using chain_shape [OF heap_okD(4) [OF es(1)]] by (simp add: split_for_def)
    then have "ends_at (p, sz) + 4096 \<le> 2 ^ 47" using c(1) chunk_shapeD(3) [of c] by (simp add: split_for_def)
    from shut_faults [OF c(2) this i] show ?thesis by simp
  qed
  moreover obtain h ys where "handed cs1 (p, sz) h ys"
    "if ys \<noteq> [] \<and> is_free (hd ys) then p + sz = b_addr (hd ys) \<and> fenced cs1 s1 (p, sz)
     else b_size h \<le> page_round 4096 sz + sizeof_mallocHeader"
    using handed_fenced [OF E mm ds(1,2,3) p off cs1(1)] by blast
  ultimately show ?thesis
    using cs1(1) by (intro exI [of _ cs1] exI [of _ h] exI [of _ ys]) (auto split: if_splits)
qed

lemma overrun_reported:
  assumes E: "reliable E" and mm: "mmap_ok E" and cl: "client E s ps"
    and run: "vgc_malloc E sz s = Some (p, s1)" and p: "p \<noteq> 0" and off: "unat sz mod 4096 \<noteq> 0"
    and runs: "(spares E (p, sz))\<^sup>*\<^sup>* (s1, (p, sz) # ps) (t, qs)" and i: "i < 4096"
    and sym: "env_symbols E (take VGC_MALLOC_STACKTRACE_SIZE (env_backtrace E (ticks t))) \<noteq> None"
  shows "\<exists>cs h ys. heap_ok s1 cs \<and> handed cs (p, sz) h ys \<and>
    (if ys \<noteq> [] \<and> is_free (hd ys)
     then p + sz = b_addr (hd ys) \<and> memset (p + sz + of_nat i) v 1 t = None \<and>
       (\<exists>u. vgc_stacktrace E SIGSEGV 2 (p + sz + of_nat i) rip t = Some (Resume_at continueAfterCrash u) \<and>
          hp u = hp t \<and> set (msgs (report ERROR_LEVEL (CrashRep SIGSEGV (p + sz + of_nat i) rip) t)) \<subseteq> set (msgs u))
     else b_size h \<le> page_round 4096 sz + sizeof_mallocHeader)"
proof -
  have "2 \<in> set access_codes" by (simp add: access_codes_def)
  from handler_reports [OF E sym this, of "p + sz + of_nat i" rip] obtain u where
    "vgc_stacktrace E SIGSEGV 2 (p + sz + of_nat i) rip t = Some (Resume_at continueAfterCrash u)" "hp u = hp t"
    "set (msgs (report ERROR_LEVEL (CrashRep SIGSEGV (p + sz + of_nat i) rip) t)) \<subseteq> set (msgs u)" by blast
  moreover obtain cs h ys where "heap_ok s1 cs" "handed cs (p, sz) h ys"
    "if ys \<noteq> [] \<and> is_free (hd ys) then p + sz = b_addr (hd ys) \<and> memset (p + sz + of_nat i) v 1 t = None
     else b_size h \<le> page_round 4096 sz + sizeof_mallocHeader"
    using overrun_faults [OF E mm cl run p off] runs i by (metis (no_types, lifting))
  ultimately show ?thesis
    by (intro exI [of _ cs] exI [of _ h] exI [of _ ys]) (auto split: if_splits)
qed

section \<open>The call that opens it\<close>

text \<open>
  \<^verbatim>\<open>vgc_free\<close> makes the guard page of the released block accessible and leaves it so: it was also the
  guard page behind the block before.
\<close>

lemma neighbour_freed:
  assumes E: "reliable E" and ok: "heap_ok s (us @ c # vs)" and bs: "c_blks c = xs @ a # b # ys"
    and busy: "\<not> is_free a" "\<not> is_free b" and q: "points_to q b" and p: "serves (p, sz) a"
    and size: "b_size a = page_round 4096 sz"
  shows "\<exists>s'. vgc_free E q s = Some s' \<and> heap_ok s' (us @ with_blks c (release (xs @ [a]) b ys) # vs) \<and>
     access_ok (p + sz) 4096 s'"
proof -
  note sh = chain_shape [OF heap_okD(4) [OF ok], of c, simplified]
  have bs': "c_blks c = (xs @ [a]) @ b # ys" and a: "a \<in> set (c_blks c)" and b: "b \<in> set (c_blks c)"
    using bs by simp_all
  have more: "tl (release (xs @ [a]) b ys) \<noteq> []"
    using in_use_release [of "xs @ [a]" b ys] release_single [of "xs @ [a]" b ys] busy(1) by auto
  obtain s' where s': "vgc_free E q s = Some s'" "heap_ok s' (us @ with_blks c (release (xs @ [a]) b ys) # vs)"
    "opened b ys (hp s) (hp s')"
    using vgc_free_keep [OF E ok bs' busy(2) q more] by blast
  have sv: "p = user_memory sz (b_addr a)" "unat sz \<le> unat (b_size a)" "unat sz mod 4096 \<noteq> 0"
    using p by (simp_all add: serves_def)
  have top: "unat (b_addr b) + 8192 \<le> unat (c_addr c) + unat (c_size c)" "unat (c_addr c) \<le> unat (b_addr b)"
    "unat (c_addr c) + unat (c_size c) \<le> 140737488355328"
    using in_chunk(1,2) [OF sh b] chunk_shapeD(3) [OF sh] by simp_all
  have "unat p + unat sz = unat (b_addr a) + 8192 + unat (b_size a)"
    using user_area_in_sized(2) [OF sh a sv(2,3)] sv(1) size by simp
  moreover have "unat (b_addr b) = unat (b_addr a) + 8192 + unat (b_size a)"
    using chunk_shapeD(6) [OF sh] bs by simp
  ultimately have e: "p + sz = b_addr b" using top by (simp add: word_eq_unat unat_add_ok)
  obtain l n where "chunk_ok s' l n (with_blks c (release (xs @ [a]) b ys))"
    using chain_ok_at [OF heap_okD(4) [OF s'(2)], of "with_blks c (release (xs @ [a]) b ys)"] by auto
  then have "(c_addr c, c_size c) \<in> set (maps (hp s'))" by (simp add: chunk_ok_def chunk_mem_def)
  then have "mapped (b_addr b) 4096 s'" using mapped_in_region [of "c_addr c" "c_size c" s' "b_addr b" 4096] top by simp
  moreover have "\<not> prot (hp s') (b_addr b + of_nat i)" if "i < 4096" for i
  proof -
    have "unat (b_addr b + of_nat i) = unat (b_addr b) + i" using that top by (simp add: unat_add_ok unat_of_nat_ok)
    then show ?thesis using s'(3) that by (simp add: opened_def in_range_def)
  qed
  ultimately have "access_ok (p + sz) 4096 s'" by (simp add: access_ok_def e list_all_iff)
  with s' show ?thesis by blast
qed

end
