(* ===== verification/Typed.thy ===== *)
theory Typed
  imports Session
begin

text \<open>
  The links of the heap are typed: whatever the code reaches from the shared record by following the
  links of the headers is a header of the type the code casts it to, and the link back from it leads
  to where it came from.
\<close>

section \<open>What is reached\<close>

inductive mmap_node :: "heap \<Rightarrow> addr \<Rightarrow> bool" for h where
  first: "sh_mmapBlockFirst (shared h) \<noteq> 0 \<Longrightarrow> mmap_node h (sh_mmapBlockFirst (shared h))"
| next_block: "mmap_node h a \<Longrightarrow> mmapH h a = Some m \<Longrightarrow> mm_next m \<noteq> 0 \<Longrightarrow> mmap_node h (mm_next m)"

inductive malloc_node :: "heap \<Rightarrow> addr \<Rightarrow> addr \<Rightarrow> bool" for h a where
  first: "malloc_node h a (firstMallocHeaderInMMAP a)"
| next_block: "malloc_node h a x \<Longrightarrow> mallocH h x = Some b \<Longrightarrow> mb_next b \<noteq> 0 \<Longrightarrow> malloc_node h a (mb_next b)"

section \<open>Types\<close>

definition mmap_link :: "heap \<Rightarrow> addr \<Rightarrow> (VGC_mmapHeader \<Rightarrow> addr) \<Rightarrow> addr \<Rightarrow> bool" where
  "mmap_link h x back a \<longleftrightarrow> x = 0 \<or> (case mmapH h x of None \<Rightarrow> False | Some m \<Rightarrow> back m = a)"

definition mmap_typed :: "heap \<Rightarrow> addr \<Rightarrow> bool" where
  "mmap_typed h a =
     (case mmapH h a of None \<Rightarrow> False
      | Some m \<Rightarrow> mm_checkStart m = 0xAA \<and> mm_checkEnd m = 0xAA \<and>
          mmap_link h (mm_prev m) mm_next a \<and> mmap_link h (mm_next m) mm_prev a)"

definition malloc_link :: "heap \<Rightarrow> addr \<Rightarrow> (VGC_mallocHeader \<Rightarrow> addr) \<Rightarrow> addr \<Rightarrow> bool" where
  "malloc_link h x back a \<longleftrightarrow> x = 0 \<or> (case mallocH h x of None \<Rightarrow> False | Some b \<Rightarrow> back b = a)"

definition malloc_typed :: "heap \<Rightarrow> addr \<Rightarrow> addr \<Rightarrow> bool" where
  "malloc_typed h a x =
     (case mallocH h x of None \<Rightarrow> False
      | Some b \<Rightarrow> mb_checkStart b = 0xAA \<and> mb_checkEnd b = 0xAA \<and> mb_mmapBlock b = a \<and>
          malloc_link h (mb_prev b) mb_next x \<and> malloc_link h (mb_next b) mb_prev x)"

section \<open>Chains are typed\<close>

lemma chunk_ok_hdr: "chunk_ok s p n c \<Longrightarrow> mmapH (hp s) (c_addr c) = Some (chunk_hdr p n c)"
  by (simp add: chunk_ok_def chunk_mem_def)

lemma chain_first_hdr: "chain s p cs n \<Longrightarrow> cs \<noteq> [] \<Longrightarrow>
    \<exists>q. mmapH (hp s) (first_chunk cs n) = Some (chunk_hdr p q (hd cs))"
  by (cases cs) (auto dest: chunk_ok_hdr)

lemma chain_last_hdr: "chain s p cs n \<Longrightarrow> cs \<noteq> [] \<Longrightarrow>
    \<exists>q. mmapH (hp s) (last_chunk p cs) = Some (chunk_hdr q n (last cs))"
  by (cases cs rule: rev_cases) (auto dest: chunk_ok_hdr)

lemma chunk_typed:
  assumes "heap_ok s cs" and "c \<in> set cs"
  shows "mmap_typed (hp s) (c_addr c)"
    "\<exists>m. mmapH (hp s) (c_addr c) = Some m \<and> (mm_next m = 0 \<or> mm_next m \<in> c_addr ` set cs)"
proof -
  obtain us vs where cs: "cs = us @ c # vs" using assms(2) by (auto simp: in_set_conv_decomp)
  have ch: "chain s 0 us (c_addr c)" "chunk_ok s (last_chunk 0 us) (first_chunk vs 0) c" "chain s (c_addr c) vs 0"
    using heap_okD(4) [OF assms(1)] by (simp_all add: cs)
  have h: "mmapH (hp s) (c_addr c) = Some (chunk_hdr (last_chunk 0 us) (first_chunk vs 0) c)"
    using chunk_ok_hdr [OF ch(2)] .
  have "mmap_link (hp s) (last_chunk 0 us) mm_next (c_addr c)"
    using chain_last_hdr [OF ch(1)] by (cases "us = []") (auto simp: mmap_link_def chunk_hdr_def)
  moreover have "mmap_link (hp s) (first_chunk vs 0) mm_prev (c_addr c)"
    using chain_first_hdr [OF ch(3)] by (cases "vs = []") (auto simp: mmap_link_def chunk_hdr_def)
  ultimately show "mmap_typed (hp s) (c_addr c)" using h by (simp add: mmap_typed_def) (simp add: chunk_hdr_def)
  show "\<exists>m. mmapH (hp s) (c_addr c) = Some m \<and> (mm_next m = 0 \<or> mm_next m \<in> c_addr ` set cs)"
    using h by (cases vs) (auto simp: cs chunk_hdr_def)
qed

lemma seg_first: "seg h a p bs n \<Longrightarrow> bs \<noteq> [] \<Longrightarrow> \<exists>b. mallocH h (first_addr bs n) = Some b \<and> mb_prev b = p"
  by (cases bs) (auto elim: holdsE)

lemma seg_last: "seg h a p bs n \<Longrightarrow> bs \<noteq> [] \<Longrightarrow> \<exists>b. mallocH h (last_addr p bs) = Some b \<and> mb_next b = n"
  by (cases bs rule: rev_cases) (auto elim: holdsE)

lemma block_typed:
  assumes "seg h a 0 bs 0" and "b \<in> set bs"
  shows "malloc_typed h a (b_addr b)"
    "\<exists>m. mallocH h (b_addr b) = Some m \<and> (mb_next m = 0 \<or> mb_next m \<in> b_addr ` set bs)"
proof -
  obtain xs ys where bs: "bs = xs @ b # ys" using assms(2) by (auto simp: in_set_conv_decomp)
  have sg: "seg h a 0 xs (b_addr b)" "holds h a (last_addr 0 xs) (first_addr ys 0) b" "seg h a (b_addr b) ys 0"
    using assms(1) by (simp_all add: bs)
  obtain m where m: "mallocH h (b_addr b) = Some m" "mb_checkStart m = 0xAA" "mb_checkEnd m = 0xAA"
      "mb_mmapBlock m = a" "mb_prev m = last_addr 0 xs" "mb_next m = first_addr ys 0"
    using holdsE [OF sg(2)] by metis
  have "malloc_link h (last_addr 0 xs) mb_next (b_addr b)"
    using seg_last [OF sg(1)] by (cases "xs = []") (auto simp: malloc_link_def)
  moreover have "malloc_link h (first_addr ys 0) mb_prev (b_addr b)"
    using seg_first [OF sg(3)] by (cases "ys = []") (auto simp: malloc_link_def)
  ultimately show "malloc_typed h a (b_addr b)" using m by (simp add: malloc_typed_def)
  show "\<exists>m. mallocH h (b_addr b) = Some m \<and> (mb_next m = 0 \<or> mb_next m \<in> b_addr ` set bs)"
    using m by (cases ys) (auto simp: bs)
qed

section \<open>What is reached is typed\<close>

lemma mmap_node_chunk:
  assumes "mmap_node (hp s) a" and ok: "heap_ok s cs"
  shows "\<exists>c \<in> set cs. c_addr c = a"
  using assms(1)
proof (induction rule: mmap_node.induct)
  case first
  then show ?case using heap_okD(2) [OF ok] by (cases cs) auto
next
  case (next_block a m)
  then show ?case using chunk_typed(2) [OF ok] by fastforce
qed

lemma malloc_node_block:
  assumes "malloc_node h a x" and "seg h a 0 bs 0" and "firstMallocHeaderInMMAP a = first_addr bs 0" and "bs \<noteq> []"
  shows "\<exists>b \<in> set bs. b_addr b = x"
  using assms(1)
proof (induction rule: malloc_node.induct)
  case first
  then show ?case using assms(3,4) by (cases bs) auto
next
  case (next_block x m)
  then show ?case using block_typed(2) [OF assms(2)] by fastforce
qed

lemma heap_typed:
  assumes ok: "heap_ok s cs" and "mmap_node (hp s) a"
  shows "mmap_typed (hp s) a" "malloc_node (hp s) a x \<Longrightarrow> malloc_typed (hp s) a x"
proof -
  obtain c where c: "c \<in> set cs" "c_addr c = a" using mmap_node_chunk [OF assms(2) ok] by blast
  then show "mmap_typed (hp s) a" using chunk_typed(1) [OF ok] by blast
  obtain p n where "chunk_ok s p n c" using chain_ok_at [OF heap_okD(4) [OF ok] c(1)] by blast
  then have mem: "chunk_mem (hp s) p n c" by (simp add: chunk_ok_def)
  note m = chunk_memD [OF mem]
  show "malloc_typed (hp s) a x" if "malloc_node (hp s) a x"
    using malloc_node_block [OF that, of "c_blks c"] block_typed(1) [of "hp s" a "c_blks c"] m(3)
      first_header [OF m(1)] chunk_shapeD(5) [OF m(1)] c(2) by auto
qed

end
