(* ===== verification/Pkeys.thy ===== *)
theory Pkeys
  imports Mprotect
begin

text \<open>
  \<^verbatim>\<open>src/vgc_mprotect_pkey.c\<close>: \<^verbatim>\<open>do_mprotect\<close> of the build with memory protection keys, and the
  three system calls it makes. The callers of the file pass three of its four arguments and do not
  compile, so they are not here. The key of a block is the field \<open>pkey\<close> of its header, which
  the code reads and writes through a pointer: it is an argument, and a result.
\<close>

section \<open>Protection keys\<close>

text \<open>
  \<open>pk_used\<close> are the keys that are allocated: at the start key 0, which every page has, and then the
  ones the program asked for. \<open>pk_tag\<close> is the key of a page and \<open>pk_denied\<close> the rights
  register of the thread. \<open>pk_log\<close> are the lines the code prints, with the key and \<open>errno\<close>,
  which a call that succeeds leaves as it was.
\<close>

record pkeys =
  pk_os :: state
  pk_used :: "int list"
  pk_tag :: "addr \<Rightarrow> int"
  pk_denied :: "int \<Rightarrow> bool"
  pk_errno :: errno
  pk_log :: "(int \<times> errno) list"

definition free_keys :: "pkeys \<Rightarrow> int list" where
  "free_keys k = filter (\<lambda>i. i \<notin> set (pk_used k)) [0..15]"

definition set_errno :: "errno \<Rightarrow> pkeys \<Rightarrow> pkeys" where
  "set_errno e k = k\<lparr>pk_errno := e\<rparr>"

text \<open>\<open>pick\<close> is the kernel's choice among the free keys; the rights of the new key are none.\<close>

definition pkey_alloc :: "env \<Rightarrow> (int list \<Rightarrow> int) \<Rightarrow> pkeys \<Rightarrow> int \<times> pkeys" where
  "pkey_alloc E pick k =
     (case sys E (pk_os k) of
        (Some e, s) \<Rightarrow> (-1, set_errno e (k\<lparr>pk_os := s\<rparr>))
      | (None, s) \<Rightarrow>
          if free_keys k = [] then (-1, set_errno ENOSPC (k\<lparr>pk_os := s\<rparr>))
          else (let i = pick (free_keys k)
                in (i, k\<lparr>pk_os := s, pk_used := i # pk_used k, pk_denied := (pk_denied k)(i := True)\<rparr>)))"

text \<open>With the key -1 the call is \<^verbatim>\<open>mprotect\<close>, which leaves the keys of the pages as they are.\<close>

definition pkey_mprotect :: "env \<Rightarrow> addr \<Rightarrow> size_t \<Rightarrow> bool \<Rightarrow> int \<Rightarrow> pkeys \<Rightarrow> bool \<times> pkeys" where
  "pkey_mprotect E a n none key k =
     (if key \<noteq> -1 \<and> key \<notin> set (pk_used k)
      then (False, set_errno EINVAL (k\<lparr>pk_os := snd (sys E (pk_os k))\<rparr>))
      else case mprotect E a n none (pk_os k) of
        (Some e, s) \<Rightarrow> (False, set_errno e (k\<lparr>pk_os := s\<rparr>))
      | (None, s) \<Rightarrow> (True, k\<lparr>pk_os := s,
          pk_tag := (if key = -1 then pk_tag k else (\<lambda>x. if in_range a n x then key else pk_tag k x))\<rparr>))"

text \<open>The pages that have the key keep it, and the rights register keeps the rights for it.\<close>

definition pkey_free :: "env \<Rightarrow> int \<Rightarrow> pkeys \<Rightarrow> bool \<times> pkeys" where
  "pkey_free E key k =
     (case sys E (pk_os k) of
        (Some e, s) \<Rightarrow> (False, set_errno e (k\<lparr>pk_os := s\<rparr>))
      | (None, s) \<Rightarrow>
          if key \<notin> set (pk_used k) then (False, set_errno EINVAL (k\<lparr>pk_os := s\<rparr>))
          else (True, k\<lparr>pk_os := s, pk_used := filter (\<lambda>i. i \<noteq> key) (pk_used k)\<rparr>))"

text \<open>A byte can be read or written when neither the page nor its key forbids it.\<close>

definition accessible :: "pkeys \<Rightarrow> addr \<Rightarrow> bool" where
  "accessible k x \<longleftrightarrow> \<not> prot (hp (pk_os k)) x \<and> \<not> pk_denied k (pk_tag k x)"

section \<open>do_mprotect\<close>

text \<open>\<open>known\<close> are the errors a switch over \<open>errno\<close> names.\<close>

definition pkey_error :: "errno list \<Rightarrow> bool \<Rightarrow> pkeys \<Rightarrow> pkeys" where
  "pkey_error known none k =
     k\<lparr>pk_os := report ERROR_LEVEL (MprotectRep (pk_errno k \<in> set known) none (pk_errno k)) (pk_os k)\<rparr>"

definition do_mprotect_pkey ::
    "env \<Rightarrow> (int list \<Rightarrow> int) \<Rightarrow> addr \<Rightarrow> size_t \<Rightarrow> bool \<Rightarrow> int \<Rightarrow> pkeys \<Rightarrow> bool \<times> int \<times> pkeys" where
  "do_mprotect_pkey E pick a len none pkey k =
     (let (pkey, k) = (if none then (case pkey_alloc E pick k of
                         (i, k) \<Rightarrow> (i, k\<lparr>pk_log := pk_log k @ [(i, pk_errno k)]\<rparr>)) else (pkey, k))
      in if none \<and> pkey = -1 then (False, pkey, pkey_error [EINVAL, ENOSPC] True k)
         else case pkey_mprotect E a len none pkey k of
           (False, k) \<Rightarrow> (False, pkey, pkey_error [EACCES, EINVAL, ENOMEM] none k)
         | (True, k) \<Rightarrow>
             if none then (True, pkey, k)
             else case pkey_free E pkey k of
               (True, k) \<Rightarrow> (True, 0, k)
             | (False, k) \<Rightarrow> (False, pkey, pkey_error [EACCES, EINVAL, ENOMEM] none k))"

section \<open>Lemmas\<close>

text \<open>The kernel gives a key that is free, and there are fifteen.\<close>

definition picks :: "(int list \<Rightarrow> int) \<Rightarrow> bool" where
  "picks pick \<longleftrightarrow> (\<forall>ks. ks \<noteq> [] \<longrightarrow> pick ks \<in> set ks)"

definition keys_ok :: "pkeys \<Rightarrow> bool" where
  "keys_ok k \<longleftrightarrow> distinct (pk_used k) \<and> set (pk_used k) \<subseteq> {0..15} \<and>
     (\<forall>i \<in> set (pk_used k). i \<noteq> 0 \<longrightarrow> pk_denied k i)"

lemma free_keys_iff: "i \<in> set (free_keys k) \<longleftrightarrow> i \<notin> set (pk_used k) \<and> 0 \<le> i \<and> i \<le> 15"
  by (auto simp: free_keys_def)

lemma pkey_error_sel [simp]:
  "pk_used (pkey_error ks v k) = pk_used k" "pk_tag (pkey_error ks v k) = pk_tag k"
  "pk_denied (pkey_error ks v k) = pk_denied k" "pk_errno (pkey_error ks v k) = pk_errno k"
  "pk_log (pkey_error ks v k) = pk_log k" "hp (pk_os (pkey_error ks v k)) = hp (pk_os k)"
  by (simp_all add: pkey_error_def)

lemma set_errno_sel [simp]:
  "pk_used (set_errno e k) = pk_used k" "pk_tag (set_errno e k) = pk_tag k"
  "pk_denied (set_errno e k) = pk_denied k" "pk_errno (set_errno e k) = e"
  "pk_log (set_errno e k) = pk_log k" "pk_os (set_errno e k) = pk_os k"
  by (simp_all add: set_errno_def)

text \<open>What a call does to the keys, whether it succeeds or not.\<close>

lemma pkey_alloc_result:
  assumes "pkey_alloc E pick k = (i, k')" and "picks pick"
  shows "if i = -1 then pk_used k' = pk_used k \<and> pk_denied k' = pk_denied k
     else i \<notin> set (pk_used k) \<and> 0 \<le> i \<and> i \<le> 15 \<and> pk_used k' = i # pk_used k \<and>
       pk_denied k' = (pk_denied k)(i := True)"
    "pk_tag k' = pk_tag k" "hp (pk_os k') = hp (pk_os k)"
proof -
  have "free_keys k \<noteq> [] \<Longrightarrow> pick (free_keys k) \<in> set (free_keys k)"
    using assms(2) by (simp add: picks_def)
  then show "if i = -1 then pk_used k' = pk_used k \<and> pk_denied k' = pk_denied k
     else i \<notin> set (pk_used k) \<and> 0 \<le> i \<and> i \<le> 15 \<and> pk_used k' = i # pk_used k \<and>
       pk_denied k' = (pk_denied k)(i := True)"
    using assms(1) unfolding free_keys_iff
    by (auto simp: pkey_alloc_def sys_def Let_def split: option.splits if_splits)
  show "pk_tag k' = pk_tag k" "hp (pk_os k') = hp (pk_os k)"
    using assms(1) by (auto simp: pkey_alloc_def sys_def Let_def split: option.splits if_splits)
qed

lemma pkey_mprotect_result:
  assumes "pkey_mprotect E a n v key k = (ok, k')"
  shows "pk_used k' = pk_used k" "pk_denied k' = pk_denied k"
    "ok \<Longrightarrow> key \<noteq> -1 \<Longrightarrow> key \<in> set (pk_used k) \<and> pk_tag k' = (\<lambda>x. if in_range a n x then key else pk_tag k x)"
    "ok \<Longrightarrow> prot (hp (pk_os k')) = (\<lambda>x. if in_range a n x then v else prot (hp (pk_os k)) x)"
  using assms by (auto simp: pkey_mprotect_def mprotect_def sys_def split: option.splits if_splits)

lemma pkey_free_result:
  assumes "pkey_free E key k = (ok, k')"
  shows "pk_denied k' = pk_denied k" "pk_tag k' = pk_tag k" "prot (hp (pk_os k')) = prot (hp (pk_os k))"
    "pk_used k' = (if ok then filter (\<lambda>i. i \<noteq> key) (pk_used k) else pk_used k)"
  using assms by (auto simp: pkey_free_def sys_def split: option.splits if_splits)

section \<open>What do_mprotect does to the keys\<close>

lemma protect_result:
  assumes "do_mprotect_pkey E pick a n True p k = (ok, i, k')" and "picks pick"
  shows "if i = -1 then \<not> ok \<and> pk_used k' = pk_used k \<and> pk_denied k' = pk_denied k
     else i \<notin> set (pk_used k) \<and> 0 \<le> i \<and> i \<le> 15 \<and> pk_used k' = i # pk_used k \<and>
       pk_denied k' = (pk_denied k)(i := True)"
    "ok \<Longrightarrow> i \<noteq> -1 \<and> pk_tag k' = (\<lambda>x. if in_range a n x then i else pk_tag k x)"
proof -
  obtain j k1 where j: "pkey_alloc E pick k = (j, k1)" by fastforce
  obtain b k2 where b: "pkey_mprotect E a n True j (k1\<lparr>pk_log := pk_log k1 @ [(j, pk_errno k1)]\<rparr>) = (b, k2)"
    by fastforce
  note r = pkey_alloc_result [OF j assms(2)] and q = pkey_mprotect_result [OF b]
  have [simp]: "i = j" using assms(1) j b by (auto simp: do_mprotect_pkey_def split: if_splits bool.splits)
  show "if i = -1 then \<not> ok \<and> pk_used k' = pk_used k \<and> pk_denied k' = pk_denied k
     else i \<notin> set (pk_used k) \<and> 0 \<le> i \<and> i \<le> 15 \<and> pk_used k' = i # pk_used k \<and>
       pk_denied k' = (pk_denied k)(i := True)"
    using assms(1) j b r(1) q(1,2) by (auto simp: do_mprotect_pkey_def split: if_splits bool.splits)
  show "ok \<Longrightarrow> i \<noteq> -1 \<and> pk_tag k' = (\<lambda>x. if in_range a n x then i else pk_tag k x)"
    using assms(1) j b r(2) q(3) by (auto simp: do_mprotect_pkey_def split: if_splits bool.splits)
qed

lemma unprotect_result:
  assumes "do_mprotect_pkey E pick a n False p k = (ok, i, k')"
  shows "pk_denied k' = pk_denied k" "i = (if ok then 0 else p)"
    "pk_used k' = (if ok then filter (\<lambda>i. i \<noteq> p) (pk_used k) else pk_used k)"
    "ok \<Longrightarrow> p \<in> set (pk_used k)"
    "ok \<Longrightarrow> p \<noteq> -1 \<Longrightarrow> pk_tag k' = (\<lambda>x. if in_range a n x then p else pk_tag k x)"
    "ok \<Longrightarrow> prot (hp (pk_os k')) = (\<lambda>x. if in_range a n x then False else prot (hp (pk_os k)) x)"
proof -
  obtain b k1 where b: "pkey_mprotect E a n False p k = (b, k1)" by fastforce
  obtain c k2 where c: "pkey_free E p k1 = (c, k2)" by fastforce
  note q = pkey_mprotect_result [OF b] and r = pkey_free_result [OF c]
  have run: "(ok, i, k') = (if b then if c then (True, 0, k2) else (False, p, pkey_error [EACCES, EINVAL, ENOMEM] False k2)
      else (False, p, pkey_error [EACCES, EINVAL, ENOMEM] False k1))"
    using assms b c by (simp add: do_mprotect_pkey_def split: bool.splits)
  have "c \<Longrightarrow> p \<in> set (pk_used k1)" using c by (auto simp: pkey_free_def split: prod.splits option.splits if_splits)
  then show "ok \<Longrightarrow> p \<in> set (pk_used k)" using run q(1) by (simp split: if_splits)
  show "pk_denied k' = pk_denied k" "i = (if ok then 0 else p)"
    "pk_used k' = (if ok then filter (\<lambda>i. i \<noteq> p) (pk_used k) else pk_used k)"
    "ok \<Longrightarrow> p \<noteq> -1 \<Longrightarrow> pk_tag k' = (\<lambda>x. if in_range a n x then p else pk_tag k x)"
    "ok \<Longrightarrow> prot (hp (pk_os k')) = (\<lambda>x. if in_range a n x then False else prot (hp (pk_os k)) x)"
    using run q r by (auto split: if_splits)
qed

lemma do_mprotect_keys_ok:
  assumes "keys_ok k" and "picks pick" and "do_mprotect_pkey E pick a n none p k = (ok, i, k')"
  shows "keys_ok k'"
proof (cases none)
  case True
  then show ?thesis
    using protect_result(1) [OF _ assms(2)] assms(1,3) by (fastforce simp: keys_ok_def split: if_splits)
next
  case False
  then show ?thesis
    using unprotect_result [of E pick a n p k ok i k'] assms(1,3) by (auto simp: keys_ok_def)
qed

text \<open>
  The page that is given back still has the key of the block, and the thread's rights for that key
  are still none: nothing sets them.
\<close>

lemma unprotected_stays_closed:
  assumes "keys_ok k" and "do_mprotect_pkey E pick a n False p k = (True, i, k')" and "p \<noteq> 0" and "in_range a n x"
  shows "\<not> prot (hp (pk_os k')) x \<and> pk_tag k' x = p \<and> p \<notin> set (pk_used k') \<and> \<not> accessible k' x"
proof -
  note u = unprotect_result [OF assms(2)]
  have "p \<in> set (pk_used k)" using u(4) by simp
  then have "p \<noteq> -1" "pk_denied k p" using assms(1,3) by (auto simp: keys_ok_def)
  then show ?thesis using u assms(4) by (simp add: accessible_def)
qed

text \<open>Pages protected one after the other, each successfully.\<close>

fun protect_pages :: "env \<Rightarrow> (int list \<Rightarrow> int) \<Rightarrow> size_t \<Rightarrow> addr list \<Rightarrow> pkeys \<Rightarrow> bool \<times> pkeys" where
  "protect_pages E pick n [] k = (True, k)"
| "protect_pages E pick n (a # as) k =
     (case do_mprotect_pkey E pick a n True 0 k of
        (True, i, k) \<Rightarrow> protect_pages E pick n as k
      | (False, i, k) \<Rightarrow> (False, k))"

lemma protect_pages_keys:
  "protect_pages E pick n as k = (True, k') \<Longrightarrow> keys_ok k \<Longrightarrow> picks pick \<Longrightarrow>
     keys_ok k' \<and> length (pk_used k') = length (pk_used k) + length as"
proof (induction "as" arbitrary: k)
  case (Cons a "as")
  obtain ok i k1 where k1: "do_mprotect_pkey E pick a n True 0 k = (ok, i, k1)" by (metis prod_cases3)
  then have ok using Cons.prems(1) by (cases ok) simp_all
  with k1 Cons.prems have "protect_pages E pick n as k1 = (True, k')" "keys_ok k1"
    using do_mprotect_keys_ok by auto
  moreover have "length (pk_used k1) = Suc (length (pk_used k))"
    using protect_result [OF k1 Cons.prems(3)] \<open>ok\<close> by simp
  ultimately show ?case using Cons.IH Cons.prems(3) by simp
qed simp

lemma keys_ok_length: "keys_ok k \<Longrightarrow> length (pk_used k) \<le> 16"
proof -
  assume "keys_ok k"
  then have "length (pk_used k) = card (set (pk_used k))" and "set (pk_used k) \<subseteq> {0..15}"
    by (simp_all add: keys_ok_def distinct_card)
  moreover from this have "card (set (pk_used k)) \<le> card {0..15 :: int}" by (intro card_mono) simp_all
  ultimately show ?thesis by simp
qed

lemma protect_limit:
  assumes "protect_pages E pick n as k = (True, k')" and "keys_ok k" and "picks pick" and "0 \<in> set (pk_used k)"
  shows "length as \<le> 15"
proof -
  have "0 < length (pk_used k)" using assms(4) by (cases "pk_used k") simp_all
  then show ?thesis using protect_pages_keys [OF assms(1-3)] keys_ok_length [of k'] by linarith
qed

text \<open>The call for the sixteenth page is refused and reported.\<close>

lemma protect_refused:
  assumes "reliable E" and "free_keys k = []"
  shows "\<exists>k'. do_mprotect_pkey E pick a n True p k = (False, -1, k') \<and> hp (pk_os k') = hp (pk_os k) \<and>
     pk_tag k' = pk_tag k \<and> pk_log k' = pk_log k @ [(-1, ENOSPC)]"
  using assms by (simp add: do_mprotect_pkey_def pkey_alloc_def sys_reliable)

text \<open>A failure after the allocation keeps the key allocated, and no page has it.\<close>

lemma failed_protect_leaks_key:
  assumes "do_mprotect_pkey E pick a n True p k = (False, i, k')" and "picks pick" and "i \<noteq> -1"
  shows "i \<notin> set (pk_used k) \<and> i \<in> set (pk_used k')"
  using protect_result(1) [OF assms(1,2)] assms(3) by simp

end
