(* ===== verification/New.thy ===== *)
theory New
  imports Session
begin

text \<open>
  \<^verbatim>\<open>src/vgc_new.cpp\<close>: the C++ operators \<^verbatim>\<open>new\<close> and \<^verbatim>\<open>delete\<close> on the library.
\<close>

definition operator_new :: "env \<Rightarrow> size_t \<Rightarrow> state \<Rightarrow> (addr \<times> state) option" where
  "operator_new E sz s = vgc_malloc E sz s"

definition operator_delete :: "env \<Rightarrow> addr \<Rightarrow> state \<Rightarrow> state option" where
  "operator_delete E ptr s = vgc_free E ptr s"

text \<open>
  C++ has \<^verbatim>\<open>new\<close> return memory or throw, also for the size 0, and \<^verbatim>\<open>delete\<close> ignore the null
  pointer. Here \<^verbatim>\<open>new\<close> returns the null pointer for 0 and for the sizes that do not fit in an mmap
  block, and \<^verbatim>\<open>delete\<close> of the null pointer reports an error.
\<close>

lemma operator_new_null:
  assumes "heap_ok s cs" and "cs \<noteq> []" and "sz = 0 \<or> max_request cs \<le> sz"
  shows "\<exists>r. operator_new E sz s = Some (0, report ERROR_LEVEL (Rep F_vgc_malloc r) s)"
  using vgc_malloc_refused [OF assms] by (simp add: operator_new_def)

lemma operator_delete_null:
  "operator_delete E 0 s = Some (report ERROR_LEVEL (Rep F_vgc_free S_ptr_zero) s)"
  by (simp add: operator_delete_def vgc_free_def)

text \<open>What \<^verbatim>\<open>new\<close> gave can be deleted, in every run of a client.\<close>

lemma new_then_delete:
  assumes "reliable E" and "mmap_ok E" and "client E s ps"
    and "operator_new E sz s = Some (p, t)" and "p \<noteq> 0" and "unat sz mod 4096 \<noteq> 0"
  shows "client E t ((p, sz) # ps)" "\<exists>u. operator_delete E p t = Some u"
proof -
  show cl: "client E t ((p, sz) # ps)"
    using client.called [OF assms(3)] lib_step.given assms(4-6) by (simp add: operator_new_def)
  show "\<exists>u. operator_delete E p t = Some u"
    using client_progress(2) [OF assms(1,2) cl] by (simp add: operator_delete_def)
qed

end
