(* ===== verification/Memory_Manager.thy ===== *)
theory Memory_Manager
  imports Pthread
begin

text \<open>
  \<^verbatim>\<open>src/vgc_memoryManager.cpp\<close>: the class \<^verbatim>\<open>MemoryManager\<close>, a frame for an allocator in which only the
  lock is there. An object is its mutex. Its methods ignore the results of the POSIX calls.
\<close>

text \<open>\<open>rc\<close> is the result of \<^verbatim>\<open>pthread_mutex_init\<close>; \<open>m\<close> is what the storage of the mutex holds before.\<close>

definition MemoryManager :: "errno option \<Rightarrow> pmutex \<Rightarrow> pmutex" where
  "MemoryManager rc m =
     (case rc of
        None \<Rightarrow> \<lparr>pm_attr = default_pattr, pm_lock = Unlocked\<rparr>
      | Some e \<Rightarrow> m\<lparr>pm_lock := Uninit\<rparr>)"

definition MemoryManager_destroy :: "pmutex \<Rightarrow> pmutex option" where
  "MemoryManager_destroy m = map_option snd (pthread_mutex_destroy m)"

text \<open>A call by thread \<open>t\<close>. \<open>None\<close> is a call that does not return.\<close>

definition MemoryManager_allocate :: "nat \<Rightarrow> size_t \<Rightarrow> pmutex \<Rightarrow> (addr \<times> pmutex) option" where
  "MemoryManager_allocate t sz m = do {
     (rc, m) \<leftarrow> pthread_mutex_lock t m;
     (rc, m) \<leftarrow> pthread_mutex_unlock t m;
     Some (0, m) }"

definition MemoryManager_free :: "nat \<Rightarrow> addr \<Rightarrow> pmutex \<Rightarrow> pmutex option" where
  "MemoryManager_free t ptr m = do {
     (rc, m) \<leftarrow> pthread_mutex_lock t m;
     (rc, m) \<leftarrow> pthread_mutex_unlock t m;
     Some m }"

text \<open>An object that was constructed can be used again and again, by every thread.\<close>

lemma MemoryManager_usable:
  fixes m0
  defines "m \<equiv> MemoryManager None m0"
  shows "MemoryManager_allocate t sz m = Some (0, m)" "MemoryManager_free t ptr m = Some m"
    "\<exists>m'. MemoryManager_destroy m = Some m' \<and> pm_lock m' = Uninit"
  by (simp_all add: m_def MemoryManager_def MemoryManager_allocate_def MemoryManager_free_def MemoryManager_destroy_def)

text \<open>
  The attributes are the default ones: unlike the mutexes of the library, this one does not notice
  that the caller holds it, or that the owner died. A call from inside a call, and a call after a
  constructor that failed, do not return.
\<close>

lemma MemoryManager_blocks:
  assumes "pm_attr m = default_pattr" and "pm_lock m \<in> {Locked u, OwnerDied}"
  shows "MemoryManager_allocate t sz m = None" "MemoryManager_free t ptr m = None"
  using assms
  by (auto simp: MemoryManager_allocate_def MemoryManager_free_def held_by_def default_pattr_def)

lemma MemoryManager_not_constructed:
  "MemoryManager_allocate t sz (MemoryManager (Some e) m) = None"
  "MemoryManager_free t ptr (MemoryManager (Some e) m) = None"
  by (simp_all add: MemoryManager_allocate_def MemoryManager_free_def MemoryManager_def)

end
