(* ===== verification/Runs_mp.thy ===== *)
theory Runs_mp
  imports Runs Handshake Response Loading_mp Race Fences Typed Pkeys New Memory_Manager
begin

text \<open>Concrete processes, networks, messages and traces for the witnesses.\<close>

definition demo_net :: net where
  "demo_net = \<lparr>net_fd = (\<lambda>k. 7), net_recv = (\<lambda>k. []), net_blocks = (\<lambda>k. False),
     net_wrote = (\<lambda>k. 4096), net_sigpipe = False\<rparr>"

definition demo_child :: "int \<Rightarrow> int \<Rightarrow> VGC_mallocDebugChild" where
  "demo_child p fd = \<lparr>ch_pid = p, ch_thread = 1, ch_socketFD = fd, ch_socketName = socketName p\<rparr>"

text \<open>Process 100 with an empty table; the same process in a table with process 200.\<close>

definition demo_mp0 :: mp where
  "demo_mp0 = \<lparr>base = blank, getpid = 100, maxProcesses = 0, isFather = False, children_at = 0, children = [],
     fds = [], peers = [], sent = [], bad_close = [], sockdir = []\<rparr>"

definition demo_mp2 :: mp where
  "demo_mp2 = demo_mp0\<lparr>maxProcesses := 3, children_at := 0x10000000,
     children := [demo_child 100 5, demo_child 200 6, zero_child], fds := [5, 6]\<rparr>"

text \<open>Process 300, not in the table yet.\<close>

definition demo_mp3 :: mp where
  "demo_mp3 = demo_mp2\<lparr>getpid := 300\<rparr>"

lemma demo_targets: "targets demo_mp2 = [1]"
  by (simp add: targets_def is_target_def demo_mp2_def demo_mp0_def demo_child_def zero_child_def upt_rec)

definition demo_started :: mp where
  "demo_started = snd (the (startMprotect demo_env (\<lambda>k. 1) None 3 demo_mp0))"

lemma demo_startMprotect: "startMprotect demo_env (\<lambda>k. 1) None 3 demo_mp0 \<noteq> None"
proof -
  have "mmap demo_env 360 blank = (0x10000000, snd (mmap demo_env 360 blank))"
    by (simp add: mmap_def demo_env_def demo_mmap_def demo_regions_def blank_def Let_def)
  then obtain s1 where s1: "mmap demo_env 360 blank = (0x10000000, s1)" by blast
  show ?thesis
    by (simp add: startMprotect_def demo_mp0_def on_base_def s1 Let_def initChildDebugCorruption_def say_def
        table_def sys_reliable [OF demo_reliable] startChildDebugCorruption_def findFreeChild_def
        startChildThread_def get_child_def upd_child_def wrapper_reported reported_ok [OF demo_reliable]
        countChildren_def zero_child_def numeral_3_eq_3)
qed

lemma demo_started_reach: "mp_reach demo_started"
proof -
  obtain ok m where "startMprotect demo_env (\<lambda>k. 1) None 3 demo_mp0 = Some (ok, m)"
    using demo_startMprotect by auto
  moreover from this have "demo_started = m" by (simp add: demo_started_def)
  ultimately show ?thesis using mp_reach.init by metis
qed

text \<open>The calls fail from the second on: the socket is made, the connection refused.\<close>

definition refused_env :: env where
  "refused_env = demo_env\<lparr>env_fail := (\<lambda>k. if k = 1 then Some ECONNREFUSED else None)\<rparr>"

lemma demo_table3: "table demo_mp3 = Some [demo_child 100 5, demo_child 200 6, zero_child]"
  "countChildren demo_mp3 = Some 2"
  by (simp_all add: countChildren_def table_def demo_mp3_def demo_mp2_def demo_mp0_def demo_child_def zero_child_def)

lemma strtol_wraps: "to_int32 (strtol ''4294967296'') = 0"
  by code_simp

definition demo_msg :: msg where
  "demo_msg = \<lparr>m_file = ''src/vgc_pthread.c'', m_line = 98, m_moduleName = ''VGC-PTHREAD'',
     m_functionName = Some ''PTHREAD_mutexConsistent'', m_title = Some ''Error'', m_subtitle = None, m_status = None\<rparr>"

text \<open>
  A program stripped of its symbols. The last frame is not shown, so one without a symbol is the
  fourth of five.
\<close>

definition stripped_messages :: "string list" where
  "stripped_messages = replicate 5 ''[0x401136]''"

definition stripped_env :: env where
  "stripped_env = demo_env\<lparr>env_symbols := (\<lambda>bt. Some stripped_messages)\<rparr>"

lemma stripped_symbols: "env_symbols stripped_env (replicate 5 0x401136) = Some stripped_messages"
  by (simp add: stripped_env_def)

lemma stripped_frames: "frames stripped_messages = [''[0x401136]'']"
  by (simp add: frames_def stripped_messages_def)

end
