(* ===== verification/Edge_Cases.thy ===== *)
theory Edge_Cases
  imports Runs_mp
begin

text \<open>
  What happens at the edges: the first call, sizes that overflow, calls of the operating system
  that fail, small mmap blocks and the second process. Each statement is followed by an instance
  of it.
\<close>

text \<open>
  The first call of \<^verbatim>\<open>vgc_malloc\<close> maps the first chunk, of 8000 pages or, when there is no room
  for that, of 800, and from there on behaves as on a heap with that one chunk.
\<close>

lemma vgc_malloc_first_call:
  assumes "reliable E" and "mmap_ok E" and "heap_ok s []" and "room E s"
  shows "\<exists>a n s1. n \<in> set chunk_sizes \<and> heap_ok s1 [fresh_chunk a n] \<and>
     maps (hp s1) = (a, n) # maps (hp s) \<and> vgc_malloc E sz s = vgc_malloc E sz s1"
  using vgc_malloc_first [OF assms] .

lemma vgc_malloc_first_call_witness:
  "\<exists>a n s1. n \<in> set chunk_sizes \<and> heap_ok s1 [fresh_chunk a n] \<and>
     maps (hp s1) = (a, n) # maps (hp demo0) \<and> vgc_malloc demo_env 5 demo0 = vgc_malloc demo_env 5 s1"
  by (rule vgc_malloc_first_call [OF demo_reliable demo_mmap_ok demo0_ok demo_room])

text \<open>
  The process that enters the table second marks the father as managed, but only one thread is started and
  one place taken: the search for a place for the father looks for the process that was just entered.
\<close>

lemma father_never_started:
  assumes "reliable E" and "table m = Some cs" and "getpid m \<notin> ch_pid ` set cs" and "getpid m \<noteq> 0"
    and "0 \<in> ch_pid ` set cs" and "countChildren m = Some n" and "0 < n"
  shows "\<exists>m'. startChildMprotect E tid m = Some m' \<and> isFather m' \<and> countChildren m' = Some (n + 1) \<and>
     ticks (base m') = Suc (ticks (base m))"
  using startChildDebugCorruption_one_thread [OF assms] by (simp add: startChildMprotect_def)

lemma father_never_started_witness:
  "\<exists>m'. startChildMprotect demo_env (\<lambda>k. 1) demo_mp3 = Some m' \<and> isFather m' \<and>
     countChildren m' = Some (2 + 1) \<and> ticks (base m') = Suc (ticks (base demo_mp3))"
  by (rule father_never_started [OF demo_reliable demo_table3(1) _ _ _ demo_table3(2)])
    (simp_all add: demo_mp3_def demo_mp2_def demo_child_def zero_child_def)

text \<open>
  \<^verbatim>\<open>vgc_calloc\<close> takes the product of its arguments modulo \<open>2 ^ 64\<close>: it is the call for one element of the
  wrapped size, so that an array of \<open>2 ^ 60 + 1\<close> elements of 16 bytes gets 16 bytes.
\<close>

lemma vgc_calloc_wraps:
  "vgc_calloc E nmemb sz s = vgc_calloc E 1 (nmemb * sz) s \<and>
     vgc_calloc E 0x1000000000000001 16 s = vgc_calloc E 1 16 s"
proof -
  have "(0x1000000000000001 * 16 :: size_t) = 16" by (simp only: word_eq_unat) (simp add: unat_word_ariths)
  then show ?thesis by (simp only: vgc_calloc_def mult_1 simp_thms)
qed

text \<open>
  When the attributes of the new mutex cannot be made, \<^verbatim>\<open>allocMMAP\<close> fails but the region stays mapped:
  the code unmaps \<open>size\<close> bytes, and \<open>size\<close> is not set yet.
\<close>

lemma allocMMAP_leaks_region:
  assumes "env_mmap E (ticks s) (maps (hp s)) n = a" and "a \<noteq> MAP_FAILED"
    and "env_fail E (Suc (ticks s)) = Some e" and "env_fail E (Suc (Suc (ticks s))) = None"
    and "4096 \<le> unat n"
  shows "\<exists>s'. allocMMAP E n l s = Some (MAP_FAILED, s') \<and> (a, n) \<in> set (maps (hp s'))"
  using allocMMAP_leaks [OF assms] .

lemma allocMMAP_leaks_region_witness:
  "\<exists>s'. allocMMAP late_env 32768000 0 blank = Some (MAP_FAILED, s') \<and> (0x10000000, 32768000) \<in> set (maps (hp s'))"
  by (rule allocMMAP_leaks_region [where e = ENOMEM])
    (simp_all add: late_env_def demo_env_def demo_mmap_def demo_regions_def blank_def)

text \<open>
  When a region cannot be mapped, neither \<^verbatim>\<open>createShared\<close> nor \<^verbatim>\<open>startMprotect\<close> reports it: the code
  compares with 0, not with \<open>MAP_FAILED\<close>, and goes on to write through the pointer.
\<close>

lemma mmap_failure_missed:
  assumes "\<forall>k ms n. env_mmap E k ms n = MAP_FAILED"
    and "list_all (\<lambda>r. unat (fst r) + unat (snd r) \<le> 2 ^ 47) (maps (hp s))" and "0 < n"
  shows "createShared E pageSize s = None \<and> startMprotect E tid errno0 n m = None"
  using createShared_unmapped [of E s pageSize] startMprotect_unmapped [of E m n tid errno0] assms
  by (simp add: list_all_iff)

lemma mmap_failure_missed_witness:
  "createShared broke_env 4096 blank = None \<and> startMprotect broke_env (\<lambda>k. 1) None 10 demo_mp0 = None"
  by (rule mmap_failure_missed) (simp_all add: broke_env_def blank_def)

text \<open>
  A sound mmap block of the smaller size is reported as inconsistent by \<^verbatim>\<open>checkMmapBlock\<close>, which compares its
  totals with the size of a full block; the result is true all the same.
\<close>

lemma small_mmap_block_reported:
  assumes "reliable E" and "heap_ok s cs" and "c \<in> set cs" and "c_size c \<noteq> 32768000"
    and "ERROR_LEVEL \<le> messageLevel s"
  shows "\<exists>s'. checkMmapBlock E (c_addr c) s = Some (True, s') \<and> Rep F_checkMmapBlock S_inconsistent \<in> set (msgs s')"
  using small_chunk_reported [OF assms] .

lemma small_mmap_block_reported_witness:
  "\<exists>s'. checkMmapBlock demo_env (c_addr small_chunk) small1 = Some (True, s') \<and>
     Rep F_checkMmapBlock S_inconsistent \<in> set (msgs s')"
  by (rule small_mmap_block_reported [OF demo_reliable small1_ok])
    (simp_all add: small_chunk_def small1_level demo0_level)

text \<open>\<^verbatim>\<open>vgc_realloc\<close> to a size that cannot be met returns the null pointer and keeps the old block.\<close>

lemma vgc_realloc_keeps_old:
  assumes "heap_ok s cs" and "cs \<noteq> []" and "max_request cs \<le> sz" and "sz \<noteq> 0" and "ptr \<noteq> 0"
  shows "\<exists>s'. vgc_realloc E ptr sz s = Some (0, s') \<and> heap_ok s' cs \<and> hp s' = hp s"
  using vgc_realloc_refused [OF assms] .

lemma vgc_realloc_keeps_old_witness:
  "\<exists>s'. vgc_realloc demo_env 0x20003F9C 0x2000000 demo2 = Some (0, s') \<and> heap_ok s' [demo_chunk2] \<and> hp s' = hp demo2"
  by (rule vgc_realloc_keeps_old [OF demo2_ok])
    (simp_all add: max_request_def demo_chunk2_def demo_chunk_def fresh_chunk_def)

text \<open>The debugging entry point returns, leaves the memory as it is and releases every lock it took.\<close>

lemma vgc_mallocCheckMMAP_harmless:
  assumes "reliable E" and "heap_ok s cs" and "a \<noteq> 0"
  shows "\<exists>s'. vgc_mallocCheckMMAP E a s = Some s' \<and> heap_ok s' cs \<and> hp s' = hp s"
  using vgc_mallocCheckMMAP_ok [OF assms] .

lemma vgc_mallocCheckMMAP_harmless_witness:
  "\<exists>s'. vgc_mallocCheckMMAP demo_env 0x10000000 demo3 = Some s' \<and> heap_ok s' [demo_chunk3] \<and> hp s' = hp demo3"
  by (rule vgc_mallocCheckMMAP_harmless [OF demo_reliable demo3_ok]) simp

end
