(* ===== verification/Test_Programs.thy ===== *)
theory Test_Programs
  imports Fences New Race
begin

text \<open>
  The programs of \<^verbatim>\<open>test/\<close> that call the library, as calls of the model, without what they print.
  \<^verbatim>\<open>test4.c\<close> and \<^verbatim>\<open>test5.c\<close> call the operating system only.
\<close>

text \<open>\<^verbatim>\<open>test1.c\<close>: two blocks that are kept and one that is freed.\<close>

definition test1 :: "env \<Rightarrow> state \<Rightarrow> (addr list \<times> state) option" where
  "test1 E s = do {
     (a, s) \<leftarrow> vgc_malloc E 10 s;
     (z, s) \<leftarrow> vgc_malloc E 20 s;
     (b, s) \<leftarrow> vgc_malloc E 10 s;
     s \<leftarrow> vgc_free E b s;
     Some ([a, z, b], s) }"

text \<open>\<^verbatim>\<open>test2.cpp\<close>, built without \<^verbatim>\<open>MEMMGR\<close>: the sizes are those of \<^verbatim>\<open>int\<close> and of a class of 8 bytes.\<close>

definition test2 :: "env \<Rightarrow> state \<Rightarrow> (addr list \<times> state) option" where
  "test2 E s = do {
     (a, s) \<leftarrow> operator_new E 4 s;
     s \<leftarrow> operator_delete E a s;
     (b, s) \<leftarrow> operator_new E 8 s;
     Some ([a, b], s) }"

text \<open>\<^verbatim>\<open>test3.c\<close>: the byte after the block is written. \<open>None\<close> is the fault.\<close>

definition test3 :: "env \<Rightarrow> state \<Rightarrow> (addr \<times> state) option" where
  "test3 E s = do {
     (a, s) \<leftarrow> vgc_malloc E 100 s;
     s \<leftarrow> memset (a + 100) 1 1 s;
     Some (a, s) }"

section \<open>What they do\<close>

text \<open>Once there is an mmap block, a call of \<^verbatim>\<open>vgc_malloc\<close> is a step of the client and leaves one.\<close>

lemma client_call:
  assumes E: "reliable E" and mm: "mmap_ok E" and cl: "client E s ps" and test: "\<not> malloc_test s"
    and off: "unat sz mod 4096 \<noteq> 0"
  shows "\<exists>p t qs. vgc_malloc E sz s = Some (p, t) \<and> client E t qs \<and> \<not> malloc_test t \<and> set ps \<subseteq> set qs \<and>
     (p = 0 \<or> (p, sz) \<in> set qs)"
proof -
  obtain p t where run: "vgc_malloc E sz s = Some (p, t)" using client_progress(1) [OF E mm cl] by blast
  note first = malloc_keeps_first [OF E mm cl test run]
  show ?thesis
  proof (cases "p = 0")
    case True
    then have "client E t ps" using client.called [OF cl lib_step.refused] run first(1) by simp
    then show ?thesis using run first(2) True by blast
  next
    case False
    then have "client E t ((p, sz) # ps)" using client.called [OF cl lib_step.given] run off by simp
    then show ?thesis using run first(2) by (intro exI [of _ p] exI [of _ t] exI [of _ "(p, sz) # ps"]) auto
  qed
qed

lemma client_release:
  assumes "reliable E" and "mmap_ok E" and "client E s ps" and "p = 0 \<or> (p, sz) \<in> set ps"
  shows "\<exists>t. vgc_free E p s = Some t"
  using client_progress(2) [OF assms(1-3)] assms(4) by (fastforce simp: vgc_free_def)

lemma test1_returns:
  assumes E: "reliable E" and mm: "mmap_ok E" and cl: "client E s ps" and test: "\<not> malloc_test s"
  shows "\<exists>r t. test1 E s = Some (r, t)"
proof -
  obtain a s1 q1 where a: "vgc_malloc E 10 s = Some (a, s1)" "client E s1 q1" "\<not> malloc_test s1"
    using client_call [OF E mm cl test, of 10] by auto
  obtain z s2 q2 where z: "vgc_malloc E 20 s1 = Some (z, s2)" "client E s2 q2" "\<not> malloc_test s2"
    using client_call [OF E mm a(2,3), of 20] by auto
  obtain b s3 q3 where b: "vgc_malloc E 10 s2 = Some (b, s3)" "client E s3 q3" "b = 0 \<or> (b, 10) \<in> set q3"
    using client_call [OF E mm z(2,3), of 10] by auto
  then show ?thesis using a(1) z(1) client_release [OF E mm b(2,3)] by (auto simp: test1_def)
qed

text \<open>The overrun of \<^verbatim>\<open>test3.c\<close> is found, unless nothing was left of the block behind it.\<close>

lemma test3_faults:
  assumes "reliable E" and "mmap_ok E" and "client E s ps" and run: "vgc_malloc E 100 s = Some (p, t)" and "p \<noteq> 0"
  shows "\<exists>cs h ys. heap_ok t cs \<and> handed cs (p, 100) h ys \<and>
    (if ys \<noteq> [] \<and> is_free (hd ys) then test3 E s = None else b_size h \<le> 12288)"
proof -
  obtain cs h ys where h: "heap_ok t cs" "handed cs (p, 100) h ys"
    "if ys \<noteq> [] \<and> is_free (hd ys)
     then p + 100 = b_addr (hd ys) \<and>
       (\<forall>u qs i v. (spares E (p, 100))\<^sup>*\<^sup>* (t, (p, 100) # ps) (u, qs) \<longrightarrow> i < 4096 \<longrightarrow>
          memset (p + 100 + of_nat i) v 1 u = None)
     else b_size h \<le> page_round 4096 100 + sizeof_mallocHeader"
    using overrun_faults [OF assms] by auto
  have "test3 E s = None" if free: "ys \<noteq> []" "is_free (hd ys)"
  proof -
    have "memset (p + 100 + of_nat 0) 1 1 t = None"
      using h(3) free by (metis (no_types, lifting) rtranclp.rtrancl_refl zero_less_numeral)
    then show ?thesis using run by (simp add: test3_def)
  qed
  moreover have "page_round 4096 100 + sizeof_mallocHeader = (12288 :: size_t)" by (simp add: page_round_def)
  ultimately show ?thesis
    using h by (intro exI [of _ cs] exI [of _ h] exI [of _ ys]) (auto split: if_splits)
qed

end
