(* ===== verification/Runs_more.thy ===== *)
theory Runs_more
  imports Runs_mp Test_Programs
begin

text \<open>Concrete threads, keys and processes for the witnesses.\<close>

section \<open>Two threads\<close>

lemma demo2_maps: "maps (hp demo2) = maps (hp demo1)"
proof -
  obtain new where "mapped_for 100 new [demo_chunk] demo1 demo2"
    using vgc_malloc_all [OF demo_reliable demo_mmap_ok demo1_ok, of 100] demo2_run by auto
  moreover have "alloc_chunks 100 [demo_chunk] \<noteq> None"
    by (simp add: demo_chunk_def fresh_chunk_def fits_def)
  ultimately show ?thesis by (auto simp: mapped_for_def new_region_def)
qed

lemma demo2_mmap: "env_mmap demo_env k (maps (hp demo2)) 32768000 \<noteq> MAP_FAILED"
  by (simp add: demo2_maps demo1_maps demo_env_def demo_mmap_def demo_regions_def disjoint_regions_def)

definition demo_tid :: nat where
  "demo_tid = self demo2"

definition demo_raced :: state where
  "demo_raced = snd (the (vgc_malloc demo_env 100 (demo3\<lparr>self := Suc demo_tid\<rparr>)))"

lemma demo_raced_run: "vgc_malloc demo_env 100 (demo3\<lparr>self := Suc demo_tid\<rparr>) = Some (0x20009F9C, demo_raced)"
proof -
  have spec: "fst (malloc_spec 100 new [demo_chunk3]) = user_memory 100 0x20007000" for new
    by (simp add: malloc_spec_def max_request_def demo_chunk_def demo_chunk3_def
      demo_block_def demo_block2_def demo_rest2_def fresh_chunk_def fits_def carve_def page_round_100)
  have "user_memory 100 0x20007000 = 0x20009F9C" by (simp add: user_memory_def memory_offset_eq)
  then show ?thesis
    using vgc_malloc_all [OF demo_reliable demo_mmap_ok heap_ok_self [OF demo3_ok], of 100 "Suc demo_tid"]
    by (auto simp: spec demo_raced_def)
qed

lemma demo_not_test: "\<not> malloc_test demo2" "\<not> malloc_test demo3"
  using heap_okD(2) [OF demo2_ok] heap_okD(2) [OF demo3_ok]
  by (simp_all add: malloc_test_def demo_chunk2_def demo_chunk3_def demo_chunk_def)

text \<open>Both threads pass the test before either of them goes on.\<close>

lemma demo_race: "(race_on demo_env)\<^sup>*\<^sup>* (\<lambda>t. Rests, [(0x20003F9C, 100)], demo2)
    (\<lambda>t. Rests, [(0x20009F9C, 100), (0x20006F9C, 100), (0x20003F9C, 100)], demo_raced)"
proof -
  let ?p0 = "\<lambda>t. Rests" and ?t = demo_tid and ?u = "Suc demo_tid" and ?ps = "[(0x20003F9C, 100)]"
  let ?p1 = "?p0(?t := Goes_on 100)" and ?p2 = "?p0(?t := Goes_on 100, ?u := Goes_on 100)"
    and ?p3 = "?p0(?u := Goes_on 100)"
  have r1: "malloc_rest demo_env 100 (demo2\<lparr>self := ?t\<rparr>) = Some (0x20006F9C, demo3)"
    using demo3_run demo_not_test(1) by (simp add: vgc_malloc_steps demo_tid_def)
  have t3: "\<not> malloc_test (demo3\<lparr>self := ?u\<rparr>)" using demo_not_test(2) by simp
  then have r2: "malloc_rest demo_env 100 (demo3\<lparr>self := ?u\<rparr>) = Some (0x20009F9C, demo_raced)"
    using demo_raced_run by (simp add: vgc_malloc_steps)
  have t4: "\<not> malloc_test demo_raced"
    using malloc_keeps_first(2) [OF demo_reliable demo_mmap_ok client_self [OF demo_client3] t3 demo_raced_run] .
  have "race_on demo_env (?p0, ?ps, demo2) (?p1, ?ps, demo2)"
    using race.looks [of ?p0 ?t demo_env ?ps demo2 100] demo_not_test(1) by (simp add: race_on_def)
  moreover have "race_on demo_env (?p1, ?ps, demo2) (?p2, ?ps, demo2)"
    using race.looks [of ?p1 ?u demo_env ?ps demo2 100] demo_not_test(1) by (simp add: race_on_def)
  moreover have "?p2(?t := Rests) = ?p3" "?p3(?u := Rests) = ?p0" by (auto simp: fun_eq_iff)
  then have "race_on demo_env (?p2, ?ps, demo2) (?p3, (0x20006F9C, 100) # ?ps, demo3)"
    "race_on demo_env (?p3, (0x20006F9C, 100) # ?ps, demo3) (?p0, (0x20009F9C, 100) # (0x20006F9C, 100) # ?ps, demo_raced)"
    using race.given [of ?p2 ?t 100 demo_env demo2 "0x20006F9C" demo3 ?ps] r1 demo_not_test(2)
      race.given [of ?p3 ?u 100 demo_env demo3 "0x20009F9C" demo_raced "(0x20006F9C, 100) # ?ps"] r2 t4
    by (simp_all add: race_on_def)
  ultimately show ?thesis by (meson converse_rtranclp_into_rtranclp r_into_rtranclp)
qed

lemma demo_node: "mmap_node (hp demo2) 0x20000000"
  using mmap_node.first [of "hp demo2"] heap_okD(2) [OF demo2_ok] by (simp add: demo_chunk2_def demo_chunk_def)

lemma demo_self: "demo0\<lparr>self := self demo0\<rparr> = demo0"
  by simp

text \<open>A second call between the one that sets the guard page and the overrun.\<close>

lemma demo_spares:
  "(spares demo_env (0x20003F9C, 100))\<^sup>*\<^sup>* (demo2, [(0x20003F9C, 100)]) (demo3, [(0x20006F9C, 100), (0x20003F9C, 100)])"
proof (rule r_into_rtranclp)
  have "lib_step demo_env (demo2, [(0x20003F9C, 100)]) (demo3, (0x20006F9C, 100) # [(0x20003F9C, 100)])"
    by (rule lib_step.given [OF demo3_run]) simp_all
  then show "spares demo_env (0x20003F9C, 100) (demo2, [(0x20003F9C, 100)]) (demo3, [(0x20006F9C, 100), (0x20003F9C, 100)])"
    by (simp add: spares_def)
qed

lemma demo_symbols: "env_symbols demo_env bt \<noteq> None"
  by (simp add: demo_env_def)

text \<open>The state with one block in use, and no header at address 0.\<close>

definition demo_last :: state where
  "demo_last = demo2\<lparr>hp := (hp demo2)\<lparr>mmapH := (mmapH (hp demo2))(0 := None)\<rparr>\<rparr>"

lemma demo_last_ok: "heap_ok demo_last [demo_chunk2]"
proof -
  note w = heap_okD [OF demo2_ok]
  have "c_addr demo_chunk2 = 0x20000000" by (simp add: demo_chunk2_def demo_chunk_def)
  then have "chain demo_last 0 [demo_chunk2] 0"
    using w(4) by (elim chain_frame) (auto simp: demo_last_def same_region_def in_range_def)
  then show ?thesis using w by (simp add: heap_ok_def demo_last_def cfg_def)
qed

lemma demo_last_null: "mmapH (hp demo_last) 0 = None"
  by (simp add: demo_last_def)

section \<open>A page with a key\<close>

definition demo_keys :: pkeys where
  "demo_keys = \<lparr>pk_os = demo1, pk_used = [0], pk_tag = (\<lambda>x. 0), pk_denied = (\<lambda>i. False),
     pk_errno = EOTHER 0, pk_log = []\<rparr>"

definition demo_keys1 :: pkeys where
  "demo_keys1 = snd (snd (do_mprotect_pkey demo_env hd 0x20001000 4096 True 0 demo_keys))"

definition demo_keys2 :: pkeys where
  "demo_keys2 = snd (snd (do_mprotect_pkey demo_env hd 0x20001000 4096 False 1 demo_keys1))"

lemma demo_picks: "picks hd"
  by (simp add: picks_def)

lemma demo_keys_ok: "keys_ok demo_keys"
  by (simp add: keys_ok_def demo_keys_def)

lemma demo_protect: "do_mprotect_pkey demo_env hd 0x20001000 4096 True 0 demo_keys = (True, 1, demo_keys1)"
  and demo_unprotect: "do_mprotect_pkey demo_env hd 0x20001000 4096 False 1 demo_keys1 = (True, 0, demo_keys2)"
proof -
  have free: "free_keys demo_keys = [1, 2, 3, 4, 5, 6, 7, 8, 9, 10, 11, 12, 13, 14, 15]"
    by (simp add: free_keys_def demo_keys_def upto_rec1)
  have mapped: "mapped 0x20001000 4096 (demo1\<lparr>ticks := n\<rparr>)" "mapped 0x20001000 4096 (demo1\<lparr>hp := (hp demo1)\<lparr>prot := f\<rparr>, ticks := n\<rparr>)" for n f
    by (simp_all add: mapped_def in_region_def demo1_maps)
  have run: "\<exists>k. do_mprotect_pkey demo_env hd 0x20001000 4096 True 0 demo_keys = (True, 1, k) \<and>
      (\<exists>k2. do_mprotect_pkey demo_env hd 0x20001000 4096 False 1 k = (True, 0, k2))"
    using mapped
    by (simp add: do_mprotect_pkey_def pkey_alloc_def pkey_mprotect_def pkey_free_def mprotect_def free
        sys_reliable [OF demo_reliable] Let_def) (simp add: demo_keys_def mapped_def)
  then show "do_mprotect_pkey demo_env hd 0x20001000 4096 True 0 demo_keys = (True, 1, demo_keys1)"
    "do_mprotect_pkey demo_env hd 0x20001000 4096 False 1 demo_keys1 = (True, 0, demo_keys2)"
    by (auto simp: demo_keys1_def demo_keys2_def)
qed

section \<open>Processes\<close>

text \<open>Process 100 alone in the table.\<close>

definition demo_mp1 :: mp where
  "demo_mp1 = demo_mp0\<lparr>maxProcesses := 2, children_at := 0x10000000, children := [demo_child 100 5, zero_child],
     fds := [5]\<rparr>"

lemma demo_alone: "targets demo_mp1 = []"
  by (simp add: targets_def is_target_def demo_mp1_def demo_mp0_def demo_child_def zero_child_def upt_rec)

text \<open>Its listener, asked once by process 200 to close the guard page at \<open>0x20004000\<close>; then the other end is gone.\<close>

definition demo_listener :: mp where
  "demo_listener = demo_mp1\<lparr>base := demo1, fds := [9, 5]\<rparr>"

definition demo_request :: MProtectBlock where
  "demo_request = \<lparr>blk_header = 0x20004000, blk_prot = PROT_NONE, blk_sourcePID = 200\<rparr>"

definition once_net :: net where
  "once_net = demo_net\<lparr>net_recv := (\<lambda>k. if k = ticks demo1 then encode_block demo_request else [])\<rparr>"

lemma demo_answered: "\<exists>m. answered demo_env once_net 0 9 demo_listener m \<and> ticks (base m) = ticks demo1 + 3"
proof -
  let ?m0 = "demo_listener\<lparr>base := demo1\<lparr>ticks := Suc (ticks demo1)\<rparr>\<rparr>"
  have len: "length (encode_block demo_request) = 16" by (simp add: encode_block_def)
  have fails: "env_fail demo_env k = None" for k by (simp add: demo_env_def)
  have read: "mp_read demo_env once_net sizeof_MProtectBlock demo_listener = Some (True, 16, encode_block demo_request, ?m0)"
    by (simp add: mp_read_def do_read_eq once_net_def demo_net_def demo_listener_def demo_mp1_def demo_mp0_def len fails)
  have decode: "decode_block (encode_block demo_request) = demo_request"
    by (rule decode_encode) (simp_all add: demo_request_def)
  let ?m1 = "say 5 (CR_serve True 0x20004000 100 200) ?m0"
  let ?b = "demo1\<lparr>ticks := Suc (ticks demo1)\<rparr>"
  obtain ms where "report 5 (ChildRep (CR_serve True 0x20004000 100 200)) ?b = ?b\<lparr>msgs := ms\<rparr>"
    using report_msgs by blast
  then have m1: "?m1 = demo_listener\<lparr>base := demo1\<lparr>ticks := Suc (ticks demo1), msgs := ms\<rparr>\<rparr>"
    by (simp add: say_def demo_listener_def)
  have cfg: "sh_pageSize (shared (hp demo1)) = 4096"
    using cfgD(1) [OF heap_okD(1) [OF demo1_ok]] .
  have "mapped 0x20004000 4096 (demo1\<lparr>ticks := Suc (ticks demo1), msgs := ms\<rparr>)"
    by (simp add: mapped_def in_region_def demo1_maps)
  then have prot: "VGC_mprotect demo_env 0x20004000 (base ?m1) = (True, (demo1\<lparr>ticks := Suc (Suc (ticks demo1)), msgs := ms,
      hp := set_prot 0x20004000 True (hp demo1)\<rparr>))"
    using VGC_mprotect_ok [OF demo_reliable, of "0x20004000" "base ?m1"] cfg by (simp add: m1)
  have alone: "nat (maxProcesses ?m1) \<le> length (children ?m1)" "targets ?m1 = []"
    using demo_alone by (simp_all add: demo_listener_def demo_mp1_def targets_def is_target_def [abs_def])
  have c: "get_child 0 ?m0 = Some (demo_child 100 5)" "ch_pid (demo_child 100 5) = 100"
    by (simp_all add: get_child_def demo_listener_def demo_mp1_def demo_child_def)
  have "\<exists>m. serveBlock demo_env once_net 0 9 demo_request ?m0 = Some (True, m) \<and> ticks (base m) = ticks demo1 + 3"
    using c prot protect_alone(1) [OF alone, of demo_env once_net "0x20004000"]
    by (simp add: serveBlock_def demo_request_def mp_write_def net_calls_ok [OF demo_reliable])
  then show ?thesis using read decode by (auto simp: answered_def)
qed

lemma demo_mp_room: "mp_room demo_env []"
  by (simp add: mp_room_def demo_env_def demo_mmap_def demo_regions_def disjoint_regions_def)

end
