(* ===== verification/Spec2Isabelle.thy ===== *)
theory Spec2Isabelle
  imports Edge_Cases Runs_more
begin

text \<open>
  vgc-malloc is a memory allocator for C programs that finds overruns: every block it hands out
  ends at the end of a page, and the page after it, the guard page of the next header, cannot be
  accessed. Memory comes from the system in chunks of 8000 pages (\<^emph>\<open>mmap blocks\<close>, a doubly linked
  list from the record \<^verbatim>\<open>VGC_shared\<close>); a chunk starts with a header of one page and is filled by a
  doubly linked chain of \<^emph>\<open>malloc blocks\<close>, each a header of two pages (the first is the guard page)
  and its bytes. One mutex in \<^verbatim>\<open>VGC_shared\<close> and one in each chunk guard the lists.

  \<^bold>\<open>Theories and the code they model\<close> (paths below \<^verbatim>\<open>src/src/\<close>)

  \<^item> \<open>Prelude\<close>, \<open>Text\<close>: machine types, words, lists; the C library's string functions.
  \<^item> \<open>VGC_State\<close>: the records of \<^verbatim>\<open>vgc_malloc_private.h\<close>, the state, the environment (the choices of the
    operating system), messages, access to headers and bytes. \<open>OS\<close>: the system calls \<^verbatim>\<open>mmap\<close>, \<^verbatim>\<open>munmap\<close>,
    \<^verbatim>\<open>mprotect\<close> as documented, and \<open>mmap_ok\<close>, what is assumed of the addresses \<^verbatim>\<open>mmap\<close> returns.
  \<^item> \<open>Interfaces\<close>: the contracts inside the library as locales: what an operation leaves alone (\<open>frame\<close>,
    \<open>protecting\<close>), a lock that guards an invariant (\<open>guarded\<close>), an \<open>allocator\<close>. They are
    interpreted in \<open>Chunks\<close>, \<open>Edges\<close>, \<open>Malloc_Top\<close>, \<open>Children_Facts\<close> and \<open>Loading_mp\<close>, in \<open>Alloc\<close>
    and \<open>Malloc_Spec\<close>, and in \<open>Calloc\<close>.
  \<^item> \<open>Pthread\<close>: \<^verbatim>\<open>vgc_pthread.c\<close>, on a model of POSIX mutexes (robust, error checking); \<open>Locks\<close>: threads
    that lock, unlock and die, as a step relation.
  \<^item> \<open>Mprotect\<close>: \<^verbatim>\<open>vgc_mprotect.c\<close>, the guard pages. \<open>Pkeys\<close>: \<^verbatim>\<open>do_mprotect\<close> of
    \<^verbatim>\<open>vgc_mprotect_pkey.c\<close>, with the protection keys of the kernel as a state of its own.
  \<^item> \<open>Blocks\<close>, \<open>Malloc\<close>, \<open>Free\<close>: \<^verbatim>\<open>vgc_malloc.c\<close>, function by function under the names of the source
    (\<^verbatim>\<open>checkMmapBlock\<close>, \<^verbatim>\<open>allocMMAP\<close>, \<^verbatim>\<open>allocMallocBlock\<close>, \<^verbatim>\<open>vgc_malloc\<close>, \<^verbatim>\<open>vgc_free\<close>, \<^verbatim>\<open>vgc_calloc\<close>,
    \<^verbatim>\<open>vgc_realloc\<close>); \<open>Startup\<close>: loading, unloading and \<^verbatim>\<open>vgc_mallocCheckMMAP\<close>; \<open>New\<close>: \<^verbatim>\<open>vgc_new.cpp\<close>;
    \<open>Memory_Manager\<close>: \<^verbatim>\<open>vgc_memoryManager.cpp\<close>, a class in which only the lock is there.
  \<^item> \<open>Chain\<close>, \<open>Unify\<close>, \<open>Carve\<close>: the abstract view of one chunk, a list of blocks, and the operations on
    it: \<open>carve\<close>, first fit, \<open>release\<close>. \<open>Chunks\<close>: a list of chunks and \<open>heap_ok\<close>, the invariant.
  \<^item> \<open>Alloc\<close>, \<open>Fresh\<close>, \<open>Malloc_Spec\<close>, \<open>Malloc_Top\<close>, \<open>Live\<close>: \<^verbatim>\<open>vgc_malloc\<close> implements \<open>malloc_spec\<close>.
  \<^item> \<open>Release\<close>, \<open>Free_Spec\<close>: \<^verbatim>\<open>vgc_free\<close> implements \<open>release\<close>, or unmaps the chunk.
  \<^item> \<open>Calloc\<close>: \<^verbatim>\<open>vgc_calloc\<close>, \<^verbatim>\<open>vgc_realloc\<close> and calls from inside a call. \<open>Session\<close>: the runs of a
    client; \<open>Typed\<close>: where the links of the heap lead in such a run; \<open>Fences\<close>: that a heap has one abstract
    state, and the guard page behind a block through such a run, up to the signal handler;
    \<open>Race\<close>: calls by several threads, in the steps \<^verbatim>\<open>vgc_malloc\<close> has outside and inside the lock.
  \<^item> \<open>Corrupt\<close>: overwritten headers; \<open>Edges\<close>, \<open>Edge_Cases\<close>: where the code fails; \<open>Demo\<close>, \<open>Runs\<close>,
    \<open>Runs_mp\<close>, \<open>Runs_more\<close>: concrete environments and states for the witnesses; \<open>Test_Programs\<close>: \<^verbatim>\<open>test1.c\<close>
    and \<^verbatim>\<open>test3.c\<close> of \<^verbatim>\<open>src/test/\<close>.
  \<^item> \<open>Messages\<close>: \<^verbatim>\<open>vgc_message.c\<close>, the level and the text of a message; \<open>Response\<close>: the dump of
    \<^verbatim>\<open>vgc_malloc.c\<close> into a buffer of the caller; \<open>Trace\<close>: the text of a stack trace, from the symbols to
    the lines printed, and \<open>Stacktrace\<close>: the signal handler, both \<^verbatim>\<open>vgc_stacktrace.c\<close>, and the
    constructor and destructor of the library.
  \<^item> \<open>Network\<close>: \<^verbatim>\<open>vgc_network.c\<close>; \<open>Children\<close>: \<^verbatim>\<open>vgc_mprotect_mp.c\<close>, the code of one process of the
    multi-process build; \<open>Children_Facts\<close>, \<open>Distribution\<close>: the table of children, the requests and
    the listening thread; \<open>Loading_mp\<close>: the constructor and destructor of that build; \<open>Handshake\<close>: the
    processes together, as a step relation.

  \<^bold>\<open>How the model reads.\<close> A C function that changes state is a function \<open>state \<Rightarrow> ('a \<times> state) option\<close>.
  \<open>None\<close> means that the code does not return: it reads through a pointer to no object, blocks for
  ever or loops for ever. Loops over pointers are \<open>partial_function (option)\<close>: no fuel is used, and that
  they end on a well formed heap is proved. Every external call may fail as the environment says;
  the properties name the failures they exclude. \<open>reliable\<close>: no call fails, \<^verbatim>\<open>mmap\<close> apart, and the
  program is linked with symbols, so that the stack traces that are printed have the usual form. \<open>size_t\<close>
  and pointers are 64-bit words.

  \<^bold>\<open>What is shown.\<close> On heaps that satisfy \<open>heap_ok\<close> the entry points refine operations on lists of blocks
  and keep the invariant; the runs of a client that asks for no whole pages, does not free the last block of
  the first mmap block while there are others and is not refused its first \<^verbatim>\<open>mmap\<close> (the code fails in each of the
  three cases, as the last section proves) never hang, hand out disjoint and accessible memory, do
  not change the client's bytes and keep every link typed; overruns fault until the block behind is
  freed; threads are serialised as long as there is an mmap block; corrupted headers are found before a block is
  released; the mutex wrappers exclude each other under every interleaving, and every other wrapper reports the
  codes its \<^verbatim>\<open>switch\<close> lists; a message stays in its buffer; the table of children of
  the multi-process build lists no process twice and a distribution reaches the socket of every process that
  answers. The sections on threads, on the multi-process build, on messages and the last one also prove
  where the code does not do what it means to.

  The multi-process build is a build option of its own (\<^verbatim>\<open>VGC_MALLOC_MPROTECT_MP\<close>). \<open>Children\<close> runs the
  code of one process against a network that answers, blocks, takes a part of a write or fails as the parameters
  say, and records to which socket each request went; its \<^verbatim>\<open>VGC_shared\<close> is larger, so \<open>Startup\<close> has the size as a
  parameter of the functions that map and unmap it. \<open>Handshake\<close> abstracts from the memory and follows the program
  counters of all threads: \<open>distribute_step\<close> is the loop of \<^verbatim>\<open>mprotectDistribute\<close>, \<open>listen_step\<close> the loops of
  \<^verbatim>\<open>manageCorruptionThread\<close>.

  \<^bold>\<open>Not modelled.\<close> \<^verbatim>\<open>VGC_mprotect\<close> and \<^verbatim>\<open>VGC_munprotect\<close> of \<^verbatim>\<open>vgc_mprotect_pkey.c\<close>, which call
  \<^verbatim>\<open>do_mprotect\<close> with an argument too few and do not compile; the code under \<^verbatim>\<open>#if 0\<close>; what \<^verbatim>\<open>backtrace_symbols\<close>,
  \<^verbatim>\<open>readlink\<close> and \<^verbatim>\<open>addr2line\<close> give (parameters of the environment); the printing of the test programs, and those
  that call the operating system only; the interleaving of a listener with other threads of its own process.
\<close>

section \<open>vgc_malloc\<close>

text \<open>
  C1. On a heap that satisfies the invariant and has at least one mmap block, \<^verbatim>\<open>vgc_malloc\<close> returns
  and does what \<open>malloc_spec\<close> says: it refuses the sizes 0 and \<open>maxSize\<close> and above, otherwise
  hands out the first free block that is large enough, searching the chunks in order, and asks
  for a new chunk only when there is none. The invariant holds afterwards, no byte in the
  chunks that were there changed, and no guard page in them was opened.
\<close>

theorem vgc_malloc_refines:
  assumes "reliable E" and "mmap_ok E" and "heap_ok s cs" and "cs \<noteq> []"
  shows "\<exists>new s'. vgc_malloc E sz s = Some (fst (malloc_spec sz new cs), s') \<and>
     heap_ok s' (snd (malloc_spec sz new cs)) \<and> is_fresh new \<and> bytes_kept cs s s' \<and>
     guards_kept cs s s' \<and> mapped_for sz new cs s s'"
  using vgc_malloc_all [OF assms] by blast

lemma vgc_malloc_refines_witness:
  "\<exists>new s'. vgc_malloc demo_env 100 demo2 = Some (fst (malloc_spec 100 new [demo_chunk2]), s') \<and>
     heap_ok s' (snd (malloc_spec 100 new [demo_chunk2])) \<and> is_fresh new \<and> bytes_kept [demo_chunk2] demo2 s' \<and>
     guards_kept [demo_chunk2] demo2 s' \<and> mapped_for 100 new [demo_chunk2] demo2 s'"
  by (rule vgc_malloc_refines [OF demo_reliable demo_mmap_ok demo2_ok]) simp

text \<open>
  C2. The bytes \<^verbatim>\<open>vgc_malloc\<close> returns for a size that is no multiple of the page size are all
  mapped and accessible, and none of them belongs to a block that was handed out before.
\<close>

theorem vgc_malloc_region:
  assumes "reliable E" and "mmap_ok E" and "heap_ok s cs" and "cs \<noteq> []"
    and "vgc_malloc E sz s = Some (p, s')" and "p \<noteq> 0" and "unat sz mod 4096 \<noteq> 0"
  shows "access_ok p (unat sz) s' \<and> user_area p sz \<inter> (\<Union>d \<in> set (live cs). area d) = {}"
  using handed_region [OF assms] by blast

lemma vgc_malloc_region_witness:
  "access_ok 0x20006F9C (unat (100 :: size_t)) demo3 \<and>
     user_area 0x20006F9C 100 \<inter> (\<Union>d \<in> set (live [demo_chunk2]). area d) = {}"
  by (rule vgc_malloc_region [OF demo_reliable demo_mmap_ok demo2_ok _ demo3_run]) simp_all

text \<open>
  C3. Overruns are caught, now and later. The pointer is that of a block in use of the heap after the call. When
  something was left of the block, which is then the free block behind it, the bytes handed out end where the header
  of that one starts; a write to any of the 4096 bytes from there on faults, at any
  time in the run of the client, as long as neither the pointer nor the block behind it was freed, and the signal handler
  for the fault reports it at the error level, leaves the heap alone and ends the process. Otherwise the block is at
  most two pages larger than the request. The size is no multiple of the page size.
\<close>

theorem overrun_caught:
  assumes "reliable E" and "mmap_ok E" and "client E s ps"
    and "vgc_malloc E sz s = Some (p, s1)" and "p \<noteq> 0" and "unat sz mod 4096 \<noteq> 0"
    and "(spares E (p, sz))\<^sup>*\<^sup>* (s1, (p, sz) # ps) (t, qs)" and "i < 4096"
    and "env_symbols E (take VGC_MALLOC_STACKTRACE_SIZE (env_backtrace E (ticks t))) \<noteq> None"
  shows "\<exists>cs h ys. heap_ok s1 cs \<and> handed cs (p, sz) h ys \<and>
    (if ys \<noteq> [] \<and> is_free (hd ys)
     then p + sz = b_addr (hd ys) \<and> memset (p + sz + of_nat i) v 1 t = None \<and>
       (\<exists>u. vgc_stacktrace E SIGSEGV 2 (p + sz + of_nat i) rip t = Some (Resume_at continueAfterCrash u) \<and>
          hp u = hp t \<and> set (msgs (report ERROR_LEVEL (CrashRep SIGSEGV (p + sz + of_nat i) rip) t)) \<subseteq> set (msgs u))
     else b_size h \<le> page_round 4096 sz + sizeof_mallocHeader)"
  using overrun_reported [OF assms] .

lemma overrun_caught_witness:
  "\<exists>cs h ys. heap_ok demo2 cs \<and> handed cs (0x20003F9C, 100) h ys \<and>
    (if ys \<noteq> [] \<and> is_free (hd ys)
     then 0x20003F9C + 100 = b_addr (hd ys) \<and> memset (0x20003F9C + 100 + of_nat 7) 1 1 demo3 = None \<and>
       (\<exists>u. vgc_stacktrace demo_env SIGSEGV 2 (0x20003F9C + 100 + of_nat 7) 0x401136 demo3 =
            Some (Resume_at continueAfterCrash u) \<and>
          hp u = hp demo3 \<and> set (msgs (report ERROR_LEVEL (CrashRep SIGSEGV (0x20003F9C + 100 + of_nat 7) 0x401136) demo3)) \<subseteq> set (msgs u))
     else b_size h \<le> page_round 4096 100 + sizeof_mallocHeader)"
  by (rule overrun_caught [OF demo_reliable demo_mmap_ok demo_client0 _ _ _ demo_spares])
    (simp_all add: demo_first_call demo2_run demo_symbols)

section \<open>vgc_free\<close>

text \<open>
  C4. Freeing a block of a chunk that keeps other blocks marks it free and unifies it with its free
  neighbours, as \<open>release\<close> does on the list of blocks; the invariant holds afterwards, for the
  same chunks in the same order, no byte of the heap changes, and of the guard pages at most those
  of this block and of the next are opened.
\<close>

theorem vgc_free_releases:
  assumes "reliable E" and "heap_ok s (us @ c # vs)" and "c_blks c = xs @ b # ys" and "\<not> is_free b"
    and "points_to ptr b" and "tl (release xs b ys) \<noteq> []"
  shows "\<exists>s'. vgc_free E ptr s = Some s' \<and> heap_ok s' (us @ with_blks c (release xs b ys) # vs) \<and>
     bytes (hp s') = bytes (hp s) \<and> opened b ys (hp s) (hp s')"
  using vgc_free_keep [OF assms] .

lemma vgc_free_releases_witness:
  "\<exists>s'. vgc_free demo_env 0x20006F9C demo3 = Some s' \<and>
     heap_ok s' ([] @ with_blks demo_chunk3 (release [demo_block] demo_block2 [demo_rest2]) # []) \<and>
     bytes (hp s') = bytes (hp demo3) \<and> opened demo_block2 [demo_rest2] (hp demo3) (hp s')"
  by (rule vgc_free_releases [OF demo_reliable demo3_at demo_blks3 demo_busy(2) demo_points_to2 demo_release3])

text \<open>
  C5. Freeing the last block in use of a chunk unhooks the chunk from its neighbours and unmaps it.
  The other chunks form a well formed chain afterwards, with none of their bytes changed and none of their guard
  pages opened, and no header outside the chunks is touched; the shared record points to the first of them, except when the chunk that went was the first:
  then it points to none.
\<close>

theorem vgc_free_unmaps:
  assumes "reliable E" and "heap_ok s (us @ c # vs)" and "c_blks c = xs @ b # ys" and "\<not> is_free b"
    and "points_to ptr b" and "tl (release xs b ys) = []"
  shows "\<exists>s'. vgc_free E ptr s = Some s' \<and>
     wf_at s' (if us = [] then 0 else first_chunk (us @ vs) 0) (us @ vs) \<and>
     bytes_kept (us @ vs) s s' \<and> (c_addr c, c_size c) \<notin> set (maps (hp s')) \<and> headers_kept (us @ c # vs) s s' \<and>
     guards_kept (us @ vs) s s'"
  using vgc_free_gone [OF assms] .

lemma vgc_free_unmaps_witness:
  "\<exists>s'. vgc_free demo_env 0x20003F9C demo2 = Some s' \<and>
     wf_at s' (if [] = ([] :: chunk list) then 0 else first_chunk ([] @ []) 0) ([] @ []) \<and>
     bytes_kept ([] @ []) demo2 s' \<and> (c_addr demo_chunk2, c_size demo_chunk2) \<notin> set (maps (hp s')) \<and>
     headers_kept ([] @ demo_chunk2 # []) demo2 s' \<and> guards_kept ([] @ []) demo2 s'"
  by (rule vgc_free_unmaps [OF demo_reliable demo2_at demo_blks2 demo_busy(1) demo_points_to demo_release2])

text \<open>
  C6. \<^verbatim>\<open>vgc_free\<close> undoes a \<^verbatim>\<open>vgc_malloc\<close> of a size that is no multiple of the page size: when every chunk has a
  block in use, freeing the block that was just handed out gives back the abstract state from before, block for block;
  a chunk that was mapped for the request is unmapped again. (For whole pages \<^verbatim>\<open>vgc_free\<close> looks for the header
  a page too far, C36.)
\<close>

theorem vgc_malloc_free_roundtrip:
  assumes "reliable E" and "mmap_ok E" and "heap_ok s cs" and "cs \<noteq> []"
    and "\<forall>c \<in> set cs. tl (c_blks c) \<noteq> []"
    and "vgc_malloc E sz s = Some (p, s')" and "p \<noteq> 0" and "unat sz mod 4096 \<noteq> 0"
  shows "\<exists>s''. vgc_free E p s' = Some s'' \<and> heap_ok s'' cs"
  using malloc_free [OF assms] .

lemma vgc_malloc_free_roundtrip_witness:
  "\<exists>s''. vgc_free demo_env 0x20006F9C demo3 = Some s'' \<and> heap_ok s'' [demo_chunk2]"
  by (rule vgc_malloc_free_roundtrip [OF demo_reliable demo_mmap_ok demo2_ok _ _ demo3_run])
    (simp_all add: demo_chunk2_def)

section \<open>Starting\<close>

text \<open>
  C7. Loading the library maps the shared record, makes its mutex and establishes the invariant
  with no chunk at all; nothing else is mapped or unmapped.
\<close>

theorem initializeShared_establishes:
  assumes "reliable E" and "env_mmap E (ticks s) (maps (hp s)) sizeof_VGC_shared = a"
    and "a \<noteq> MAP_FAILED" and "a \<noteq> 0"
  shows "\<exists>s'. initializeShared E 4096 s = Some (a, True, s') \<and> heap_ok s' [] \<and>
     maps (hp s') = (a, sizeof_VGC_shared) # maps (hp s)"
  using initializeShared_ok [OF assms] .

lemma initializeShared_establishes_witness:
  "\<exists>s'. initializeShared demo_env 4096 blank = Some (0x10000000, True, s') \<and> heap_ok s' [] \<and>
     maps (hp s') = (0x10000000, sizeof_VGC_shared) # maps (hp blank)"
  by (rule initializeShared_establishes [OF demo_reliable])
    (simp_all add: demo_env_def demo_mmap_def demo_regions_def blank_def)

section \<open>Clients\<close>

text \<open>
  C8. A client allocates, writes to its bytes, frees, checks and goes on in another thread, in any order, with three
  restrictions: it asks for no multiple of the page size (C36), it does not free the last block in use of the
  first mmap block while there are others (C37), and the very first \<^verbatim>\<open>mmap\<close> does not fail (C38). In every such run
  the pointers it holds are distinct, their bytes are accessible, and no two of them share a byte.
\<close>

theorem client_pointers_apart:
  assumes "reliable E" and "mmap_ok E" and "client E s ps"
  shows "distinct ps \<and> list_all (\<lambda>x. access_ok (fst x) (unat (snd x)) s) ps \<and>
     pairwise (\<lambda>x y. disjnt (user_area (fst x) (snd x)) (user_area (fst y) (snd y))) (set ps)"
  using client_live [OF assms] by (auto simp: pairwise_def disjnt_def list_all_iff)

lemma client_pointers_apart_witness:
  "distinct demo_held \<and>
     list_all (\<lambda>x. access_ok (fst x) (unat (snd x)) demo3) demo_held \<and>
     pairwise (\<lambda>x y. disjnt (user_area (fst x) (snd x)) (user_area (fst y) (snd y)))
       (set demo_held)"
  by (rule client_pointers_apart [OF demo_reliable demo_mmap_ok demo_held_client])

text \<open>
  C9. In such a run no call of the library changes a byte of a pointer the client holds before and after the call.
\<close>

theorem client_bytes_intact:
  assumes "reliable E" and "mmap_ok E" and "client E s ps" and "lib_step E (s, ps) (s', ps')"
    and "(p, n) \<in> set ps" and "(p, n) \<in> set ps'" and "i < unat n"
  shows "bytes (hp s') (p + of_nat i) = bytes (hp s) (p + of_nat i)"
  using client_intact [OF assms(1-4)] assms(5-7) by (fastforce simp: intact_def)

lemma client_bytes_intact_witness:
  "bytes (hp demo3) (0x20003F9C + of_nat 7) = bytes (hp demo2) (0x20003F9C + of_nat 7)"
  by (rule client_bytes_intact [OF demo_reliable demo_mmap_ok demo_client2 demo_step3, where n = 100]) simp_all





section \<open>Threads\<close>

text \<open>
  C12. Threads. Once there is an mmap block, any number of threads can allocate, write, free each other's pointers and
  check, with the steps that \<^verbatim>\<open>vgc_malloc\<close> has outside and inside the lock interleaved in any way: as long as an
  mmap block is left after each step and nobody asks for a multiple of the page size or frees the last block in use of
  the first of several mmap blocks, it is as if the calls had been made one after the other. The pointers the threads hold
  do not overlap and can be accessed, and no thread is stuck, in a call or at the start of the next one.
\<close>

theorem threads_get_disjoint:
  assumes "reliable E" and "mmap_ok E" and "client E s ps" and "\<not> malloc_test s"
    and "(race_on E)\<^sup>*\<^sup>* (\<lambda>t. Rests, ps, s) (th, qs, s')" and "x \<in> set qs" and "y \<in> set qs" and "x \<noteq> y"
  shows "client E s' qs \<and> malloc_rest E sz (s'\<lparr>self := t\<rparr>) \<noteq> None \<and> vgc_free E (fst x) (s'\<lparr>self := t\<rparr>) \<noteq> None \<and>
    user_area (fst x) (snd x) \<inter> user_area (fst y) (snd y) = {} \<and> access_ok (fst x) (unat (snd x)) s'"
  using race_apart [OF assms] .

lemma threads_get_disjoint_witness:
  "client demo_env demo_raced [(0x20009F9C, 100), (0x20006F9C, 100), (0x20003F9C, 100)] \<and>
    malloc_rest demo_env 64 (demo_raced\<lparr>self := 7\<rparr>) \<noteq> None \<and> vgc_free demo_env (fst (0x20006F9C, 100 :: size_t)) (demo_raced\<lparr>self := 7\<rparr>) \<noteq> None \<and>
    user_area (fst (0x20006F9C, 100 :: size_t)) (snd (0x20006F9C :: addr, 100)) \<inter> user_area (fst (0x20009F9C, 100 :: size_t)) (snd (0x20009F9C :: addr, 100)) = {} \<and>
    access_ok (fst (0x20006F9C, 100 :: size_t)) (unat (snd (0x20006F9C :: addr, 100 :: size_t))) demo_raced"
  by (rule threads_get_disjoint [OF demo_reliable demo_mmap_ok demo_client2 demo_not_test(1) demo_race]) simp_all

text \<open>
  C13. Before there is one, two threads that call at the same time can both see that there is none. The second
  then overwrites the first mmap block with its own: the pointer that was handed out from the first is in
  no mmap block of the chain any more, and \<^verbatim>\<open>vgc_free\<close> will not recognise it.
\<close>

theorem first_calls_lose_pointer:
  assumes "reliable E" and "mmap_ok E" and "heap_ok s []"
    and "vgc_malloc E sz (s\<lparr>self := t\<rparr>) = Some (p, v)" and "p \<noteq> 0" and "unat sz mod 4096 \<noteq> 0"
    and "env_mmap E (ticks v) (maps (hp v)) 32768000 \<noteq> MAP_FAILED"
    and "th t = Rests" and "th u = Rests" and "t \<noteq> u"
  shows "\<exists>s'. (race E)\<^sup>*\<^sup>* (th, [], s) (th(u := Goes_on n), [(p, sz)], s') \<and> isInMmapBlock p s' = Some False"
  using first_calls_race [OF assms] .

lemma first_calls_lose_pointer_witness:
  "\<exists>s'. (race demo_env)\<^sup>*\<^sup>* (\<lambda>t. Rests, [], demo0)
     ((\<lambda>t. Rests)(Suc (self demo0) := Goes_on 100), [(0x20003F9C, 100)], s') \<and>
     isInMmapBlock 0x20003F9C s' = Some False"
  by (rule first_calls_lose_pointer [OF demo_reliable demo_mmap_ok demo0_ok, where v = demo2 and t = "self demo0"])
    (simp_all add: demo_first_call demo2_run demo2_mmap)

text \<open>
  C14. And when the last block in use is freed by another thread between the test and the lock, the call does not
  return: it reads \<^verbatim>\<open>mmapBlockFirst->maxSize\<close> through the null pointer.
\<close>

theorem free_breaks_malloc:
  assumes "reliable E" and "heap_ok s [c]" and "c_blks c = xs @ b # ys" and "\<not> is_free b"
    and "x \<in> set ps" and "points_to (fst x) b" and "tl (release xs b ys) = []" and "mmapH (hp s) 0 = None"
    and "th t = Rests" and "th u = Rests" and "t \<noteq> u" and "sz \<noteq> 0"
  shows "\<exists>s'. (race E)\<^sup>*\<^sup>* (th, ps, s) (th(t := Goes_on sz), remove1 x ps, s') \<and>
     malloc_rest E sz (s'\<lparr>self := t\<rparr>) = None"
  using free_during_malloc [OF assms] .

lemma free_breaks_malloc_witness:
  "\<exists>s'. (race demo_env)\<^sup>*\<^sup>* (\<lambda>t. Rests, [(0x20003F9C, 100)], demo_last)
     ((\<lambda>t. Rests)(1 := Goes_on 64), remove1 (0x20003F9C, 100) [(0x20003F9C, 100)], s') \<and>
     malloc_rest demo_env 64 (s'\<lparr>self := 1\<rparr>) = None"
  by (rule free_breaks_malloc [OF demo_reliable demo_last_ok demo_blks2 demo_busy(1) _ _ demo_release2 demo_last_null, where u = 2])
    (simp_all add: demo_points_to)

section \<open>Refusals\<close>







text \<open>
  C18. When one of the two check bytes of the header of the block to be released was overwritten, the one at its start or
  the one at its end, \<^verbatim>\<open>vgc_free\<close> gives up: the heap is left as it is and the lock is released.
\<close>

theorem overwritten_check_byte_refused:
  assumes "reliable E" and "heap_ok s cs" and "c \<in> set cs" and "b \<in> set (c_blks c)" and "points_to ptr b"
    and "v \<noteq> 0xAA" and "g = (\<lambda>h. h\<lparr>mb_checkStart := v\<rparr>) \<or> g = (\<lambda>h. h\<lparr>mb_checkEnd := v\<rparr>)"
  shows "\<exists>s'. vgc_free E ptr (overwrite (b_addr b) g s) = Some s' \<and>
     hp s' = hp (overwrite (b_addr b) g s) \<and> mtx s' MShared = free_mutex"
  by (rule free_check_byte [OF assms(1-5)]) (use assms(6,7) in auto)

lemma overwritten_check_byte_refused_witness:
  "\<exists>s'. vgc_free demo_env 0x20003F9C (overwrite (b_addr demo_block) (\<lambda>h. h\<lparr>mb_checkStart := 0x41\<rparr>) demo2) = Some s' \<and>
     hp s' = hp (overwrite (b_addr demo_block) (\<lambda>h. h\<lparr>mb_checkStart := 0x41\<rparr>) demo2) \<and> mtx s' MShared = free_mutex"
  by (rule overwritten_check_byte_refused [OF demo_reliable demo2_ok _ _ demo_points_to, where c = demo_chunk2 and v = "0x41"])
    (simp_all add: demo_blks2)



section \<open>vgc_calloc, vgc_realloc and vgc_mallocCheckMMAP\<close>

text \<open>
  C20. When the size of the array, the product modulo \<open>2 ^ 64\<close>, is no multiple of the page size, \<^verbatim>\<open>vgc_calloc\<close> returns,
  the memory it returns is all zeros, and the heap stays usable. (For whole pages the last page is a guard page, C36.)
\<close>

theorem vgc_calloc_zeroes:
  assumes "sound_env E" and "usable s" and "proper_size (nmemb * sz)"
  shows "\<exists>p s'. vgc_calloc E nmemb sz s = Some (p, s') \<and> usable s' \<and>
     (p = 0 \<or> (\<lambda>i. bytes (hp s') (p + of_nat i)) ` {..< unat (nmemb * sz)} \<subseteq> {0})"
  using vgc_calloc_cleared [OF assms] by blast

lemma vgc_calloc_zeroes_witness:
  "\<exists>p s'. vgc_calloc demo_env 10 12 demo2 = Some (p, s') \<and> usable s' \<and>
     (p = 0 \<or> (\<lambda>i. bytes (hp s') (p + of_nat i)) ` {..< unat (10 * 12 :: size_t)} \<subseteq> {0})"
  by (rule vgc_calloc_zeroes) (use demo_reliable demo_mmap_ok demo2_ok in
    \<open>auto simp: sound_env_def usable_def proper_size_def\<close>)

section \<open>Locks\<close>

text \<open>
  C21. Whatever threads do with a mutex through \<^verbatim>\<open>PTHREAD_mutexLock\<close> and \<^verbatim>\<open>PTHREAD_mutexUnlock\<close>, in any
  order and with any failures of the calls, at most one thread holds it at a time, and a thread that
  ended holds nothing.
\<close>

theorem mutual_exclusion:
  assumes "reachable E i w"
  shows "(\<exists>t. holders w \<subseteq> {t}) \<and> holders w \<inter> dead w = {}"
proof -
  have "u = t" if "u \<in> holders w" "t \<in> holders w" for u t
    using reachable_held [OF assms] that unfolding held_by_word_def by (metis lockstate.inject(1))
  then show ?thesis using reachable_dead [OF assms] by blast
qed

lemma mutual_exclusion_witness:
  "(\<exists>t. holders demo_world \<subseteq> {t}) \<and> holders demo_world \<inter> dead demo_world = {}"
  by (rule mutual_exclusion [OF demo_world_reachable])

text \<open>
  C22. After the owner of a robust mutex died, the next \<^verbatim>\<open>PTHREAD_mutexLock\<close> makes the mutex consistent
  and returns true with the lock held by the caller; the memory and the other locks are untouched.
\<close>

theorem mutexLock_recovers:
  assumes "reliable E" and "pm_lock (mtx s i) = OwnerDied" and "pa_robust (pm_attr (mtx s i)) = PTHREAD_MUTEX_ROBUST"
  shows "\<exists>s'. PTHREAD_mutexLock E i s = Some (True, s') \<and> hp s' = hp s \<and>
     pm_lock (mtx s' i) = Locked (self s) \<and> (\<forall>j. j = i \<or> mtx s' j = mtx s j)"
  using mutexLock_owner_died [OF assms] by blast

lemma mutexLock_recovers_witness:
  "\<exists>s'. PTHREAD_mutexLock demo_env MShared demo_orphan = Some (True, s') \<and> hp s' = hp demo_orphan \<and>
     pm_lock (mtx s' MShared) = Locked (self demo_orphan) \<and> (\<forall>j. j = MShared \<or> mtx s' j = mtx demo_orphan j)"
  by (rule mutexLock_recovers [OF demo_reliable]) (simp_all add: demo_orphan_def vgc_pattr_def)



section \<open>The multi-process build\<close>

text \<open>
  C24. However the processes start, stop, answer and change page rights, no process is twice in the table of
  children.
\<close>

theorem children_table_distinct:
  assumes "mp_reach m"
  shows "distinct (filter (\<lambda>p. p \<noteq> 0) (pids m))"
  using mp_reach_ok [OF assms] by (simp add: table_ok_def pids_ok_def)

lemma children_table_distinct_witness: "distinct (filter (\<lambda>p. p \<noteq> 0) (pids demo_started))"
  by (rule children_table_distinct [OF demo_started_reach])

text \<open>
  C25. When no call fails, no write is cut short and every process answers, \<^verbatim>\<open>mprotectDistribute\<close> sends to the socket of
  each other live process of the table, in the order of the table and to no other socket, one request, which its
  listener decodes to the header, the rights and the sender, and leaves the table and the open descriptors as they were.
\<close>

theorem mprotectDistribute_tells_all:
  assumes "reliable E" and "\<forall>k. \<not> net_blocks N k" and "\<forall>k. 16 \<le> net_wrote N k"
    and "nat (maxProcesses m) \<le> length (children m)"
    and "pr \<in> {PROT_NONE, PROT_READ_WRITE}" and "0 \<le> getpid m" and "getpid m < 2 ^ 31"
  shows "\<exists>m'. mprotectDistribute E N header pr m = Some m' \<and> children m' = children m \<and> fds m' = fds m \<and>
     map (\<lambda>(fd, to, data). (to, decode_block data)) (sent m') =
       map (\<lambda>(fd, to, data). (to, decode_block data)) (sent m) @
       map (\<lambda>i. (Some (sun_path (ch_socketName (children m ! i))),
         \<lparr>blk_header = header, blk_prot = pr, blk_sourcePID = getpid m\<rparr>)) (targets m)"
proof -
  let ?b = "\<lparr>blk_header = header, blk_prot = pr, blk_sourcePID = getpid m\<rparr>" and ?d = "\<lambda>(to, data). (to, decode_block data)"
  obtain m' where m': "mprotectDistribute E N header pr m = Some m'" "children m' = children m" "fds m' = fds m"
    and sent: "map snd (sent m') = map snd (sent m) @
      map (\<lambda>i. (Some (sun_path (ch_socketName (children m ! i))), encode_block ?b)) (targets m)"
    using distributeTo_ok [OF assms(1-3), of "[0..<nat (maxProcesses m)]" m ?b] assms(4)
    by (auto simp: mprotectDistribute_def targets_def)
  have "decode_block (encode_block ?b) = ?b" using assms(5-7) by (intro decode_encode) auto
  then have "map ?d (map snd (sent m')) = map ?d (map snd (sent m)) @
      map (\<lambda>i. (Some (sun_path (ch_socketName (children m ! i))), ?b)) (targets m)"
    using sent by simp
  then show ?thesis using m' by (auto simp: comp_def case_prod_unfold)
qed

lemma mprotectDistribute_tells_all_witness:
  "\<exists>m'. mprotectDistribute demo_env demo_net 0x20002000 PROT_NONE demo_mp2 = Some m' \<and>
     children m' = children demo_mp2 \<and> fds m' = fds demo_mp2 \<and>
     map (\<lambda>(fd, to, data). (to, decode_block data)) (sent m') =
       map (\<lambda>(fd, to, data). (to, decode_block data)) (sent demo_mp2) @
       map (\<lambda>i. (Some (sun_path (ch_socketName (children demo_mp2 ! i))),
         \<lparr>blk_header = 0x20002000, blk_prot = PROT_NONE, blk_sourcePID = getpid demo_mp2\<rparr>)) (targets demo_mp2)"
  by (rule mprotectDistribute_tells_all [OF demo_reliable]) (simp_all add: demo_net_def demo_mp2_def demo_mp0_def)



text \<open>
  C27. While no other process is registered, \<^verbatim>\<open>VGC_mprotect\<close> and \<^verbatim>\<open>VGC_munprotect\<close> of the multi-process build
  are those of the default build.
\<close>

theorem protect_alone_equivalent:
  assumes "nat (maxProcesses m) \<le> length (children m)" and "targets m = []"
  shows "VGC_mprotect_mp E N a m = (case VGC_mprotect E a (base m) of (ok, s) \<Rightarrow> Some (ok, m\<lparr>base := s\<rparr>)) \<and>
     VGC_munprotect_mp E N a m = (case VGC_munprotect E a (base m) of (ok, s) \<Rightarrow> Some (ok, m\<lparr>base := s\<rparr>))"
  using protect_alone [OF assms] by blast

lemma protect_alone_equivalent_witness:
  "VGC_mprotect_mp demo_env demo_net 0x1000 demo_mp1 =
       (case VGC_mprotect demo_env 0x1000 (base demo_mp1) of (ok, s) \<Rightarrow> Some (ok, demo_mp1\<lparr>base := s\<rparr>)) \<and>
     VGC_munprotect_mp demo_env demo_net 0x1000 demo_mp1 =
       (case VGC_munprotect demo_env 0x1000 (base demo_mp1) of (ok, s) \<Rightarrow> Some (ok, demo_mp1\<lparr>base := s\<rparr>))"
  by (rule protect_alone_equivalent [OF _ demo_alone]) (simp add: demo_mp1_def)

text \<open>
  C28. A listener that has answered any number of requests on a connection and then finds the other end closed, as
  \<^verbatim>\<open>mprotectDistribute\<close> closes it after the answer, never leaves the connection, and so never accepts another one,
  although no call blocks or fails: at the end of the stream \<^verbatim>\<open>do_read\<close> returns true with no bytes, any number of times, and
  the loop goes on.
\<close>

theorem listener_stuck_at_eof:
  assumes "(answered E N i fd)\<^sup>*\<^sup>* m m'"
    and "\<forall>k. k < ticks (base m') \<or> env_fail E k = None \<and> net_recv N k = [] \<and> \<not> net_blocks N k"
  shows "serveConnection E N i fd m = None \<and> (\<exists>m''. (idles E N ^^ n) m' m'')"
proof -
  have "at_eof E N m'" using assms(2) by (auto simp: at_eof_def not_less [symmetric])
  then show ?thesis using listener_deaf [OF assms(1)] by blast
qed

lemma listener_stuck_at_eof_witness:
  "\<exists>m'. serveConnection demo_env once_net 0 9 demo_listener = None \<and> (\<exists>m''. (idles demo_env once_net ^^ 1000) m' m'')"
proof -
  obtain m where "answered demo_env once_net 0 9 demo_listener m" "ticks (base m) = ticks demo1 + 3"
    using demo_answered by blast
  then have "serveConnection demo_env once_net 0 9 demo_listener = None \<and> (\<exists>m''. (idles demo_env once_net ^^ 1000) m m'')"
    by (intro listener_stuck_at_eof r_into_rtranclp) (auto simp: once_net_def demo_net_def demo_env_def)
  then show ?thesis by blast
qed

text \<open>
  C29. With two or more live processes in the table, a call of \<^verbatim>\<open>VGC_mprotect\<close> or \<^verbatim>\<open>VGC_munprotect\<close> does not return,
  even when no system call fails: the listener that serves the request distributes it again before
  it answers, so every answer waits for another one.
\<close>

theorem distribution_deadlocks:
  assumes "a \<in> set ps" and "b \<in> set ps" and "a \<noteq> 0" and "b \<noteq> 0" and "a \<noteq> b" and "proto_reach ps s"
  shows "pcs s (Caller p) \<noteq> P_done \<and> list_all (\<lambda>c. \<not> c_answered c) (conns s)"
  using proto_reach_unanswered [OF assms] by (simp add: unanswered_def)

lemma distribution_deadlocks_witness:
  "pcs (goto (Caller 100) (P_loop None [100, 200, 0]) proto_init) (Caller 100) \<noteq> P_done \<and>
     list_all (\<lambda>c. \<not> c_answered c) (conns (goto (Caller 100) (P_loop None [100, 200, 0]) proto_init))"
  by (rule distribution_deadlocks [where a = 100 and b = 200 and ps = "[100, 200, 0]"])
    (auto simp: proto_reach_def proto_init_def proto_step_def intro!: r_into_rtranclp distribute_step.call)

section \<open>Messages, traces and loading\<close>

text \<open>
  C30. After \<^verbatim>\<open>vgc_messageInit\<close> a message is printed exactly when its level is at most the low 32 bits of
  the number in \<^verbatim>\<open>VGC_MESSAGE_LEVEL\<close>, whatever text that is. What is printed is the header and the arguments, cut to the
  2047 characters of the buffer, and the code that ends the colour: nothing is written behind the buffer, however long they
  are. Nothing else changes.
\<close>

theorem vgc_message_by_level:
  "\<exists>s'. vgc_message E l a fmt (vgc_messageInit (Some level) s) =
     Some (if to_int32 (strtol level) < l then None
           else Some (take 2047 (message_line l a fmt) @ c_black @ [newline_char]), s') \<and>
     same_core (vgc_messageInit (Some level) s) s'"
  using vgc_message_prints [of E l a fmt "vgc_messageInit (Some level) s"]
  by (simp add: vgc_messageInit_def Let_def)

text \<open>
  C31. The dump of a chunk into a buffer of the caller returns, and stays inside the buffer exactly when the
  158 characters of the head fit: they are written without a look at the size.
\<close>

theorem response_overflows:
  assumes "reliable E" and "heap_ok s cs" and "c \<in> set cs" and "12388 \<le> unat (c_size c)"
  shows "\<exists>r' s'. dumpMmapBlock_response E cap (c_addr c) r s = Some (r', s') \<and> hp s' = hp s \<and>
     (length r' < cap) = (length r + 158 < cap)"
proof -
  obtain p n where "chunk_mem (hp s) p n c" using chunk_at [OF assms(2,3)] by blast
  from dumpMmapBlock_response_ok [OF assms(1) this assms(4), of cap r] show ?thesis by fastforce
qed

lemma response_overflows_witness:
  "\<exists>r' s'. dumpMmapBlock_response demo_env 100 (c_addr demo_chunk2) '''' demo2 = Some (r', s') \<and> hp s' = hp demo2 \<and>
     (length r' < 100) = (length ('''' :: string) + 158 < 100)"
  by (rule response_overflows [OF demo_reliable demo2_ok]) (simp_all add: demo_chunk2_def demo_chunk_def fresh_chunk_def)

text \<open>
  C32. A frame without a symbol, and so without a parenthesis, crashes whoever prints the trace it is shown
  in, the signal handler and the dump of a block: the null pointer \<^verbatim>\<open>strchr\<close> returns is written through.
\<close>

theorem trace_crashes:
  assumes "env_symbols E bt = Some messages" and "m \<in> set (frames messages)"
    and "\<not> system_library m" and "CHR ''('' \<notin> set m"
    and "bt = take VGC_MALLOC_STACKTRACE_SIZE (env_backtrace E (ticks s))" and "bt = mb_btArray b" and "bt \<noteq> []"
    and "si_code \<in> set access_codes"
  shows "vgc_stacktrace E SIGSEGV si_code si_addr rip s = None \<and> vgc_stacktraceShow E b = None"
  using stacktrace_no_symbol [OF assms(2-4)] assms by (simp add: vgc_stacktrace_def vgc_stacktraceShow_def)

lemma trace_crashes_witness:
  "vgc_stacktrace stripped_env SIGSEGV 2 0x20004000 0x401136 blank = None \<and>
     vgc_stacktraceShow stripped_env (zero_mallocHeader\<lparr>mb_btArray := replicate 5 0x401136\<rparr>) = None"
  by (rule trace_crashes [OF stripped_symbols, of "''[0x401136]''"])
    (simp_all add: stripped_frames access_codes_def system_library_def stripped_env_def demo_env_def VGC_MALLOC_STACKTRACE_SIZE_def)

text \<open>
  C33. Loading the library and unloading it by the process that loaded it leaves exactly the regions mapped that
  were mapped before; in any other process unloading does nothing.
\<close>

theorem load_unload_roundtrip:
  assumes "reliable E" and "mmap_ok E"
    and "env_mmap E (Suc (ticks s)) (maps (hp s)) sizeof_VGC_shared \<noteq> MAP_FAILED"
    and "list_all (\<lambda>r. snd r \<noteq> 0) (maps (hp s))"
  shows "\<exists>l a s1 l2 s2. my_init E p level 4096 s = Some (l, Loaded a s1) \<and>
     my_fini E p a s1 = Some (l2, s2) \<and> maps (hp s2) = maps (hp s) \<and>
     (\<forall>q. q = p \<or> my_fini E q a s1 = Some ('''', s1))"
  using load_unload [OF assms(1-3)] assms(4) by (simp add: list_all_iff)

lemma load_unload_roundtrip_witness:
  "\<exists>l a s1 l2 s2. my_init demo_env 100 (Some ''4'') 4096 blank = Some (l, Loaded a s1) \<and>
     my_fini demo_env 100 a s1 = Some (l2, s2) \<and> maps (hp s2) = maps (hp blank) \<and>
     (\<forall>q. q = 100 \<or> my_fini demo_env q a s1 = Some ('''', s1))"
  by (rule load_unload_roundtrip [OF demo_reliable demo_mmap_ok])
    (simp_all add: demo_env_def demo_mmap_def demo_regions_def blank_def)

text \<open>
  C34. The same in the multi-process build, which also maps the table of the processes and starts the thread of the
  loading process: unloading leaves the regions that were mapped before, and no entry in the table.
\<close>

theorem load_unload_processes:
  assumes "reliable E" and "mmap_ok E" and "mp_room E (maps (hp (base m)))"
    and "list_all (\<lambda>r. snd r \<noteq> 0) (maps (hp (base m)))"
  shows "\<exists>l a m1 l2 m2. my_init_mp E tid errno0 level 4096 m = Some (l, Loaded_mp a m1) \<and>
     length (children m1) = 10 \<and> my_fini_mp E a m1 = Some (l2, m2) \<and>
     maps (hp (base m2)) = maps (hp (base m)) \<and> children m2 = []"
  using load_unload_mp [OF assms(1-3)] assms(4) by (simp add: list_all_iff)

lemma load_unload_processes_witness:
  "\<exists>l a m1 l2 m2. my_init_mp demo_env (\<lambda>k. 1) None (Some ''4'') 4096 demo_mp0 = Some (l, Loaded_mp a m1) \<and>
     length (children m1) = 10 \<and> my_fini_mp demo_env a m1 = Some (l2, m2) \<and>
     maps (hp (base m2)) = maps (hp (base demo_mp0)) \<and> children m2 = []"
  by (rule load_unload_processes [OF demo_reliable demo_mmap_ok])
    (simp_all add: demo_mp0_def blank_def demo_mp_room)

section \<open>Where the code does not do what it means to\<close>

text \<open>
  C35. Freeing a block takes the guard page away from the block before it: the page that made every overrun of that block fault
  is accessible afterwards, although the block is still in use.
\<close>

theorem freed_neighbour_opens_guard:
  assumes "reliable E" and "heap_ok s (us @ c # vs)" and "c_blks c = xs @ a # b # ys" and "\<not> is_free a" and "\<not> is_free b"
    and "points_to q b" and "serves (p, sz) a" and "b_size a = page_round 4096 sz"
  shows "\<exists>s'. vgc_free E q s = Some s' \<and> heap_ok s' (us @ with_blks c (release (xs @ [a]) b ys) # vs) \<and>
     access_ok (p + sz) 4096 s'"
  using neighbour_freed [OF assms] .

lemma freed_neighbour_opens_guard_witness:
  "\<exists>s'. vgc_free demo_env 0x20006F9C demo3 = Some s' \<and>
     heap_ok s' ([] @ with_blks demo_chunk3 (release ([] @ [demo_block]) demo_block2 [demo_rest2]) # []) \<and>
     access_ok (0x20003F9C + 100) 4096 s'"
  by (rule freed_neighbour_opens_guard [OF demo_reliable demo3_at _ demo_busy demo_points_to2 demo_serves])
    (simp_all add: demo_chunk3_def demo_block_def page_round_100)

text \<open>
  C36. A request whose size is a multiple of the page size gets a pointer one page too far into its block, a block in use
  of the heap after the call. The bytes end one page behind the block when it was split: the last page is then the guard
  page of the next block, and none of its bytes can be accessed. The header \<^verbatim>\<open>vgc_free\<close> computes from
  the pointer is one page behind the block's.
\<close>

theorem page_multiple_overruns:
  assumes "reliable E" and "mmap_ok E" and "heap_ok s cs" and "cs \<noteq> []"
    and "vgc_malloc E sz s = Some (p, s')" and "p \<noteq> 0" and "unat sz mod 4096 = 0"
  shows "\<exists>cs' h ys. heap_ok s' cs' \<and> handed cs' (p, sz) h ys \<and> p = b_addr h + 12288 \<and>
    header_of p s' = b_addr h + 4096 \<and>
    (if ys \<noteq> [] \<and> is_free (hd ys)
     then b_size h = sz \<and> p + sz = b_addr (hd ys) + 4096 \<and> Collect (in_range (b_addr (hd ys)) 4096) \<subseteq> Collect (prot (hp s'))
     else b_size h \<le> sz + sizeof_mallocHeader)"
  using page_multiple_handed [OF assms] unfolding Collect_mono_iff .

lemma page_multiple_overruns_witness:
  "\<exists>cs' h ys. heap_ok demo3p cs' \<and> handed cs' (0x20007000, 4096) h ys \<and> 0x20007000 = b_addr h + 12288 \<and>
    header_of 0x20007000 demo3p = b_addr h + 4096 \<and>
    (if ys \<noteq> [] \<and> is_free (hd ys)
     then b_size h = 4096 \<and> 0x20007000 + 4096 = b_addr (hd ys) + 4096 \<and>
       Collect (in_range (b_addr (hd ys)) 4096) \<subseteq> Collect (prot (hp demo3p))
     else b_size h \<le> 4096 + sizeof_mallocHeader)"
  by (rule page_multiple_overruns [OF demo_reliable demo_mmap_ok demo2_ok _ demo3p_run]) simp_all

text \<open>
  C37. Releasing the last block in use of the first mmap block loses the others: the shared record points to
  no mmap block, although their chain is intact and counted, and no pointer into them is
  recognised any more.
\<close>

theorem first_chunk_freed_loses_rest:
  assumes "reliable E" and "heap_ok s (c # vs)" and "c_blks c = xs @ b # ys"
    and "\<not> is_free b" and "points_to ptr b" and "tl (release xs b ys) = []"
  shows "\<exists>s'. vgc_free E ptr s = Some s' \<and> sh_mmapBlockFirst (shared (hp s')) = 0 \<and>
     sh_mmapBlockCount (shared (hp s')) = int (length vs) \<and> chain s' 0 vs 0 \<and>
     (\<forall>q. isInMmapBlock q s' = Some False)"
  using free_first_loses_rest [OF assms] .

lemma first_chunk_freed_loses_rest_witness:
  "\<exists>s'. vgc_free demo_env 0x20003F9C demo5 = Some s' \<and> sh_mmapBlockFirst (shared (hp s')) = 0 \<and>
     sh_mmapBlockCount (shared (hp s')) = int (length [demo_second]) \<and> chain s' 0 [demo_second] 0 \<and>
     (\<forall>q. isInMmapBlock q s' = Some False)"
  by (rule first_chunk_freed_loses_rest [OF demo_reliable demo5_ok demo_blks2 demo_busy(1) demo_points_to demo_release2])

text \<open>
  C38. When the first \<^verbatim>\<open>mmap\<close> and the smaller second one fail, \<^verbatim>\<open>vgc_malloc\<close> returns the null pointer but leaves
  \<open>MAP_FAILED\<close> in the shared record, and the next call reads a header there: it does not return.
\<close>

theorem first_mmap_failure_poisons:
  assumes "reliable E" and "heap_ok s []"
    and "env_mmap E (ticks s) (maps (hp s)) 32768000 = MAP_FAILED"
    and "env_mmap E (Suc (ticks s)) (maps (hp s)) 3276800 = MAP_FAILED"
    and "mmapH (hp s) MAP_FAILED = None" and "n \<noteq> 0"
  shows "\<exists>s'. vgc_malloc E sz s = Some (0, s') \<and> vgc_malloc E n s' = None"
  using first_mmap_fails [OF assms] .

lemma first_mmap_failure_poisons_witness:
  "\<exists>s'. vgc_malloc broke_env 100 demo0 = Some (0, s') \<and> vgc_malloc broke_env 100 s' = None"
  by (rule first_mmap_failure_poisons [OF broke_reliable demo0_ok])
    (simp_all add: broke_env_def demo0_headers)

text \<open>
  C39. For every pointer the library handed out for a size that is no multiple of the page size, the address at which \<^verbatim>\<open>vgc_realloc\<close> reads the size of the
  old block, \<^verbatim>\<open>sizeof(VGC_mallocHeader)\<close> below the pointer, is the address of no header of the heap,
  whereas the one \<^verbatim>\<open>vgc_free\<close> computes is the block's.
\<close>

theorem vgc_realloc_reads_elsewhere:
  assumes "heap_ok s cs" and "b \<in> set (live cs)" and "serves (p, sz) b" and "n \<noteq> 0"
  shows "header_of p s = b_addr b \<and>
    p - sizeof_mallocHeader \<notin> (\<Union>c \<in> set cs. b_addr ` set (c_blks c)) \<and>
    vgc_realloc E p n s = do {
      (q, s) \<leftarrow> vgc_malloc E n s;
      if q = 0 then Some (0, s)
      else do {
        h \<leftarrow> mallocH (hp s) (p - sizeof_mallocHeader);
        s \<leftarrow> memcpy q p (min (mb_size h) n) s;
        s \<leftarrow> vgc_free E p s;
        Some (q, s) } }"
  using realloc_misses [OF assms(1-3)] assms(4) unfolding vgc_realloc_def get_mb_def Let_def by simp

lemma vgc_realloc_reads_elsewhere_witness:
  "header_of 0x20003F9C demo2 = b_addr demo_block \<and>
    0x20003F9C - sizeof_mallocHeader \<notin> (\<Union>c \<in> set [demo_chunk2]. b_addr ` set (c_blks c)) \<and>
    vgc_realloc demo_env 0x20003F9C 200 demo2 = do {
      (q, s) \<leftarrow> vgc_malloc demo_env 200 demo2;
      if q = 0 then Some (0, s)
      else do {
        h \<leftarrow> mallocH (hp s) (0x20003F9C - sizeof_mallocHeader);
        s \<leftarrow> memcpy q 0x20003F9C (min (mb_size h) 200) s;
        s \<leftarrow> vgc_free demo_env 0x20003F9C s;
        Some (q, s) } }"
  by (rule vgc_realloc_reads_elsewhere [OF demo2_ok _ demo_serves]) (simp_all add: demo_blks2 demo_busy)

text \<open>
  C40. In the build with protection keys a page that was given back stays closed: \<^verbatim>\<open>do_mprotect\<close> returns true and
  clears the key of the block, but the page keeps the key that was freed, and the thread's rights for it
  are still none.
\<close>

theorem unprotected_page_stays_closed:
  assumes "keys_ok k" and "do_mprotect_pkey E pick a n False p k = (True, i, k')" and "p \<noteq> 0" and "in_range a n x"
  shows "\<not> prot (hp (pk_os k')) x \<and> pk_tag k' x = p \<and> p \<notin> set (pk_used k') \<and> \<not> accessible k' x"
  using unprotected_stays_closed [OF assms] .

lemma unprotected_page_stays_closed_witness:
  "\<not> prot (hp (pk_os demo_keys2)) 0x20001000 \<and> pk_tag demo_keys2 0x20001000 = 1 \<and>
     1 \<notin> set (pk_used demo_keys2) \<and> \<not> accessible demo_keys2 0x20001000"
  by (rule unprotected_page_stays_closed [OF do_mprotect_keys_ok [OF demo_keys_ok demo_picks demo_protect] demo_unprotect])
    (simp_all add: in_range_def)

end
